theory Spec2Isabelle
  imports Complex_Main "HOL-Library.Word" "HOL-Library.Monad_Syntax"
begin

unbundle bit_operations_syntax

text \<open>
  A shallow embedding of parts of the VTS browser: the mesh upload of the renderer
  (vts-librenderer), the bound-layer entry, the tileset mapping and the resource
  priority of vts-browser-lib, and the tile traversal of vts-libbrowser (metanode and
  draw determination of a node, the flat, stable and balanced strategies).

  Conventions.  Machine integers are words of their width.  A call that C++ leaves
  undefined (a shift by too much, a read out of range, a null pointer that is
  dereferenced) or that fails an assertion has no result: the functions return an
  \<open>option\<close>.  A finite floating-point value is the rational number it denotes; the
  operations on \<^verbatim>\<open>double\<close> and the conversions to \<^verbatim>\<open>float\<close> round it to the nearest
  value of the format.  A resource handle is the name (URL) of the resource; the
  validity of a resource does not change during a call.  Functions of the repository whose code is not part of the sources
  at hand are fields of the records \<open>MapImpl\<close>, \<open>MapImplNav\<close> and \<open>CameraImpl\<close>, or are
  kept as events.  The definitions come first, then example data, then the properties.
\<close>

section \<open>Floating-point values\<close>

text \<open>
  A floating-point value: \<open>Fin q\<close> is the finite value \<open>q\<close>; \<open>NonFin\<close> is a value that is
  not finite (a NaN such as the priority of a node that has never been updated, or an
  infinity such as a quotient by zero or a result beyond the range of the format).
  The sign of a zero is not kept.
\<close>

datatype fnum = Fin rat | NonFin

text \<open>The number of binary digits of a positive integer.\<close>

function bitlen :: "int \<Rightarrow> int" where
  "bitlen n = (if n \<le> 0 then 0 else bitlen (n div 2) + 1)"
  by pat_completeness auto
termination by (relation "measure nat") auto

declare bitlen.simps [simp del]

definition pow2 :: "int \<Rightarrow> rat" where
  "pow2 e = (if 0 \<le> e then 2 ^ nat e else 1 / 2 ^ nat (- e))"

text \<open>The binary exponent of a rational \<open>q \<noteq> 0\<close>: \<open>2^e \<le> |q| < 2^(e+1)\<close>.\<close>

definition ilog2 :: "rat \<Rightarrow> int" where
  "ilog2 q = (let (a, b) = quotient_of \<bar>q\<bar>;
                  e = bitlen a - bitlen b
              in if pow2 e \<le> \<bar>q\<bar> then e else e - 1)"

text \<open>The nearest integer, a tie going to the even one.\<close>

definition round_even :: "rat \<Rightarrow> int" where
  "round_even q = (let f = \<lfloor>q\<rfloor>; r = q - of_int f
                   in if r < 1 / 2 then f
                      else if 1 / 2 < r then f + 1
                      else if even f then f else f + 1)"

text \<open>
  Rounding to the binary format with \<open>p\<close> digits of precision whose finite values are
  below \<open>2^emax\<close> (IEEE 754, round to nearest, ties to even, which is the mode C++
  programs run in): the value is rounded to a multiple of the unit in the last place of
  its binade, the unit of the subnormal numbers below \<open>2^(2 - emax)\<close>; a result of
  magnitude \<open>2^emax\<close> or more is an infinity.
\<close>

definition fround :: "nat \<Rightarrow> int \<Rightarrow> rat \<Rightarrow> fnum" where
  "fround p emax q =
     (if q = 0 then Fin 0
      else let e = max (ilog2 q) (2 - emax);
               u = pow2 (e - (int p - 1));
               r = of_int (round_even (q / u)) * u
           in if pow2 emax \<le> \<bar>r\<bar> then NonFin else Fin r)"

text \<open>\<^verbatim>\<open>double\<close> is binary64, \<^verbatim>\<open>float\<close> is binary32.\<close>

definition round_double :: "rat \<Rightarrow> fnum" where
  "round_double = fround 53 1024"

definition round_float :: "rat \<Rightarrow> fnum" where
  "round_float = fround 24 128"

text \<open>
  The operations \<^verbatim>\<open>+\<close>, \<^verbatim>\<open>-\<close> and \<^verbatim>\<open>*\<close> on \<^verbatim>\<open>double\<close>: the exact result, rounded.  With an
  operand that is not finite the result is not finite either.
\<close>

definition double_add :: "fnum \<Rightarrow> fnum \<Rightarrow> fnum" where
  "double_add x y = (case (x, y) of (Fin a, Fin b) \<Rightarrow> round_double (a + b) | _ \<Rightarrow> NonFin)"

definition double_sub :: "fnum \<Rightarrow> fnum \<Rightarrow> fnum" where
  "double_sub x y = (case (x, y) of (Fin a, Fin b) \<Rightarrow> round_double (a - b) | _ \<Rightarrow> NonFin)"

definition double_mul :: "fnum \<Rightarrow> fnum \<Rightarrow> fnum" where
  "double_mul x y = (case (x, y) of (Fin a, Fin b) \<Rightarrow> round_double (a * b) | _ \<Rightarrow> NonFin)"

text \<open>
  The quotient of two finite values, on \<^verbatim>\<open>double\<close> and on \<^verbatim>\<open>float\<close>; a quotient by zero
  is an infinity or a NaN.
\<close>

definition double_div :: "rat \<Rightarrow> rat \<Rightarrow> fnum" where
  "double_div a b = (if b = 0 then NonFin else round_double (a / b))"

definition float_div :: "rat \<Rightarrow> rat \<Rightarrow> fnum" where
  "float_div a b = (if b = 0 then NonFin else round_float (a / b))"

text \<open>The conversion \<^verbatim>\<open>(float)\<close> of a \<^verbatim>\<open>double\<close>.\<close>

definition to_float :: "fnum \<Rightarrow> fnum" where
  "to_float x = (case x of Fin a \<Rightarrow> round_float a | NonFin \<Rightarrow> NonFin)"

text \<open>
  \<^verbatim>\<open>p * k\<close> for a \<^verbatim>\<open>float\<close> \<open>p\<close> and an integer \<open>k\<close>: a product of floats.
\<close>

definition ftimes :: "fnum \<Rightarrow> rat \<Rightarrow> fnum" where
  "ftimes p k = (case p of NonFin \<Rightarrow> NonFin | Fin q \<Rightarrow> round_float (q * k))"

text \<open>
  \<^verbatim>\<open>(float)(1e6 / (d + 1))\<close> for a finite \<^verbatim>\<open>double\<close> \<open>d\<close>, the expression of the two
  priority functions: the sum and the quotient are operations on \<^verbatim>\<open>double\<close>, the
  result is converted to \<^verbatim>\<open>float\<close>.  A sum of finite values that is not finite is an
  infinity, and a finite value divided by an infinity is zero.
\<close>

definition priorityOfDistance :: "rat \<Rightarrow> fnum" where
  "priorityOfDistance d =
     (case double_add (Fin d) (Fin 1) of
        NonFin \<Rightarrow> Fin 0
      | Fin s \<Rightarrow> to_float (double_div 1000000 s))"

section \<open>Renderer: uploading a mesh (vts-librenderer/classes.cpp)\<close>

text \<open>
  The OpenGL state that \<^verbatim>\<open>Mesh::clear\<close> and \<^verbatim>\<open>Mesh::load\<close> touch.  Buffer names are
  natural numbers, \<open>0\<close> being OpenGL's "no buffer"; \<^verbatim>\<open>glGenBuffers\<close> hands out the
  next unused name.  A buffer store holds either the bytes of a vertex buffer or the
  16-bit elements of an index buffer (the upload buffer of \<^verbatim>\<open>Mesh::load\<close> is written
  through a \<^verbatim>\<open>uint16_t*\<close>, so it is kept as a list of 16-bit words rather than as the
  bytes of one particular endianness).  The GL calls themselves are taken to succeed.
\<close>

datatype BufferData = Bytes "8 word list" | Elements16 "16 word list"

record GL =
  lastName :: nat
  boundArrayBuffer :: nat
  boundElementArrayBuffer :: nat
  store :: "nat \<rightharpoonup> BufferData"

definition glGenBuffers :: "GL \<Rightarrow> nat \<times> GL" where
  "glGenBuffers gl = (Suc (lastName gl), gl\<lparr>lastName := Suc (lastName gl)\<rparr>)"

definition glDeleteBuffers :: "nat \<Rightarrow> GL \<Rightarrow> GL" where
  "glDeleteBuffers b gl =
     gl\<lparr>store := (store gl)(b := None),
        boundArrayBuffer := (if boundArrayBuffer gl = b then 0 else boundArrayBuffer gl),
        boundElementArrayBuffer :=
          (if boundElementArrayBuffer gl = b then 0 else boundElementArrayBuffer gl)\<rparr>"

text \<open>
  \<^verbatim>\<open>GpuMeshSpec\<close>: \<open>vertices\<close> is the raw vertex buffer; \<open>indices\<close> is the index buffer
  as \<^verbatim>\<open>Mesh::load\<close> reads it, through \<^verbatim>\<open>(uint32_t*)spec.indices.data()\<close>, that is as
  32-bit words.  A freed buffer is the empty list.
\<close>

record GpuMeshSpec =
  vertices :: "8 word list"
  indices :: "32 word list"
  verticesCount :: "32 word"
  indicesCount :: "32 word"

record ResourceInfo =
  ramMemoryCost :: nat
  gpuMemoryCost :: nat

record Mesh =
  spec :: GpuMeshSpec
  vbo :: nat
  vio :: nat
  debugId :: string

definition Mesh_clear :: "Mesh \<Rightarrow> GL \<Rightarrow> Mesh \<times> GL" where
  "Mesh_clear m gl =
     (let gl1 = (if vbo m \<noteq> 0 then glDeleteBuffers (vbo m) gl else gl);
          gl2 = (if vio m \<noteq> 0 then glDeleteBuffers (vio m) gl1 else gl1)
      in (m\<lparr>vbo := 0, vio := 0\<rparr>, gl2))"

text \<open>
  The copy loop of \<^verbatim>\<open>Mesh::load\<close>,
  \<^verbatim>\<open>for (i = 0; i < indicesCount; i++) uint16_indices[i] = uint32_indices[i];\<close>.
  The assignment converts a \<^verbatim>\<open>uint32_t\<close> to a \<^verbatim>\<open>uint16_t\<close>, which keeps the low 16
  bits (\<open>ucast\<close>).  Reading past the end of the source buffer is undefined behaviour
  in C++ and is \<open>None\<close> here.
\<close>

fun copy_indices :: "nat \<Rightarrow> 32 word list \<Rightarrow> 16 word list option" where
  "copy_indices 0 src = Some []"
| "copy_indices (Suc n) [] = None"
| "copy_indices (Suc n) (i # src) =
     (case copy_indices n src of None \<Rightarrow> None | Some out \<Rightarrow> Some (ucast i # out))"

text \<open>
  \<^verbatim>\<open>Mesh::load(info, specp, debugId)\<close>.  \<open>sizeof_Mesh\<close> is \<^verbatim>\<open>sizeof(*this)\<close>.  The result
  is the mesh, the GL state and the resource info after the call.
\<close>

definition Mesh_load ::
  "nat \<Rightarrow> Mesh \<Rightarrow> GL \<Rightarrow> ResourceInfo \<Rightarrow> GpuMeshSpec \<Rightarrow> string \<Rightarrow> (Mesh \<times> GL \<times> ResourceInfo) option"
where
  "Mesh_load sizeof_Mesh m0 gl0 info specp dbg =
     (let (m1, gl1) = Mesh_clear m0 gl0;
          m2 = m1\<lparr>spec := specp\<rparr>;
          (m3, gl3) =
            (if verticesCount (spec m2) \<noteq> 0
             then (let (name, g) = glGenBuffers gl1;
                       g' = g\<lparr>boundArrayBuffer := name\<rparr>
                   in (m2\<lparr>vbo := name\<rparr>,
                       g'\<lparr>store := (store g')(name \<mapsto> Bytes (vertices (spec m2)))\<rparr>))
             else (m2, gl1));
          r =
            (if indicesCount (spec m3) \<noteq> 0
             then (let (name, g) = glGenBuffers gl3;
                       g' = g\<lparr>boundElementArrayBuffer := name\<rparr>
                   in (case copy_indices (unat (indicesCount (spec m3))) (indices (spec m3)) of
                         None \<Rightarrow> None
                       | Some uint16_indices \<Rightarrow>
                           Some (m3\<lparr>vio := name\<rparr>,
                                 g'\<lparr>store := (store g')(name \<mapsto> Elements16 uint16_indices)\<rparr>)))
             else Some (m3, gl3))
      in (case r of
            None \<Rightarrow> None
          | Some (m4, gl4) \<Rightarrow>
              (let m5 = m4\<lparr>debugId := dbg\<rparr>;
                   info' = info\<lparr>ramMemoryCost := ramMemoryCost info + sizeof_Mesh,
                                gpuMemoryCost := gpuMemoryCost info
                                  + (length (vertices (spec m5)) + 4 * length (indices (spec m5)))\<rparr>;
                   m6 = m5\<lparr>spec := (spec m5)\<lparr>vertices := [], indices := []\<rparr>\<rparr>
               in Some (m6, gl4, info'))))"

section \<open>Bound layers of a tile (vts-browser-lib/mapUtilities.cpp)\<close>

datatype Validity = Indeterminate | Invalid | Valid

text \<open>
  \<^verbatim>\<open>TileId\<close> is \<open>(lod, x, y)\<close> with an 8-bit level and 32-bit unsigned indices.  The
  coordinates are called \<open>xidx\<close> and \<open>yidx\<close> here.
\<close>

record TileId =
  lod :: "8 word"
  xidx :: "32 word"
  yidx :: "32 word"

text \<open>\<^verbatim>\<open>UrlTemplate::Vars(tileId, localId, subMeshIndex)\<close>.\<close>

record Vars =
  tileId :: TileId
  localId :: TileId
  subMeshIndex :: "32 word"

text \<open>
  \<^verbatim>\<open>NodeInfo\<close>, as far as \<^verbatim>\<open>prepare\<close> reads it: \<open>nodeId\<close> is \<^verbatim>\<open>nodeInfo.nodeId()\<close> and
  \<open>local\<close> is the value of \<^verbatim>\<open>local(nodeInfo)\<close>, the tile's identifier relative to its
  reference-frame subtree (a helper whose code is outside these sources).
\<close>

record NodeInfo =
  nodeId :: TileId
  local :: TileId

record LodRange =
  lmin :: "8 word"
  lmax :: "8 word"

record TileRange =
  ll :: "32 word \<times> 32 word"
  ur :: "32 word \<times> 32 word"

text \<open>
  \<^verbatim>\<open>BoundInfo\<close>: a bound layer of the map configuration.  \<open>metaUrl\<close> is the optional
  metatile URL template, \<open>urlMeta\<close> expands it.  \<open>credits\<close> are the identifiers of the
  layer's credits.
\<close>

record BoundInfo =
  lodRange :: LodRange
  tileRange :: TileRange
  metaUrl :: "string option"
  urlMeta :: "Vars \<Rightarrow> string"
  isTransparent :: bool
  credits :: "nat list"

text \<open>
  \<^verbatim>\<open>BoundParamInfo\<close>: one entry of a submesh's bound-layer stack.  \<open>id'\<close> and \<open>alpha\<close>
  are inherited from \<^verbatim>\<open>View::BoundLayerParams\<close>.  The last three fields are the resource
  handles (resource names) that the traversal in vts-libbrowser reads from the entry.
  \<open>alpha\<close> is a \<^verbatim>\<open>double\<close>.
\<close>

record BoundParamInfo =
  id' :: string
  alpha :: "rat option"
  orig :: Vars
  vars :: Vars
  bound :: "BoundInfo option"
  depth :: int
  watertight :: bool
  transparent :: bool
  boundMetaTile :: "string option"
  textureColor :: "string option"
  textureMask :: "string option"

text \<open>\<^verbatim>\<open>mat3f\<close>: a 3x3 matrix of \<^verbatim>\<open>float\<close>, by rows.\<close>

type_synonym mat3f = "(fnum \<times> fnum \<times> fnum) \<times> (fnum \<times> fnum \<times> fnum) \<times> (fnum \<times> fnum \<times> fnum)"

definition identity3 :: mat3f where
  "identity3 = ((Fin 1, Fin 0, Fin 0), (Fin 0, Fin 1, Fin 0), (Fin 0, Fin 0, Fin 1))"

text \<open>
  Shifts of a 32-bit unsigned value by an \<^verbatim>\<open>int\<close> amount.  C++ leaves a shift by a
  negative amount or by 32 or more undefined: \<open>None\<close>.
\<close>

definition shr32 :: "32 word \<Rightarrow> int \<Rightarrow> 32 word option" where
  "shr32 w n = (if 0 \<le> n \<and> n < 32 then Some (drop_bit (nat n) w) else None)"

definition shl32 :: "32 word \<Rightarrow> int \<Rightarrow> 32 word option" where
  "shl32 w n = (if 0 \<le> n \<and> n < 32 then Some (push_bit (nat n) w) else None)"

text \<open>
  \<^verbatim>\<open>1 << dep\<close> on the 32-bit \<^verbatim>\<open>int\<close>: \<open>2^dep\<close> for \<open>0 \<le> dep \<le> 30\<close>; for \<open>dep = 31\<close> the
  value \<open>2^31\<close> is converted to \<^verbatim>\<open>int\<close>, which gives \<open>- 2^31\<close> (two's complement); a
  shift by a negative amount or by 32 or more is undefined.
\<close>

definition one_shl :: "int \<Rightarrow> int option" where
  "one_shl dep = (if 0 \<le> dep \<and> dep \<le> 30 then Some (2 ^ nat dep)
                  else if dep = 31 then Some (- (2 ^ 31))
                  else None)"

text \<open>
  \<^verbatim>\<open>BoundParamInfo::uvMatrix\<close>.  The subtraction
  \<^verbatim>\<open>orig.localId.x - ((orig.localId.x >> dep) << dep)\<close> is 32-bit unsigned arithmetic;
  its result and \<^verbatim>\<open>1 << dep\<close> are converted to \<^verbatim>\<open>double\<close>, which holds every 32-bit
  integer.  \<open>scale\<close>, \<open>tx\<close> and \<open>ty\<close> are computed on \<^verbatim>\<open>double\<close>; the entries of the
  \<^verbatim>\<open>mat3f\<close> are their conversions to \<^verbatim>\<open>float\<close>.
\<close>

definition uvMatrix :: "BoundParamInfo \<Rightarrow> mat3f option" where
  "uvMatrix this =
     (let dep = depth this in
      if dep = 0 then Some identity3
      else do {
        p \<leftarrow> one_shl dep;
        let scale = double_div 1 (of_int p);
        xs \<leftarrow> shr32 (xidx (localId (orig this))) dep;
        xa \<leftarrow> shl32 xs dep;
        let tx = double_mul scale (Fin (of_nat (unat (xidx (localId (orig this)) - xa))));
        ys \<leftarrow> shr32 (yidx (localId (orig this))) dep;
        ya \<leftarrow> shl32 ys dep;
        let ty = double_mul scale (Fin (of_nat (unat (yidx (localId (orig this)) - ya))));
        let ty = double_sub (double_sub (Fin 1) scale) ty;
        Some ((to_float scale, Fin 0, to_float tx),
              (Fin 0, to_float scale, to_float ty),
              (Fin 0, Fin 0, Fin 1))
      })"

text \<open>
  What \<^verbatim>\<open>prepare\<close> asks of the resource cache is kept as a log of operations on named
  resources.
\<close>

datatype ResourceOp =
    GetBoundMetaTile string
  | UpdatePriority string rat

text \<open>
  \<^verbatim>\<open>MapImpl\<close>, as far as \<^verbatim>\<open>prepare\<close> reads it.  \<open>getBoundInfo\<close> is
  \<^verbatim>\<open>mapConfig->getBoundInfo\<close>, \<open>getResourceValidity\<close> the validity of a named resource,
  \<open>boundMetaFlags\<close> the \<^verbatim>\<open>flags\<close> array of a loaded bound metatile.  \<open>flagAvailable\<close> and
  \<open>flagWatertight\<close> are the constants \<^verbatim>\<open>BoundLayer::MetaFlags::available\<close> and
  \<^verbatim>\<open>BoundLayer::MetaFlags::watertight\<close>, whose declaration is outside these sources.
\<close>

record MapImpl =
  getBoundInfo :: "string \<Rightarrow> BoundInfo option"
  getResourceValidity :: "string \<Rightarrow> Validity"
  boundMetaFlags :: "string \<Rightarrow> nat \<Rightarrow> 8 word"
  flagAvailable :: "8 word"
  flagWatertight :: "8 word"

definition shiftVars :: "Vars \<Rightarrow> int \<Rightarrow> Vars option" where
  "shiftVars v d = do {
     tx \<leftarrow> shr32 (xidx (tileId v)) d;
     ty \<leftarrow> shr32 (yidx (tileId v)) d;
     lx \<leftarrow> shr32 (xidx (localId v)) d;
     ly \<leftarrow> shr32 (yidx (localId v)) d;
     Some (v\<lparr>tileId := \<lparr>lod = lod (tileId v) - word_of_int d, xidx = tx, yidx = ty\<rparr>,
             localId := \<lparr>lod = lod (localId v) - word_of_int d, xidx = lx, yidx = ly\<rparr>\<rparr>)
   }"

definition roundVars :: "Vars \<Rightarrow> Vars" where
  "roundVars v =
     v\<lparr>tileId := (tileId v)\<lparr>xidx := xidx (tileId v) AND NOT 255,
                             yidx := yidx (tileId v) AND NOT 255\<rparr>,
       localId := (localId v)\<lparr>xidx := xidx (localId v) AND NOT 255,
                               yidx := yidx (localId v) AND NOT 255\<rparr>\<rparr>"

text \<open>
  \<^verbatim>\<open>BoundParamInfo::prepare(nodeInfo, impl, subMeshIndex, priority)\<close>.  The result is the
  returned validity, the entry after the call and the log of resource operations after
  the call; \<open>None\<close> is an undefined shift.
\<close>

definition prepare ::
  "NodeInfo \<Rightarrow> MapImpl \<Rightarrow> ResourceOp list \<Rightarrow> 32 word \<Rightarrow> rat \<Rightarrow> BoundParamInfo
     \<Rightarrow> (Validity \<times> BoundParamInfo \<times> ResourceOp list) option"
where
  "prepare nodeInfo impl ops subMesh priority this =
     (case getBoundInfo impl (id' this) of
        None \<Rightarrow> Some (Indeterminate, this\<lparr>bound := None\<rparr>, ops)
      | Some bnd \<Rightarrow>
          (let this1 = this\<lparr>bound := Some bnd\<rparr>;
               t = nodeId nodeInfo;
               m = uint (lmin (lodRange bnd))
           in if uint (lod t) < m then Some (Invalid, this1, ops)
              else do {
                tx \<leftarrow> shr32 (xidx t) (uint (lod t) - m);
                ty \<leftarrow> shr32 (yidx t) (uint (lod t) - m);
                if tx < fst (ll (tileRange bnd)) \<or> fst (ur (tileRange bnd)) < tx
                then Some (Invalid, this1, ops)
                else if ty < snd (ll (tileRange bnd)) \<or> snd (ur (tileRange bnd)) < ty
                then Some (Invalid, this1, ops)
                else do {
                  let v0 = \<lparr>tileId = nodeId nodeInfo, localId = local nodeInfo,
                            subMeshIndex = subMesh\<rparr>;
                  let d = max (uint (lod (nodeId nodeInfo)) - uint (lmax (lodRange bnd))) 0;
                  v1 \<leftarrow> (if 0 < d then shiftVars v0 d else Some v0);
                  let this2 = this1\<lparr>orig := v0, vars := v1, depth := d\<rparr>;
                  let tr = (isTransparent bnd \<or> (case alpha this2 of None \<Rightarrow> False | Some a \<Rightarrow> a < 1));
                  (case metaUrl bnd of
                     None \<Rightarrow> Some (Valid, this2\<lparr>transparent := tr\<rparr>, ops)
                   | Some _ \<Rightarrow>
                       (let boundName = urlMeta bnd (roundVars v1);
                            ops1 = ops @ [GetBoundMetaTile boundName, UpdatePriority boundName priority]
                        in case getResourceValidity impl boundName of
                             Indeterminate \<Rightarrow> Some (Indeterminate, this2, ops1)
                           | Invalid \<Rightarrow> Some (Invalid, this2, ops1)
                           | Valid \<Rightarrow>
                               (let f = boundMetaFlags impl boundName
                                          (unat ((yidx (tileId v1) AND 255) * 256
                                                 + (xidx (tileId v1) AND 255)))
                                in if f AND flagAvailable impl \<noteq> flagAvailable impl
                                   then Some (Invalid, this2, ops1)
                                   else Some (Valid,
                                          this2\<lparr>watertight := (f AND flagWatertight impl = flagWatertight impl),
                                                transparent := tr\<rparr>, ops1))))
                }
              }))"

section \<open>The traverse tree (vts-libbrowser/camera/traversal.cpp)\<close>

subsection \<open>Data\<close>

type_synonym vec3 = "rat \<times> rat \<times> rat"

type_synonym mat4 = "rat list"

text \<open>
  What \<^verbatim>\<open>MetaTile::get(id)\<close> returns, a \<^verbatim>\<open>vtslibs::vts::MetaNode\<close>, through the accessors
  the traversal calls.
\<close>

record VtsMetaNode =
  flags :: "32 word"
  childFlags :: "32 word"
  alien :: bool
  geometry :: bool
  sourceReference :: nat
  metaCredits :: "nat list"

text \<open>
  What \<^verbatim>\<open>MetaTile::getNode(id)\<close> returns and \<^verbatim>\<open>trav->meta\<close> holds: the browser's
  \<^verbatim>\<open>MetaNode\<close>.  \<open>metaLocalId\<close> is its \<^verbatim>\<open>localId\<close>, \<open>aabbPhys\<close> its bounding box in the
  physical SRS (lower and upper corner).
\<close>

record MetaNode =
  metaLocalId :: TileId
  aabbPhys :: "vec3 \<times> vec3"

text \<open>\<^verbatim>\<open>SurfaceInfo\<close>: the URL templates of a surface and its alien flag.\<close>

record SurfaceInfo =
  surfaceName :: "string list"
  surfaceUrlMeta :: "Vars \<Rightarrow> string"
  urlMesh :: "Vars \<Rightarrow> string"
  urlIntTex :: "Vars \<Rightarrow> string"
  urlGeodata :: "Vars \<Rightarrow> string"
  surfaceAlien :: bool

record SurfaceStack =
  surfaces :: "SurfaceInfo list"

datatype FreeLayerType = MeshTiles | GeodataTiles | Geodata

text \<open>
  \<^verbatim>\<open>MapLayer\<close>.  \<open>freeLayer\<close> is the type of the layer's free-layer definition when it
  has one, \<open>freeLayerParams\<close> says whether the parameters are set.  \<open>isGeodata\<close> and
  \<open>boundList\<close> are the results of the methods of these names.
\<close>

record MapLayer =
  surfaceStack :: SurfaceStack
  tilesetStack :: "SurfaceStack option"
  freeLayer :: "FreeLayerType option"
  freeLayerParams :: bool
  freeLayerName :: string
  isGeodata :: bool
  boundList :: "SurfaceInfo \<Rightarrow> nat \<Rightarrow> BoundParamInfo list"

text \<open>
  Render tasks.  \<^verbatim>\<open>RenderSurfaceTask\<close>: \<open>taskColor3\<close> is \<^verbatim>\<open>color(3)\<close>, the alpha
  component, a \<^verbatim>\<open>float\<close>.
\<close>

record RenderSurfaceTask =
  taskMesh :: string
  taskTextureColor :: "string option"
  taskTextureMask :: "string option"
  taskColor3 :: fnum
  taskModel :: mat4
  taskUvTrans :: mat3f
  taskExternalUv :: bool
  taskBoundLayerId :: string

record RenderColliderTask =
  colliderMesh :: string
  colliderModel :: mat4

record DrawGeodataTask =
  taskGeodata :: "string \<times> string"

text \<open>\<^verbatim>\<open>MeshPart\<close>: a submesh of a mesh aggregate.  \<open>textureLayer = 0\<close> is "none".\<close>

record MeshPart =
  renderable :: string
  normToPhys :: mat4
  internalUv :: bool
  externalUv :: bool
  textureLayer :: nat
  surfaceReference :: nat

text \<open>
  The fields of a \<^verbatim>\<open>TraverseNode\<close> other than its links.  Resource handles are the names
  of the resources; \<open>surface\<close> is the surface the pointer \<^verbatim>\<open>trav->surface\<close> refers to.
  \<open>transparent'\<close> is the node's list of transparent tasks.
\<close>

record NodeData =
  trav_id :: TileId
  layer :: MapLayer
  metaTiles :: "string option list"
  meta :: "MetaNode option"
  surface :: "SurfaceInfo option"
  determined :: bool
  opaque :: "RenderSurfaceTask list"
  transparent' :: "RenderSurfaceTask list"
  geodata :: "DrawGeodataTask list"
  colliders :: "RenderColliderTask list"
  resources :: "string list"
  nodeCredits :: "nat list"
  priority :: fnum
  lastAccessTime :: nat
  lastRenderTime :: nat

text \<open>
  A node owns its children.  The parent pointer of the source is an argument of the
  functions that read it.
\<close>

datatype TraverseNode = TraverseNode (nd: NodeData) (childs: "TraverseNode list")

definition upd :: "(NodeData \<Rightarrow> NodeData) \<Rightarrow> TraverseNode \<Rightarrow> TraverseNode" where
  "upd f trav = TraverseNode (f (nd trav)) (childs trav)"

text \<open>
  Everything a traversal does to the outside of the tree is kept in the order in which
  it happens: requests to the resource cache (by resource name) and calls of camera
  functions whose code is outside these sources.
\<close>

datatype Event =
    GetMetaTile string
  | GetMeshAggregate string
  | GetTexture string
  | GetGeodata string
  | GetActualGeoStyle string
  | GetActualGeoFeatures string string fnum
  | GeodataUpdate string
  | TouchResource string
  | UpdateResourcePriority string fnum
  | ReorderBoundLayers TileId TileId nat "BoundParamInfo list" fnum
  | TouchDraws TraverseNode
  | GridPreloadRequest TraverseNode
  | RenderNode TraverseNode
  | RenderNodeCoarser TraverseNode

record CameraStatistics =
  currentNodeMetaUpdates :: nat
  currentNodeDrawsUpdates :: nat
  metaNodesTraversedTotal :: nat
  metaNodesTraversedPerLod :: "nat \<Rightarrow> nat"

text \<open>The part of the camera that a traversal changes.\<close>

record CameraState =
  statistics :: CameraStatistics
  events :: "Event list"

definition emit :: "Event list \<Rightarrow> CameraState \<Rightarrow> CameraState" where
  "emit es st = st\<lparr>events := events st @ es\<rparr>"

text \<open>
  The part of the camera and of its map that a traversal only reads.  The functions
  are those that the traversal calls and whose code is outside these sources:
  \<^item> \<open>getValidity\<close>: \<^verbatim>\<open>map->getResourceValidity\<close> of a named resource (taken as fixed
    during a call);
  \<^item> \<open>metaTileGet\<close>, \<open>metaTileGetNode\<close>: \<^verbatim>\<open>MetaTile::get\<close> and \<^verbatim>\<open>MetaTile::getNode\<close> of a
    named metatile;
  \<^item> \<open>roundId\<close>: \<^verbatim>\<open>map->roundId\<close>;
  \<^item> \<open>submeshes\<close>: the \<^verbatim>\<open>submeshes\<close> of a named mesh aggregate;
  \<^item> \<open>textureLayerId\<close>: \<^verbatim>\<open>map->mapconfig->boundLayers.get(n).id\<close>;
  \<^item> \<open>creditsFind\<close>: \<^verbatim>\<open>map->credits->find\<close>;
  \<^item> \<open>actualGeoStyle\<close>, \<open>actualGeoFeatures\<close>: the results of \<^verbatim>\<open>map->getActualGeoStyle\<close>
    and \<^verbatim>\<open>map->getActualGeoFeatures\<close>;
  \<^item> \<open>geodataRenders\<close>: the \<^verbatim>\<open>renders\<close> of a named geodata tile after its update;
  \<^item> \<open>reorder\<close>: the validity and the stack that \<^verbatim>\<open>reorderBoundLayers\<close> leaves;
  \<^item> \<open>uvTrans\<close>: \<^verbatim>\<open>BoundParamInfo::uvTrans\<close>;
  \<^item> \<open>generateMetaNode\<close>: the metanode synthesised for a monolithic geodata layer;
  \<^item> \<open>aabbPointDist\<close>: the distance of a point from an axis-aligned box;
  \<^item> \<open>visibility\<close>, \<open>coarseness\<close>: the frustum test and the coarseness test, which
    read the node's identifier and its metanode;
  \<^item> \<open>ulChild\<close>: the constant \<^verbatim>\<open>MetaNode::Flag::ulChild\<close>;
  \<^item> \<open>maxLods\<close>: \<^verbatim>\<open>CameraStatistics::MaxLods\<close>.
\<close>

record CameraImpl =
  getValidity :: "string \<Rightarrow> Validity"
  metaTileGet :: "string \<Rightarrow> TileId \<Rightarrow> VtsMetaNode"
  metaTileGetNode :: "string \<Rightarrow> TileId \<Rightarrow> MetaNode"
  roundId :: "TileId \<Rightarrow> TileId"
  renderTickIndex :: nat
  submeshes :: "string \<Rightarrow> MeshPart list"
  textureLayerId :: "nat \<Rightarrow> string"
  creditsFind :: "nat \<Rightarrow> nat option"
  actualGeoStyle :: "string \<Rightarrow> Validity \<times> string"
  actualGeoFeatures :: "string \<Rightarrow> string \<Rightarrow> fnum \<Rightarrow> Validity \<times> string"
  geodataRenders :: "string \<Rightarrow> string list"
  reorder :: "TileId \<Rightarrow> TileId \<Rightarrow> nat \<Rightarrow> BoundParamInfo list \<Rightarrow> fnum
                \<Rightarrow> Validity \<times> BoundParamInfo list"
  uvTrans :: "BoundParamInfo \<Rightarrow> mat3f"
  generateMetaNode :: "TileId \<Rightarrow> MetaNode"
  aabbPointDist :: "vec3 \<Rightarrow> vec3 \<Rightarrow> vec3 \<Rightarrow> rat"
  focusPosPhys :: vec3
  visibility :: "TileId \<Rightarrow> MetaNode option \<Rightarrow> bool"
  coarseness :: "TileId \<Rightarrow> MetaNode option \<Rightarrow> bool"
  ulChild :: "32 word"
  maxLods :: nat

subsection \<open>Node priority\<close>

text \<open>An assertion that fails, a null pointer that is dereferenced and an index out of
  range end a call without a result: \<open>None\<close>.\<close>

definition assert' :: "bool \<Rightarrow> unit option" where
  "assert' b = (if b then Some () else None)"

text \<open>\<^verbatim>\<open>CameraImpl::travDistance\<close>: the distance in the physical SRS.\<close>

definition travDistance :: "CameraImpl \<Rightarrow> TraverseNode \<Rightarrow> vec3 \<Rightarrow> rat option" where
  "travDistance cam trav pointPhys = do {
     m \<leftarrow> meta (nd trav);
     Some (aabbPointDist cam pointPhys (fst (aabbPhys m)) (snd (aabbPhys m)))
   }"

text \<open>\<^verbatim>\<open>CameraImpl::updateNodePriority\<close>; \<open>par\<close> is \<^verbatim>\<open>trav->parent\<close>.\<close>

definition updateNodePriority ::
  "CameraImpl \<Rightarrow> TraverseNode option \<Rightarrow> TraverseNode \<Rightarrow> TraverseNode option" where
  "updateNodePriority cam par trav =
     (if meta (nd trav) \<noteq> None
      then do {
        d \<leftarrow> travDistance cam trav (focusPosPhys cam);
        Some (upd (\<lambda>n. n\<lparr>priority := priorityOfDistance d\<rparr>) trav)
      }
      else (case par of
              Some p \<Rightarrow> Some (upd (\<lambda>n. n\<lparr>priority := priority (nd p)\<rparr>) trav)
            | None \<Rightarrow> Some (upd (\<lambda>n. n\<lparr>priority := Fin 0\<rparr>) trav)))"

subsection \<open>Determining the draws of a node\<close>

text \<open>\<^verbatim>\<open>TraverseNode::rendersEmpty\<close>: the node holds no render task.\<close>

definition rendersEmpty :: "TraverseNode \<Rightarrow> bool" where
  "rendersEmpty trav \<longleftrightarrow>
     opaque (nd trav) = [] \<and> transparent' (nd trav) = [] \<and> geodata (nd trav) = []
     \<and> colliders (nd trav) = []"

text \<open>\<^verbatim>\<open>CameraImpl::travInternalTexture\<close>: the texture's name and the state after the
  request.\<close>

definition travInternalTexture ::
  "CameraImpl \<Rightarrow> CameraState \<Rightarrow> TraverseNode \<Rightarrow> nat \<Rightarrow> (string \<times> CameraState) option" where
  "travInternalTexture cam st trav subMesh = do {
     m \<leftarrow> meta (nd trav);
     s \<leftarrow> surface (nd trav);
     let res = urlIntTex s \<lparr>tileId = trav_id (nd trav), localId = metaLocalId m,
                              subMeshIndex = of_nat subMesh\<rparr>;
     Some (res, emit [GetTexture res, TouchResource res,
                      UpdateResourcePriority res (priority (nd trav))] st)
   }"

text \<open>The constructors \<^verbatim>\<open>BoundParamInfo(View::BoundLayerParams(id))\<close> and
  \<^verbatim>\<open>RenderSurfaceTask()\<close>.\<close>

definition zeroVars :: Vars where
  "zeroVars = \<lparr>tileId = \<lparr>lod = 0, xidx = 0, yidx = 0\<rparr>,
               localId = \<lparr>lod = 0, xidx = 0, yidx = 0\<rparr>, subMeshIndex = 0\<rparr>"

definition newBoundParamInfo :: "string \<Rightarrow> BoundParamInfo" where
  "newBoundParamInfo i =
     \<lparr>id' = i, alpha = None, orig = zeroVars, vars = zeroVars, bound = None, depth = 0,
      watertight = True, transparent = False, boundMetaTile = None, textureColor = None,
      textureMask = None\<rparr>"

text \<open>The locals of the submesh loop of \<^verbatim>\<open>travDetermineDrawsSurface\<close> that outlive an
  iteration.\<close>

record SurfaceDraws =
  allDetermined :: bool
  newOpaque :: "RenderSurfaceTask list"
  newTransparent :: "RenderSurfaceTask list"
  newCredits :: "nat list"

text \<open>The draw task of a bound layer \<open>b\<close> on a submesh.\<close>

definition boundLayerTask :: "CameraImpl \<Rightarrow> MeshPart \<Rightarrow> BoundParamInfo \<Rightarrow> RenderSurfaceTask" where
  "boundLayerTask cam part b =
     \<lparr>taskMesh = renderable part,
      taskTextureColor = textureColor b,
      taskTextureMask = textureMask b,
      taskColor3 = (case alpha b of Some a \<Rightarrow> round_float a | None \<Rightarrow> Fin 1),
      taskModel = normToPhys part,
      taskUvTrans = uvTrans cam b,
      taskExternalUv = True,
      taskBoundLayerId = id' b\<rparr>"

text \<open>
  The loop over the resolved stack (\<^verbatim>\<open>for (const BoundParamInfo &b : bls)\<close>, the second
  one).  Its state is \<open>(anyOpaqueLayer, allTransparent, draws)\<close>.
\<close>

fun boundLayerTasks ::
  "CameraImpl \<Rightarrow> MeshPart \<Rightarrow> BoundParamInfo list \<Rightarrow> bool \<times> bool \<times> SurfaceDraws
     \<Rightarrow> (bool \<times> bool \<times> SurfaceDraws) option"
where
  "boundLayerTasks cam part [] s = Some s"
| "boundLayerTasks cam part (b # bls) (anyOpaqueLayer, allTransparent, acc) =
     (case bound b of
        None \<Rightarrow> None
      | Some l \<Rightarrow>
          (let acc1 = acc\<lparr>newCredits := newCredits acc @ List.map_filter (creditsFind cam) (credits l)\<rparr>;
               task = boundLayerTask cam part b;
               masked = (\<not> transparent b \<and> textureMask b \<noteq> None);
               renderTransparent = (if masked \<and> anyOpaqueLayer then True else transparent b);
               anyOpaqueLayer1 = (if masked \<and> \<not> anyOpaqueLayer then True else anyOpaqueLayer);
               acc2 = (if renderTransparent
                       then acc1\<lparr>newTransparent := newTransparent acc1 @ [task]\<rparr>
                       else acc1\<lparr>newOpaque := newOpaque acc1 @ [task]\<rparr>)
           in boundLayerTasks cam part bls
                (anyOpaqueLayer1, allTransparent \<and> transparent b, acc2)))"

text \<open>
  Two kinds of layers of a resolved stack that are not transparent: the one that
  carries a texture mask, and the one without a mask (an opaque layer).
\<close>

definition maskedOpaque :: "BoundParamInfo \<Rightarrow> bool" where
  "maskedOpaque b \<longleftrightarrow> \<not> transparent b \<and> textureMask b \<noteq> None"

definition plainOpaque :: "BoundParamInfo \<Rightarrow> bool" where
  "plainOpaque b \<longleftrightarrow> \<not> transparent b \<and> textureMask b = None"

text \<open>The credits that the loop collects from a resolved stack.\<close>

definition stackCredits :: "CameraImpl \<Rightarrow> BoundParamInfo list \<Rightarrow> nat list" where
  "stackCredits cam bls =
     concat (map (\<lambda>b. case bound b of None \<Rightarrow> []
                       | Some l \<Rightarrow> List.map_filter (creditsFind cam) (credits l)) bls)"

text \<open>The first loop over the stack: is there an opaque layer without a mask?\<close>

definition anyOpaqueLayer0 :: "BoundParamInfo list \<Rightarrow> bool" where
  "anyOpaqueLayer0 bls \<longleftrightarrow> (\<exists>b \<in> set bls. \<not> transparent b \<and> textureMask b = None)"

text \<open>The resources of a resolved stack, in the order in which they are pinned.\<close>

definition stackResources :: "BoundParamInfo list \<Rightarrow> string list" where
  "stackResources bls =
     concat (map (\<lambda>it. (case boundMetaTile it of Some r \<Rightarrow> [r] | None \<Rightarrow> [])
                      @ (case textureColor it of Some r \<Rightarrow> [r] | None \<Rightarrow> [])
                      @ (case textureMask it of Some r \<Rightarrow> [r] | None \<Rightarrow> [])) bls)"

text \<open>
  The internal-texture block of one iteration of the submesh loop.
\<close>

definition internalTextureStep ::
  "CameraImpl \<Rightarrow> nat \<Rightarrow> MeshPart \<Rightarrow> SurfaceDraws \<times> CameraState \<times> TraverseNode
     \<Rightarrow> (SurfaceDraws \<times> CameraState \<times> TraverseNode) option"
where
  "internalTextureStep cam subMesh part s =
     (case s of (acc, st, trav) \<Rightarrow>
        if internalUv part
        then do {
          (tex, st1) \<leftarrow> travInternalTexture cam st trav subMesh;
          let trav1 = upd (\<lambda>n. n\<lparr>resources := resources n @ [tex]\<rparr>) trav;
          (case getValidity cam tex of
             Indeterminate \<Rightarrow> Some (acc\<lparr>allDetermined := False\<rparr>, st1, trav1)
           | Invalid \<Rightarrow> Some (acc, st1, trav1)
           | Valid \<Rightarrow>
               Some (acc\<lparr>newOpaque :=
                       \<lparr>taskMesh = renderable part, taskTextureColor = Some tex,
                        taskTextureMask = None, taskColor3 = Fin 1, taskModel = normToPhys part,
                        taskUvTrans = identity3, taskExternalUv = False,
                        taskBoundLayerId = []\<rparr> # newOpaque acc\<rparr>, st1, trav1))
        }
        else Some (acc, st, trav))"

text \<open>One iteration of the submesh loop, for the submesh \<open>part\<close> of index \<open>subMesh\<close>.\<close>

definition submeshStep ::
  "CameraImpl \<Rightarrow> nat \<Rightarrow> MeshPart \<Rightarrow> SurfaceDraws \<times> CameraState \<times> TraverseNode
     \<Rightarrow> (SurfaceDraws \<times> CameraState \<times> TraverseNode) option"
where
  "submeshStep cam subMesh part s =
     (case s of (acc, st, trav) \<Rightarrow>
        if externalUv part
        then do {
          sf \<leftarrow> surface (nd trav);
          m \<leftarrow> meta (nd trav);
          let bls0 = boundList (layer (nd trav)) sf (surfaceReference part);
          let bls1 = (if textureLayer part \<noteq> 0
                      then bls0 @ [newBoundParamInfo (textureLayerId cam (textureLayer part))]
                      else bls0);
          let (validity, bls) =
                reorder cam (trav_id (nd trav)) (metaLocalId m) subMesh bls1 (priority (nd trav));
          let st1 = emit [ReorderBoundLayers (trav_id (nd trav)) (metaLocalId m) subMesh bls1
                            (priority (nd trav))] st;
          let trav1 = upd (\<lambda>n. n\<lparr>resources := resources n @ stackResources bls\<rparr>) trav;
          (case validity of
             Indeterminate \<Rightarrow> Some (acc\<lparr>allDetermined := False\<rparr>, st1, trav1)
           | Invalid \<Rightarrow> Some (acc, st1, trav1)
           | Valid \<Rightarrow> do {
               (anyOpaqueLayer, allTransparent, acc1) \<leftarrow>
                 boundLayerTasks cam part bls (anyOpaqueLayer0 bls, True, acc);
               if \<not> allTransparent then Some (acc1, st1, trav1)
               else internalTextureStep cam subMesh part (acc1, st1, trav1)
             })
        }
        else internalTextureStep cam subMesh part (acc, st, trav))"

fun submeshLoop ::
  "CameraImpl \<Rightarrow> nat \<Rightarrow> MeshPart list \<Rightarrow> SurfaceDraws \<times> CameraState \<times> TraverseNode
     \<Rightarrow> (SurfaceDraws \<times> CameraState \<times> TraverseNode) option"
where
  "submeshLoop cam subMesh [] s = Some s"
| "submeshLoop cam subMesh (part # parts) s =
     (case submeshStep cam subMesh part s of
        None \<Rightarrow> None
      | Some s1 \<Rightarrow> submeshLoop cam (Suc subMesh) parts s1)"

text \<open>\<^verbatim>\<open>CameraImpl::travDetermineDrawsSurface\<close>: the returned flag, the camera state and
  the node after the call.\<close>

definition travDetermineDrawsSurface ::
  "CameraImpl \<Rightarrow> CameraState \<Rightarrow> TraverseNode \<Rightarrow> (bool \<times> CameraState \<times> TraverseNode) option"
where
  "travDetermineDrawsSurface cam st trav = do {
     _ \<leftarrow> assert' (\<not> determined (nd trav));
     _ \<leftarrow> assert' (rendersEmpty trav);
     let st1 = emit (map TouchResource (resources (nd trav))) st;
     if \<exists>it \<in> set (resources (nd trav)). getValidity cam it = Indeterminate
     then Some (False, st1, trav)
     else do {
       sf \<leftarrow> surface (nd trav);
       m \<leftarrow> meta (nd trav);
       let name = urlMesh sf \<lparr>tileId = trav_id (nd trav), localId = metaLocalId m,
                               subMeshIndex = 0\<rparr>;
       let trav1 = upd (\<lambda>n. n\<lparr>resources := [name]\<rparr>) trav;
       let st2 = emit [GetMeshAggregate name,
                       UpdateResourcePriority name (priority (nd trav))] st1;
       (case getValidity cam name of
          Invalid \<Rightarrow> Some (False, st2, upd (\<lambda>n. n\<lparr>surface := None, resources := []\<rparr>) trav1)
        | Indeterminate \<Rightarrow> Some (False, st2, trav1)
        | Valid \<Rightarrow> do {
            (acc, st3, trav3) \<leftarrow>
              submeshLoop cam 0 (submeshes cam name)
                (\<lparr>allDetermined = True, newOpaque = [], newTransparent = [], newCredits = []\<rparr>,
                 st2, trav1);
            if allDetermined acc
            then Some (True, st3,
                   upd (\<lambda>n. n\<lparr>opaque := newOpaque acc,
                              transparent' := newTransparent acc,
                              colliders := colliders n
                                @ map (\<lambda>part. \<lparr>colliderMesh = renderable part,
                                               colliderModel = normToPhys part\<rparr>)
                                    (submeshes cam name),
                              nodeCredits := nodeCredits n @ newCredits acc\<rparr>) trav3)
            else Some (False, st3, trav3)
          })
     }
   }"

text \<open>\<^verbatim>\<open>CameraImpl::travDetermineDrawsGeodata\<close>.\<close>

definition travDetermineDrawsGeodata ::
  "CameraImpl \<Rightarrow> CameraState \<Rightarrow> TraverseNode \<Rightarrow> (bool \<times> CameraState \<times> TraverseNode) option"
where
  "travDetermineDrawsGeodata cam st trav = do {
     _ \<leftarrow> assert' (\<not> determined (nd trav));
     _ \<leftarrow> assert' (rendersEmpty trav);
     _ \<leftarrow> assert' (resources (nd trav) = []);
     sf \<leftarrow> surface (nd trav);
     m \<leftarrow> meta (nd trav);
     let geoName = urlGeodata sf \<lparr>tileId = trav_id (nd trav), localId = metaLocalId m,
                                   subMeshIndex = 0\<rparr>;
     let style = actualGeoStyle cam (freeLayerName (layer (nd trav)));
     let features = actualGeoFeatures cam (freeLayerName (layer (nd trav))) geoName
                      (priority (nd trav));
     let st1 = emit [GetActualGeoStyle (freeLayerName (layer (nd trav))),
                     GetActualGeoFeatures (freeLayerName (layer (nd trav))) geoName
                       (priority (nd trav))] st;
     if fst style = Invalid \<or> fst features = Invalid
     then Some (False, st1, upd (\<lambda>n. n\<lparr>surface := None\<rparr>) trav)
     else if fst style = Indeterminate \<or> fst features = Indeterminate
     then Some (False, st1, trav)
     else do {
       let geo = geoName @ ''#tile'';
       let st2 = emit [GetGeodata geo, UpdateResourcePriority geo (priority (nd trav)),
                       GeodataUpdate geo] st1;
       (case getValidity cam geo of
          Invalid \<Rightarrow> Some (False, st2, upd (\<lambda>n. n\<lparr>surface := None\<rparr>) trav)
        | Indeterminate \<Rightarrow> Some (False, st2, trav)
        | Valid \<Rightarrow>
            Some (True, st2,
              upd (\<lambda>n. n\<lparr>geodata := geodata n
                           @ map (\<lambda>r. \<lparr>taskGeodata = (geo, r)\<rparr>) (geodataRenders cam geo)\<rparr>)
                trav))
     }
   }"

text \<open>\<^verbatim>\<open>CameraImpl::travDetermineDraws\<close>; \<open>par\<close> is \<^verbatim>\<open>trav->parent\<close>.\<close>

definition travDetermineDraws ::
  "CameraImpl \<Rightarrow> CameraState \<Rightarrow> TraverseNode option \<Rightarrow> TraverseNode
     \<Rightarrow> (bool \<times> CameraState \<times> TraverseNode) option"
where
  "travDetermineDraws cam st par trav = do {
     _ \<leftarrow> assert' (meta (nd trav) \<noteq> None);
     let st1 = emit [TouchDraws trav] st;
     if surface (nd trav) = None \<or> determined (nd trav)
     then Some (determined (nd trav), st1, trav)
     else do {
       _ \<leftarrow> assert' (rendersEmpty trav);
       let st2 = st1\<lparr>statistics := (statistics st1)
                   \<lparr>currentNodeDrawsUpdates := Suc (currentNodeDrawsUpdates (statistics st1))\<rparr>\<rparr>;
       trav1 \<leftarrow> updateNodePriority cam par trav;
       (r, st3, trav3) \<leftarrow>
          (if isGeodata (layer (nd trav1))
           then travDetermineDrawsGeodata cam st2 trav1
           else travDetermineDrawsSurface cam st2 trav1);
       Some (r, st3, upd (\<lambda>n. n\<lparr>determined := r\<rparr>) trav3)
     }
   }"

subsection \<open>Determining the metanode of a node\<close>

text \<open>
  Modelled from the spec: \<^verbatim>\<open>vtslibs::vts::parent\<close> and \<^verbatim>\<open>vtslibs::vts::children\<close>, whose code
  is outside these sources.  The spec has \<open>parent(t) = (lod-1, x>>1, y>>1)\<close>, and the
  children of \<open>(lod, x, y)\<close> are \<open>(lod+1, 2x+{0,1}, 2y+{0,1})\<close>, the child of index
  \<open>i\<close> being the one with \<open>i = (x&1) | ((y&1)<<1)\<close>.
\<close>

definition parent_tile :: "TileId \<Rightarrow> TileId" where
  "parent_tile t = \<lparr>lod = lod t - 1, xidx = drop_bit 1 (xidx t), yidx = drop_bit 1 (yidx t)\<rparr>"

definition children_tiles :: "TileId \<Rightarrow> TileId list" where
  "children_tiles t =
     [\<lparr>lod = lod t + 1, xidx = 2 * xidx t, yidx = 2 * yidx t\<rparr>,
      \<lparr>lod = lod t + 1, xidx = 2 * xidx t + 1, yidx = 2 * yidx t\<rparr>,
      \<lparr>lod = lod t + 1, xidx = 2 * xidx t, yidx = 2 * yidx t + 1\<rparr>,
      \<lparr>lod = lod t + 1, xidx = 2 * xidx t + 1, yidx = 2 * yidx t + 1\<rparr>]"

text \<open>
  Modelled from the spec: the constructor \<^verbatim>\<open>TraverseNode(layer, parent, id)\<close> of
  vts-libbrowser, whose code is outside these sources.  A new node has no metatile
  handles, no metanode, no surface, no children and no draws, and is not determined;
  its priority is not a number until the first update (as in the constructor of
  vts-browser-lib).
\<close>

definition newTraverseNode :: "MapLayer \<Rightarrow> TileId \<Rightarrow> TraverseNode" where
  "newTraverseNode lay t =
     TraverseNode
       \<lparr>trav_id = t, layer = lay, metaTiles = [], meta = None, surface = None,
        determined = False, opaque = [], transparent' = [], geodata = [], colliders = [],
        resources = [], nodeCredits = [], priority = NonFin, lastAccessTime = 0,
        lastRenderTime = 0\<rparr> []"

text \<open>\<^verbatim>\<open>CameraImpl::generateMonolithicGeodataTrav\<close>.\<close>

definition generateMonolithicGeodataTrav ::
  "CameraImpl \<Rightarrow> CameraState \<Rightarrow> TraverseNode option \<Rightarrow> TraverseNode
     \<Rightarrow> (bool \<times> CameraState \<times> TraverseNode) option"
where
  "generateMonolithicGeodataTrav cam st par trav = do {
     _ \<leftarrow> assert' (freeLayer (layer (nd trav)) \<noteq> None);
     _ \<leftarrow> assert' (freeLayerParams (layer (nd trav)));
     sf \<leftarrow> (case surfaces (surfaceStack (layer (nd trav))) of [] \<Rightarrow> None | s # _ \<Rightarrow> Some s);
     trav1 \<leftarrow> updateNodePriority cam par
                (upd (\<lambda>n. n\<lparr>meta := Some (generateMetaNode cam (trav_id n)),
                             surface := Some sf\<rparr>) trav);
     Some (True, st, trav1)
   }"

text \<open>
  The index of a tile among the children of its parent,
  \<^verbatim>\<open>(nodeId.x % 2) + (nodeId.y % 2) * 2\<close>.
\<close>

definition childIndex :: "TileId \<Rightarrow> nat" where
  "childIndex t = unat ((xidx t mod 2) + (yidx t mod 2) * 2)"

text \<open>
  The test of one iteration of the loop that retrieves the metatile handles: does the
  node ask for the metatile of the surface of index \<open>i\<close>?  A root node asks for each
  one.  Another node reads the parent's metatile of that surface: without it the slot
  is skipped, with it the parent tile's metanode in that metatile must have the
  availability bit of this child.
\<close>

definition metaTileWanted ::
  "CameraImpl \<Rightarrow> TraverseNode option \<Rightarrow> TileId \<Rightarrow> nat \<Rightarrow> bool option" where
  "metaTileWanted cam par nid i =
     (case par of
        None \<Rightarrow> Some True
      | Some p \<Rightarrow>
          if i < length (metaTiles (nd p))
          then (case metaTiles (nd p) ! i of
                  None \<Rightarrow> Some False
                | Some h \<Rightarrow>
                    Some (flags (metaTileGet cam h (parent_tile nid))
                            AND push_bit (childIndex nid) (ulChild cam) \<noteq> 0))
          else None)"

text \<open>
  The loop \<^verbatim>\<open>for (i = 0; i != e; i++)\<close> over the surfaces of the stack, from index \<open>i\<close>
  on: the metatile handles of the node and the requests issued.
\<close>

fun metaTilesLoop ::
  "CameraImpl \<Rightarrow> TraverseNode option \<Rightarrow> TileId \<Rightarrow> Vars \<Rightarrow> nat \<Rightarrow> SurfaceInfo list
     \<Rightarrow> (string option list \<times> Event list) option"
where
  "metaTilesLoop cam par nid tileIdVars i [] = Some ([], [])"
| "metaTilesLoop cam par nid tileIdVars i (s # ss) = do {
     w \<leftarrow> metaTileWanted cam par nid i;
     (ms, es) \<leftarrow> metaTilesLoop cam par nid tileIdVars (Suc i) ss;
     Some (if w
           then (Some (surfaceUrlMeta s tileIdVars) # ms,
                 GetMetaTile (surfaceUrlMeta s tileIdVars) # es)
           else (None # ms, es))
   }"

text \<open>
  The loop that finds the topmost nonempty surface, from index \<open>i\<close> on.  Its state is
  \<open>(topmost, chosen, childsAvailable)\<close>.
\<close>

fun findTopmost ::
  "CameraImpl \<Rightarrow> MapLayer \<Rightarrow> TileId \<Rightarrow> nat \<Rightarrow> string option list
     \<Rightarrow> SurfaceInfo option \<times> string option \<times> (nat \<Rightarrow> bool)
     \<Rightarrow> (SurfaceInfo option \<times> string option \<times> (nat \<Rightarrow> bool)) option"
where
  "findTopmost cam lay nid i [] s = Some s"
| "findTopmost cam lay nid i (None # ms) s = findTopmost cam lay nid (Suc i) ms s"
| "findTopmost cam lay nid i (Some m # ms) (topmost, chosen, childsAvailable) =
     (let n = metaTileGet cam m nid;
          avail = (\<lambda>j. childsAvailable j \<or> childFlags n AND push_bit j (ulChild cam) \<noteq> 0)
      in if topmost \<noteq> None
         then findTopmost cam lay nid (Suc i) ms (topmost, chosen, avail)
         else if length (surfaces (surfaceStack lay)) \<le> i then None
         else if alien n \<noteq> surfaceAlien (surfaces (surfaceStack lay) ! i)
         then findTopmost cam lay nid (Suc i) ms (topmost, chosen, avail)
         else do {
           (topmost1, chosen1) \<leftarrow>
             (if geometry n
              then (case tilesetStack lay of
                      Some ts \<Rightarrow> do {
                        _ \<leftarrow> assert' (0 < sourceReference n
                                       \<and> sourceReference n \<le> length (surfaces ts));
                        if sourceReference n < length (surfaces ts)
                        then Some (Some (surfaces ts ! sourceReference n), Some m)
                        else None
                      }
                    | None \<Rightarrow> Some (Some (surfaces (surfaceStack lay) ! i), Some m))
              else Some (topmost, chosen));
           findTopmost cam lay nid (Suc i) ms
             (topmost1, (if chosen1 = None then Some m else chosen1), avail)
         })"

text \<open>The non-null handles of a list of metatile slots.\<close>

definition handles :: "string option list \<Rightarrow> string list" where
  "handles ms = List.map_filter (\<lambda>m. m) ms"

text \<open>\<^verbatim>\<open>CameraImpl::travDetermineMeta\<close>; \<open>par\<close> is \<^verbatim>\<open>trav->parent\<close>.  \<^verbatim>\<open>Vars(id)\<close> has a zero
  local identifier and submesh index.\<close>

definition travDetermineMeta ::
  "CameraImpl \<Rightarrow> CameraState \<Rightarrow> TraverseNode option \<Rightarrow> TraverseNode \<Rightarrow> bool
     \<Rightarrow> (bool \<times> CameraState \<times> TraverseNode) option"
where
  "travDetermineMeta cam st par trav initAllChild = do {
     _ \<leftarrow> assert' (meta (nd trav) = None);
     _ \<leftarrow> assert' (childs trav = []);
     _ \<leftarrow> assert' (\<not> determined (nd trav));
     _ \<leftarrow> assert' (rendersEmpty trav);
     _ \<leftarrow> assert' (case par of None \<Rightarrow> True | Some p \<Rightarrow> meta (nd p) \<noteq> None);
     let st1 = st\<lparr>statistics := (statistics st)
                  \<lparr>currentNodeMetaUpdates := Suc (currentNodeMetaUpdates (statistics st))\<rparr>\<rparr>;
     if freeLayer (layer (nd trav)) = Some Geodata
     then generateMonolithicGeodataTrav cam st1 par trav
     else do {
       let nid = trav_id (nd trav);
       (mts, es) \<leftarrow>
         (if metaTiles (nd trav) = []
          then metaTilesLoop cam par nid (zeroVars\<lparr>tileId := roundId cam nid\<rparr>) 0
                 (surfaces (surfaceStack (layer (nd trav))))
          else Some (metaTiles (nd trav), []));
       let trav1 = upd (\<lambda>n. n\<lparr>metaTiles := mts\<rparr>) trav;
       let st2 = emit (es @ map (\<lambda>m. UpdateResourcePriority m (ftimes (priority (nd trav)) 2))
                             (handles mts)) st1;
       if \<exists>m \<in> set (handles mts). getValidity cam m = Indeterminate
       then Some (False, st2, trav1)
       else do {
         (topmost, chosen, childsAvailable) \<leftarrow>
           findTopmost cam (layer (nd trav)) nid 0 mts (None, None, \<lambda>j. False);
         (case chosen of
            None \<Rightarrow> Some (False, st2, trav1)
          | Some ch \<Rightarrow> do {
              let trav2 =
                (case topmost of
                   Some t \<Rightarrow>
                     upd (\<lambda>n. n\<lparr>surface := Some t,
                                nodeCredits := nodeCredits n
                                  @ metaCredits (metaTileGet cam ch nid)\<rparr>) trav1
                 | None \<Rightarrow> trav1);
              let trav3 = upd (\<lambda>n. n\<lparr>meta := Some (metaTileGetNode cam ch nid)\<rparr>) trav2;
              let trav4 =
                (if initAllChild \<or> childsAvailable 0 \<or> childsAvailable 1
                    \<or> childsAvailable 2 \<or> childsAvailable 3
                 then TraverseNode (nd trav3)
                        (map (\<lambda>i. newTraverseNode (layer (nd trav3)) (children_tiles nid ! i))
                           (filter (\<lambda>i. initAllChild \<or> childsAvailable i) [0..<4]))
                 else trav3);
              trav5 \<leftarrow> updateNodePriority cam par trav4;
              Some (True, st2, trav5)
            })
       }
     }
   }"

text \<open>\<^verbatim>\<open>CameraImpl::travInit\<close>.\<close>

definition travInit ::
  "CameraImpl \<Rightarrow> CameraState \<Rightarrow> TraverseNode option \<Rightarrow> TraverseNode \<Rightarrow> bool
     \<Rightarrow> (bool \<times> CameraState \<times> TraverseNode) option"
where
  "travInit cam st par trav initAllChildren = do {
     let k = min (unat (lod (trav_id (nd trav)))) (maxLods cam - 1);
     let st1 = st\<lparr>statistics := (statistics st)
                  \<lparr>metaNodesTraversedTotal := Suc (metaNodesTraversedTotal (statistics st)),
                   metaNodesTraversedPerLod := (metaNodesTraversedPerLod (statistics st))
                     (k := Suc (metaNodesTraversedPerLod (statistics st) k))\<rparr>\<rparr>;
     trav1 \<leftarrow> updateNodePriority cam par
                (upd (\<lambda>n. n\<lparr>lastAccessTime := renderTickIndex cam\<rparr>) trav);
     if meta (nd trav1) = None
     then travDetermineMeta cam
            (emit (map TouchResource (handles (metaTiles (nd trav1)))) st1) par trav1
            initAllChildren
     else Some (True, st1, trav1)
   }"

subsection \<open>The tileset mapping (vts-browser-lib/mapUtilities.cpp)\<close>

text \<open>
  \<^verbatim>\<open>MapConfig::SurfaceStackItem\<close>: \<open>itemSurface\<close> is the item's shared pointer to a surface,
  null in a default-constructed item.  \<open>findSurface\<close> and \<open>findGlue\<close> give the
  \<^verbatim>\<open>SurfaceInfo\<close> built from the configuration that \<^verbatim>\<open>mapConfig->findSurface\<close> and
  \<^verbatim>\<open>mapConfig->findGlue\<close> find (\<open>None\<close>: a null pointer).
\<close>

record SurfaceStackItem =
  itemSurface :: "SurfaceInfo option"

record MapConfig =
  findSurface :: "string \<Rightarrow> SurfaceInfo option"
  findGlue :: "string list \<Rightarrow> SurfaceInfo option"

definition vsIdAt :: "string list \<Rightarrow> nat \<Rightarrow> string option" where
  "vsIdAt vsId k = (if k < length vsId then Some (vsId ! k) else None)"

fun those' :: "'a option list \<Rightarrow> 'a list option" where
  "those' [] = Some []"
| "those' (x # xs) = (case x of None \<Rightarrow> None
                       | Some y \<Rightarrow> (case those' xs of None \<Rightarrow> None | Some ys \<Rightarrow> Some (y # ys)))"

text \<open>The stack item of one row \<open>it\<close> of the tileset mapping: a surface when the row
  has one element, a glue otherwise.\<close>

definition tilesetItem :: "MapConfig \<Rightarrow> string list \<Rightarrow> nat list \<Rightarrow> SurfaceStackItem option" where
  "tilesetItem cfg vsId it =
     (if length it = 1
      then do {
        n \<leftarrow> vsIdAt vsId (it ! 0);
        s \<leftarrow> findSurface cfg n;
        Some \<lparr>itemSurface = Some (s\<lparr>surfaceName := surfaceName s @ [n]\<rparr>)\<rparr>
      }
      else do {
        ids \<leftarrow> those' (map (vsIdAt vsId) it);
        s \<leftarrow> findGlue cfg ids;
        Some \<lparr>itemSurface = Some (s\<lparr>surfaceName := ids\<rparr>)\<rparr>
      })"

text \<open>
  \<^verbatim>\<open>TilesetMapping::update(vsId)\<close>: the surface stack built from the rows \<open>dataRaw\<close>.  The
  first item is a default-constructed one ("the sourceReference in metanodes is
  one-based").  \<^verbatim>\<open>colorizeSurfaceStack\<close> does not touch the surfaces.
\<close>

definition TilesetMapping_update ::
  "MapConfig \<Rightarrow> string list \<Rightarrow> nat list list \<Rightarrow> SurfaceStackItem list option" where
  "TilesetMapping_update cfg vsId dataRaw = do {
     items \<leftarrow> those' (map (tilesetItem cfg vsId) dataRaw);
     Some (\<lparr>itemSurface = None\<rparr> # items)
   }"

section \<open>Resource priority of a node (vts-browser-lib/mapUtilities.cpp)\<close>

datatype TraverseMode =
  ModeNone | Flat | Stable | Balanced | Hierarchical | Fixed | DistanceBaseFixed

text \<open>
  The \<^verbatim>\<open>TraverseNode\<close> of vts-browser-lib, as far as \<^verbatim>\<open>MapImpl::travDistance\<close> and
  \<^verbatim>\<open>MapImpl::computeResourcePriority\<close> read it.  \<open>libNodeId\<close>, \<open>nodeSrs\<close> and
  \<open>nodeExtents\<close> are \<^verbatim>\<open>nodeInfo.nodeId()\<close>, \<^verbatim>\<open>nodeInfo.srs()\<close> and the corners \<open>ll\<close>, \<open>ur\<close>
  of \<^verbatim>\<open>nodeInfo.extents()\<close>.  In the metanode, \<open>geomExtentsZ\<close> is the range
  \<open>(z.min, z.max)\<close> of the geometric extents, \<open>None\<close> when the extents are empty.
\<close>

record MetaInfo =
  geomExtentsZ :: "(rat \<times> rat) option"
  metaAabbPhys :: "vec3 \<times> vec3"

record LibTraverseNode =
  libNodeId :: TileId
  nodeSrs :: string
  nodeExtents :: "(rat \<times> rat) \<times> (rat \<times> rat)"
  libMeta :: "MetaInfo option"

text \<open>
  The further members of \<^verbatim>\<open>MapImpl\<close> that the two functions read: the options
  \<open>traverseMode\<close> and \<open>debugDisableMeta5\<close>, the physical SRS of the reference frame,
  the focus position of the renderer, and the functions \<^verbatim>\<open>convertor->convert\<close> and
  \<^verbatim>\<open>aabbPointDist\<close>, whose code is outside these sources.
\<close>

record MapImplNav = MapImpl +
  traverseMode :: TraverseMode
  debugDisableMeta5 :: bool
  physicalSrs :: string
  convert :: "vec3 \<Rightarrow> string \<Rightarrow> string \<Rightarrow> vec3"
  rendererFocusPosPhys :: vec3
  mapAabbPointDist :: "vec3 \<Rightarrow> vec3 \<Rightarrow> vec3 \<Rightarrow> rat"

definition vec2to3 :: "rat \<times> rat \<Rightarrow> rat \<Rightarrow> vec3" where
  "vec2to3 v z = (fst v, snd v, z)"

text \<open>\<^verbatim>\<open>MapImpl::travDistance\<close>; \<open>None\<close> is a node without a metanode.\<close>

definition MapImpl_travDistance :: "MapImplNav \<Rightarrow> LibTraverseNode \<Rightarrow> vec3 \<Rightarrow> rat option" where
  "MapImpl_travDistance impl trav pointPhys = do {
     m \<leftarrow> libMeta trav;
     if geomExtentsZ m \<noteq> None \<and> nodeSrs trav \<noteq> [] \<and> \<not> debugDisableMeta5 impl
     then do {
       z \<leftarrow> geomExtentsZ m;
       let el = vec2to3 (fst (nodeExtents trav)) (fst z);
       let eu = vec2to3 (snd (nodeExtents trav)) (snd z);
       let p = convert impl pointPhys (physicalSrs impl) (nodeSrs trav);
       Some (mapAabbPointDist impl p el eu)
     }
     else Some (mapAabbPointDist impl pointPhys (fst (metaAabbPhys m)) (snd (metaAabbPhys m)))
   }"

text \<open>
  \<^verbatim>\<open>MapImpl::computeResourcePriority\<close>.  \<^verbatim>\<open>100.f / lod\<close> is a quotient of floats, the
  level being converted to \<^verbatim>\<open>float\<close>.
\<close>

definition computeResourcePriority :: "MapImplNav \<Rightarrow> LibTraverseNode \<Rightarrow> fnum option" where
  "computeResourcePriority impl trav =
     (if traverseMode impl = Hierarchical
      then Some (float_div 100 (of_nat (unat (lod (libNodeId trav)))))
      else do {
        d \<leftarrow> MapImpl_travDistance impl trav (rendererFocusPosPhys impl);
        Some (priorityOfDistance d)
      })"

section \<open>Traversal strategies (vts-libbrowser/camera/traversal.cpp)\<close>

text \<open>
  \<^verbatim>\<open>visibilityTest\<close> and \<^verbatim>\<open>coarsenessTest\<close> of a node: the camera's tests on the node's
  identifier and metanode.
\<close>

definition visibilityTest :: "CameraImpl \<Rightarrow> TraverseNode \<Rightarrow> bool" where
  "visibilityTest cam trav = visibility cam (trav_id (nd trav)) (meta (nd trav))"

definition coarsenessTest :: "CameraImpl \<Rightarrow> TraverseNode \<Rightarrow> bool" where
  "coarsenessTest cam trav = coarseness cam (trav_id (nd trav)) (meta (nd trav))"

text \<open>
  The loops \<^verbatim>\<open>for (auto &t : trav->childs)\<close>: the body \<open>f\<close> runs on each child in turn, on
  the camera state that the child before it left.  \<open>forChilds\<close> is the loop whose body
  returns nothing, \<open>forChildsOk\<close> the loop that keeps the flag of each child.
\<close>

fun forChilds ::
  "(CameraState \<Rightarrow> TraverseNode \<Rightarrow> (CameraState \<times> TraverseNode) option)
     \<Rightarrow> CameraState \<Rightarrow> TraverseNode list \<Rightarrow> (CameraState \<times> TraverseNode list) option"
where
  "forChilds f st [] = Some (st, [])"
| "forChilds f st (c # cs) =
     (case f st c of
        None \<Rightarrow> None
      | Some (st1, c1) \<Rightarrow>
          (case forChilds f st1 cs of
             None \<Rightarrow> None
           | Some (st2, cs1) \<Rightarrow> Some (st2, c1 # cs1)))"

fun forChildsOk ::
  "(CameraState \<Rightarrow> TraverseNode \<Rightarrow> (bool \<times> CameraState \<times> TraverseNode) option)
     \<Rightarrow> CameraState \<Rightarrow> TraverseNode list
     \<Rightarrow> (bool list \<times> CameraState \<times> TraverseNode list) option"
where
  "forChildsOk f st [] = Some ([], st, [])"
| "forChildsOk f st (c # cs) =
     (case f st c of
        None \<Rightarrow> None
      | Some (ok, st1, c1) \<Rightarrow>
          (case forChildsOk f st1 cs of
             None \<Rightarrow> None
           | Some (oks, st2, cs1) \<Rightarrow> Some (ok # oks, st2, c1 # cs1)))"

definition dropOk ::
  "(bool \<times> CameraState \<times> TraverseNode) option \<Rightarrow> (CameraState \<times> TraverseNode) option" where
  "dropOk r = (case r of None \<Rightarrow> None | Some (ok, st, trav) \<Rightarrow> Some (st, trav))"

text \<open>
  The recursion of a strategy ends when the children of a node are exhausted, and children
  appear while the traversal runs.  The strategies therefore take the number of nested
  calls they may make; \<open>None\<close> is also the result of a call that needs more.

  \<^verbatim>\<open>CameraImpl::travModeFlat\<close>.
\<close>

fun travModeFlat ::
  "nat \<Rightarrow> CameraImpl \<Rightarrow> CameraState \<Rightarrow> TraverseNode option \<Rightarrow> TraverseNode
     \<Rightarrow> (CameraState \<times> TraverseNode) option"
where
  "travModeFlat 0 cam st par trav = None"
| "travModeFlat (Suc n) cam st par trav =
     (case travInit cam st par trav False of
        None \<Rightarrow> None
      | Some (ok, st1, trav1) \<Rightarrow>
          if \<not> ok then Some (st1, trav1)
          else if \<not> visibilityTest cam trav1 then Some (st1, trav1)
          else if coarsenessTest cam trav1 \<or> childs trav1 = []
          then (case travDetermineDraws cam st1 par trav1 of
                  None \<Rightarrow> None
                | Some (d, st2, trav2) \<Rightarrow>
                    Some (if d then emit [RenderNode trav2] st2 else st2, trav2))
          else (case forChilds (\<lambda>s c. travModeFlat n cam s (Some trav1) c) st1 (childs trav1) of
                  None \<Rightarrow> None
                | Some (st2, cs) \<Rightarrow> Some (st2, TraverseNode (nd trav1) cs)))"

text \<open>
  \<^verbatim>\<open>CameraImpl::travModeStable\<close>; \<open>mode\<close> 0 is the default mode, 1 is load only, 2 is
  render only.
\<close>

fun travModeStable ::
  "nat \<Rightarrow> CameraImpl \<Rightarrow> CameraState \<Rightarrow> TraverseNode option \<Rightarrow> TraverseNode \<Rightarrow> nat
     \<Rightarrow> (bool \<times> CameraState \<times> TraverseNode) option"
where
  "travModeStable 0 cam st par trav mode = None"
| "travModeStable (Suc n) cam st par trav mode =
     (case (if mode = 2
            then (if meta (nd trav) = None then Some (False, st, trav)
                  else Some (True, st, upd (\<lambda>d. d\<lparr>lastAccessTime := renderTickIndex cam\<rparr>) trav))
            else travInit cam st par trav False) of
        None \<Rightarrow> None
      | Some (ok, st1, trav1) \<Rightarrow>
          if \<not> ok then Some (False, st1, trav1)
          else if \<not> visibilityTest cam trav1 then Some (True, st1, trav1)
          else if mode = 2
          then (if determined (nd trav1)
                then Some (True, emit [TouchDraws trav1, RenderNode trav1] st1, trav1)
                else (case forChilds (\<lambda>s c. dropOk (travModeStable n cam s (Some trav1) c 2))
                             st1 (childs trav1) of
                        None \<Rightarrow> None
                      | Some (st2, cs) \<Rightarrow> Some (True, st2, TraverseNode (nd trav1) cs)))
          else if coarsenessTest cam trav1 \<or> childs trav1 = []
          then (case travDetermineDraws cam st1 par trav1 of
                  None \<Rightarrow> None
                | Some (d, st2, trav2) \<Rightarrow>
                    if mode = 1
                    then Some (determined (nd trav2), st2,
                               upd (\<lambda>d. d\<lparr>lastRenderTime := renderTickIndex cam\<rparr>) trav2)
                    else if determined (nd trav2)
                    then Some (True, emit [RenderNode trav2] st2, trav2)
                    else (case forChilds (\<lambda>s c. dropOk (travModeStable n cam s (Some trav2) c 2))
                                 st2 (childs trav2) of
                            None \<Rightarrow> None
                          | Some (st3, cs) \<Rightarrow> Some (True, st3, TraverseNode (nd trav2) cs)))
          else (case (if mode = 0 \<and> determined (nd trav1)
                      then (case forChildsOk (\<lambda>s c. travModeStable n cam s (Some trav1) c 1)
                                   st1 (childs trav1) of
                              None \<Rightarrow> None
                            | Some (oks, st2, cs) \<Rightarrow>
                                Some (list_all (\<lambda>b. b) oks, st2, TraverseNode (nd trav1) cs))
                      else Some (True, st1, trav1)) of
                  None \<Rightarrow> None
                | Some (loaded, st2, trav2) \<Rightarrow>
                    if \<not> loaded
                    then Some (True, emit [TouchDraws trav2, RenderNode trav2] st2, trav2)
                    else (case forChildsOk (\<lambda>s c. travModeStable n cam s (Some trav2) c mode)
                                 st2 (childs trav2) of
                            None \<Rightarrow> None
                          | Some (oks, st3, cs) \<Rightarrow>
                              Some (list_all (\<lambda>b. b) oks, st3, TraverseNode (nd trav2) cs))))"

text \<open>
  \<^verbatim>\<open>CameraImpl::travModeBalanced\<close>.  After the loop over the children,
  \<^verbatim>\<open>renderNodeCoarser\<close> is called on each child whose call returned false.
\<close>

definition coarserCalls :: "bool list \<Rightarrow> TraverseNode list \<Rightarrow> Event list" where
  "coarserCalls oks cs = map (\<lambda>(ok, c). RenderNodeCoarser c) (filter (\<lambda>(ok, c). \<not> ok) (zip oks cs))"

fun travModeBalanced ::
  "nat \<Rightarrow> CameraImpl \<Rightarrow> CameraState \<Rightarrow> TraverseNode option \<Rightarrow> TraverseNode \<Rightarrow> bool
     \<Rightarrow> (bool \<times> CameraState \<times> TraverseNode) option"
where
  "travModeBalanced 0 cam st par trav renderOnly = None"
| "travModeBalanced (Suc n) cam st par trav renderOnly =
     (case (if renderOnly
            then (if meta (nd trav) = None then Some (False, st, trav)
                  else Some (True, st, upd (\<lambda>d. d\<lparr>lastAccessTime := renderTickIndex cam\<rparr>) trav))
            else travInit cam st par trav False) of
        None \<Rightarrow> None
      | Some (ok, st1, trav1) \<Rightarrow>
          if \<not> ok then Some (False, st1, trav1)
          else if \<not> visibilityTest cam trav1 then Some (True, st1, trav1)
          else
            (case (if renderOnly
                   then (if determined (nd trav1)
                         then Some (True, True, emit [TouchDraws trav1, RenderNode trav1] st1, trav1)
                         else Some (False, True, st1, trav1))
                   else if coarsenessTest cam trav1 \<or> childs trav1 = []
                   then (case travDetermineDraws cam (emit [GridPreloadRequest trav1] st1) par trav1 of
                           None \<Rightarrow> None
                         | Some (d, st2, trav2) \<Rightarrow>
                             if d then Some (True, False, emit [RenderNode trav2] st2, trav2)
                             else Some (False, True, st2, trav2))
                   else Some (False, False, st1, trav1)) of
               None \<Rightarrow> None
             | Some (done, renderOnly1, st2, trav2) \<Rightarrow>
                 if done then Some (True, st2, trav2)
                 else (case forChildsOk (\<lambda>s c. travModeBalanced n cam s (Some trav2) c renderOnly1)
                              st2 (childs trav2) of
                         None \<Rightarrow> None
                       | Some (oks, st3, cs) \<Rightarrow>
                           if \<not> list_ex (\<lambda>b. b) oks \<and> renderOnly1
                           then Some (False, st3, TraverseNode (nd trav2) cs)
                           else Some (True, emit (coarserCalls oks cs) st3,
                                      TraverseNode (nd trav2) cs))))"

text \<open>
  \<open>appended P st st'\<close>: the events of \<open>st'\<close> are those of \<open>st\<close> followed by further
  events, and every node rendered by one of these satisfies \<open>P\<close>.  \<open>sameNode\<close>: two
  states of a node with the same identifier, metanode and children.
\<close>

definition appended :: "(TraverseNode \<Rightarrow> bool) \<Rightarrow> CameraState \<Rightarrow> CameraState \<Rightarrow> bool" where
  "appended P st st' \<longleftrightarrow>
     (\<exists>es. events st' = events st @ es \<and> (\<forall>t. RenderNode t \<in> set es \<longrightarrow> P t))"

definition sameNode :: "TraverseNode \<Rightarrow> TraverseNode \<Rightarrow> bool" where
  "sameNode trav trav' \<longleftrightarrow>
     trav_id (nd trav') = trav_id (nd trav) \<and> meta (nd trav') = meta (nd trav)
     \<and> childs trav' = childs trav"

text \<open>The nodes on which \<^verbatim>\<open>renderNode\<close> has been called, in the order of the calls.\<close>

fun renderedNodes :: "Event list \<Rightarrow> TraverseNode list" where
  "renderedNodes [] = []"
| "renderedNodes (RenderNode t # es) = t # renderedNodes es"
| "renderedNodes (e # es) = renderedNodes es"

definition rendered :: "CameraState \<Rightarrow> TraverseNode list" where
  "rendered st = renderedNodes (events st)"

section \<open>Example data\<close>

subsection \<open>A bound layer and a tile\<close>

definition ex_bound :: BoundInfo where
  "ex_bound = \<lparr>lodRange = \<lparr>lmin = 0, lmax = 8\<rparr>, tileRange = \<lparr>ll = (0, 0), ur = (0, 0)\<rparr>,
     metaUrl = None, urlMeta = (\<lambda>v. ''meta''), isTransparent = False, credits = []\<rparr>"

definition ex_impl :: MapImpl where
  "ex_impl = \<lparr>getBoundInfo = (\<lambda>n. Some ex_bound), getResourceValidity = (\<lambda>n. Valid),
     boundMetaFlags = (\<lambda>n i. 0), flagAvailable = 1, flagWatertight = 2\<rparr>"

definition ex_tile :: TileId where
  "ex_tile = \<lparr>lod = 10, xidx = 400, yidx = 300\<rparr>"

definition ex_vars :: Vars where
  "ex_vars = \<lparr>tileId = \<lparr>lod = 0, xidx = 0, yidx = 0\<rparr>, localId = \<lparr>lod = 0, xidx = 0, yidx = 0\<rparr>,
     subMeshIndex = 0\<rparr>"

definition ex_param :: BoundParamInfo where
  "ex_param = \<lparr>id' = ''layer'', alpha = None, orig = ex_vars, vars = ex_vars, bound = None,
     depth = 0, watertight = True, transparent = False, boundMetaTile = None,
     textureColor = None, textureMask = None\<rparr>"


subsection \<open>A camera, a layer and a node\<close>

definition ex_surface :: SurfaceInfo where
  "ex_surface = \<lparr>surfaceName = [''s''], surfaceUrlMeta = (\<lambda>v. ''meta''), urlMesh = (\<lambda>v. ''mesh''),
     urlIntTex = (\<lambda>v. ''tex''), urlGeodata = (\<lambda>v. ''geo''), surfaceAlien = False\<rparr>"

definition ex_layer :: MapLayer where
  "ex_layer = \<lparr>surfaceStack = \<lparr>surfaces = [ex_surface]\<rparr>, tilesetStack = None, freeLayer = None,
     freeLayerParams = False, freeLayerName = ''free'', isGeodata = False,
     boundList = (\<lambda>s r. [])\<rparr>"

definition ex_meta :: MetaNode where
  "ex_meta = \<lparr>metaLocalId = ex_tile, aabbPhys = ((0, 0, 0), (1, 1, 1))\<rparr>"

definition ex_data :: NodeData where
  "ex_data = \<lparr>trav_id = ex_tile, layer = ex_layer, metaTiles = [], meta = Some ex_meta,
     surface = Some ex_surface, determined = False, opaque = [], transparent' = [],
     geodata = [], colliders = [], resources = [], nodeCredits = [], priority = Fin 1,
     lastAccessTime = 0, lastRenderTime = 0\<rparr>"

definition ex_cam :: CameraImpl where
  "ex_cam = \<lparr>getValidity = (\<lambda>n. Valid),
     metaTileGet = (\<lambda>n t. \<lparr>flags = 0, childFlags = 0, alien = False, geometry = True,
                             sourceReference = 1, metaCredits = []\<rparr>),
     metaTileGetNode = (\<lambda>n t. ex_meta),
     roundId = (\<lambda>t. t),
     renderTickIndex = 7,
     submeshes = (\<lambda>n. []),
     textureLayerId = (\<lambda>n. ''layer''),
     creditsFind = (\<lambda>n. Some n),
     actualGeoStyle = (\<lambda>n. (Valid, ''style'')),
     actualGeoFeatures = (\<lambda>n g p. (Valid, ''features'')),
     geodataRenders = (\<lambda>n. []),
     reorder = (\<lambda>t l i bls p. (Valid, bls)),
     uvTrans = (\<lambda>b. identity3),
     generateMetaNode = (\<lambda>t. ex_meta),
     aabbPointDist = (\<lambda>p l u. 0),
     focusPosPhys = (0, 0, 0),
     visibility = (\<lambda>t m. True),
     coarseness = (\<lambda>t m. False),
     ulChild = 16,
     maxLods = 32\<rparr>"

definition ex_state :: CameraState where
  "ex_state = \<lparr>statistics = \<lparr>currentNodeMetaUpdates = 0, currentNodeDrawsUpdates = 0,
                   metaNodesTraversedTotal = 0, metaNodesTraversedPerLod = (\<lambda>k. 0)\<rparr>,
     events = []\<rparr>"

definition ex_masked1 :: BoundParamInfo where
  "ex_masked1 = ex_param\<lparr>id' := ''a'', bound := Some ex_bound, textureColor := Some ''a.jpg'',
     textureMask := Some ''a.png''\<rparr>"

definition ex_masked2 :: BoundParamInfo where
  "ex_masked2 = ex_param\<lparr>id' := ''b'', bound := Some ex_bound, textureColor := Some ''b.jpg'',
     textureMask := Some ''b.png''\<rparr>"

definition ex_part :: MeshPart where
  "ex_part = \<lparr>renderable = ''mesh#0'', normToPhys = [], internalUv = True, externalUv = True,
     textureLayer = 0, surfaceReference = 1\<rparr>"

definition ex_draws :: SurfaceDraws where
  "ex_draws = \<lparr>allDetermined = True, newOpaque = [], newTransparent = [], newCredits = []\<rparr>"

subsection \<open>Nodes below a parent, and a tileset mapping\<close>

definition ex_parent :: TraverseNode where
  "ex_parent = TraverseNode (ex_data\<lparr>metaTiles := [Some ''pm'']\<rparr>) []"

definition ex_child :: "32 word \<Rightarrow> TraverseNode" where
  "ex_child k = newTraverseNode ex_layer \<lparr>lod = 11, xidx = 800 + k, yidx = 600\<rparr>"

definition ex_cam16 :: CameraImpl where
  "ex_cam16 = ex_cam\<lparr>metaTileGet := (\<lambda>n t. \<lparr>flags = 16, childFlags = 0, alien = False,
          geometry = True, sourceReference = 1, metaCredits = []\<rparr>)\<rparr>"

definition ex_named :: "string \<Rightarrow> SurfaceInfo" where
  "ex_named n = ex_surface\<lparr>surfaceName := [n], urlMesh := (\<lambda>v. n)\<rparr>"

definition ex_cfg :: MapConfig where
  "ex_cfg = \<lparr>findSurface = (\<lambda>n. Some (ex_surface\<lparr>surfaceName := [], urlMesh := (\<lambda>v. n)\<rparr>)),
             findGlue = (\<lambda>ids. None)\<rparr>"

definition ex_tileset :: SurfaceStack where
  "ex_tileset = \<lparr>surfaces = [ex_surface, ex_named ''A'', ex_named ''B'']\<rparr>"

definition ex_cam_ref2 :: CameraImpl where
  "ex_cam_ref2 = ex_cam\<lparr>metaTileGet := (\<lambda>n t. \<lparr>flags = 0, childFlags = 0, alien = False,
          geometry = True, sourceReference = 2, metaCredits = []\<rparr>)\<rparr>"

definition ex_root :: "SurfaceStack option \<Rightarrow> TraverseNode" where
  "ex_root ts = newTraverseNode (ex_layer\<lparr>tilesetStack := ts\<rparr>) ex_tile"

subsection \<open>A leaf that is not coarse enough\<close>

text \<open>
  \<open>ex_data\<close> is a visible node with a metanode and a surface, without children, that
  fails the coarseness test of \<open>ex_cam\<close>; its mesh aggregate is valid and has no
  submeshes.  \<open>ex_rendered\<close> is the node after its draws have been determined.
\<close>

definition ex_rendered :: TraverseNode where
  "ex_rendered = TraverseNode (ex_data\<lparr>determined := True, resources := [''mesh''],
      priority := Fin 1000000, lastAccessTime := 7\<rparr>) []"

subsection \<open>A node of the hierarchical mode\<close>

definition ex_nav :: MapImplNav where
  "ex_nav = \<lparr>getBoundInfo = (\<lambda>n. Some ex_bound), getResourceValidity = (\<lambda>n. Valid),
     boundMetaFlags = (\<lambda>n i. 0), flagAvailable = 1, flagWatertight = 2,
     traverseMode = Hierarchical, debugDisableMeta5 = False, physicalSrs = ''phys'',
     convert = (\<lambda>p a b. p), rendererFocusPosPhys = (0, 0, 0),
     mapAabbPointDist = (\<lambda>p l u. 0)\<rparr>"

definition ex_libnode :: LibTraverseNode where
  "ex_libnode = \<lparr>libNodeId = \<lparr>lod = 4, xidx = 3, yidx = 5\<rparr>, nodeSrs = ''srs'',
     nodeExtents = ((0, 0), (1, 1)),
     libMeta = Some \<lparr>geomExtentsZ = Some (0, 1), metaAabbPhys = ((0, 0, 0), (1, 1, 1))\<rparr>\<rparr>"

section \<open>Properties of the floating-point operations\<close>

lemma pow2_powi: "pow2 e = 2 powi e"
  by (simp add: pow2_def power_int_def power_one_over)

lemma pow2_pos [simp]: "0 < pow2 e"
  by (simp add: pow2_def)

lemma pow2_nonzero [simp]: "pow2 e \<noteq> 0"
  by (metis less_irrefl pow2_pos)

lemma pow2_abs [simp]: "\<bar>pow2 e\<bar> = pow2 e"
  by (simp add: abs_of_pos)

lemma pow2_add: "pow2 (a + b) = pow2 a * pow2 b"
  by (simp add: pow2_powi power_int_add)

lemma pow2_diff: "pow2 (a - b) = pow2 a / pow2 b"
  by (simp add: pow2_powi power_int_diff)

lemma pow2_mono: "a \<le> b \<Longrightarrow> pow2 a \<le> pow2 b"
  by (simp add: pow2_powi power_int_increasing)

lemma pow2_strict_mono: "a < b \<Longrightarrow> pow2 a < pow2 b"
  by (simp add: pow2_powi power_int_strict_increasing)

lemma pow2_less_cancel: "pow2 a < pow2 b \<Longrightarrow> a < b"
  using pow2_mono [of b a] by (cases "a < b") auto

lemma pow2_nat: "pow2 (int n) = 2 ^ n"
  by (simp add: pow2_def)

lemma pow2_0 [simp]: "pow2 0 = 1"
  by (simp add: pow2_def)

lemma bitlen_bounds:
  "0 < n \<Longrightarrow> 0 < bitlen n \<and> 2 ^ nat (bitlen n - 1) \<le> n \<and> n < 2 ^ nat (bitlen n)"
proof (induction n rule: bitlen.induct)
  case (1 n)
  show ?case
  proof (cases "n = 1")
    case True
    then show ?thesis by (simp add: bitlen.simps [of 1] bitlen.simps [of 0])
  next
    case False
    with 1(2) have pos: "0 < n div 2" by simp
    from 1(2) have "\<not> n \<le> 0" by simp
    from 1(1) [OF this pos] have ih: "0 < bitlen (n div 2)"
      "2 ^ nat (bitlen (n div 2) - 1) \<le> n div 2" "n div 2 < 2 ^ nat (bitlen (n div 2))"
      by simp_all
    have b: "bitlen n = bitlen (n div 2) + 1" using 1(2) by (subst bitlen.simps) simp
    from ih(1) have e: "nat (bitlen (n div 2)) = Suc (nat (bitlen (n div 2) - 1))" by simp
    have "2 ^ nat (bitlen n - 1) = 2 * (2 :: int) ^ nat (bitlen (n div 2) - 1)"
      using b e by simp
    also have "\<dots> \<le> 2 * (n div 2)" using ih(2) by simp
    also have "\<dots> \<le> n" by simp
    finally have lo: "2 ^ nat (bitlen n - 1) \<le> n" .
    have "n < 2 * (n div 2) + 2" by simp
    also have "\<dots> \<le> 2 * 2 ^ nat (bitlen (n div 2))" using ih(3) by simp
    also have "\<dots> = 2 ^ nat (bitlen n)" using b ih(1) by (simp add: nat_add_distrib)
    finally have hi: "n < 2 ^ nat (bitlen n)" .
    from b ih(1) lo hi show ?thesis by simp
  qed
qed

lemma bitlen_pow2:
  assumes "0 < n"
  shows "pow2 (bitlen n - 1) \<le> of_int n" "of_int n < pow2 (bitlen n)"
proof -
  from bitlen_bounds [OF assms] have p: "0 < bitlen n"
    and lo: "2 ^ nat (bitlen n - 1) \<le> n" and hi: "n < 2 ^ nat (bitlen n)" by simp_all
  have "pow2 (bitlen n - 1) = 2 ^ nat (bitlen n - 1)" using p by (simp add: pow2_def)
  also have "\<dots> = (of_int (2 ^ nat (bitlen n - 1)) :: rat)" by simp
  also have "\<dots> \<le> of_int n" using lo by (simp only: of_int_le_iff)
  finally show "pow2 (bitlen n - 1) \<le> of_int n" .
  have "(of_int n :: rat) < of_int (2 ^ nat (bitlen n))" using hi by (simp only: of_int_less_iff)
  also have "\<dots> = pow2 (bitlen n)" using p by (simp add: pow2_def)
  finally show "of_int n < pow2 (bitlen n)" .
qed

lemma ilog2_bounds:
  assumes "q \<noteq> 0"
  shows "pow2 (ilog2 q) \<le> \<bar>q\<bar>" "\<bar>q\<bar> < pow2 (ilog2 q + 1)"
proof -
  obtain a b where ab: "quotient_of \<bar>q\<bar> = (a, b)" by (cases "quotient_of \<bar>q\<bar>")
  then have b: "0 < b" by (rule quotient_of_denom_pos)
  from ab have q: "\<bar>q\<bar> = of_int a / of_int b" by (rule quotient_of_div)
  from assms have "0 < \<bar>q\<bar>" by simp
  with q b have a: "0 < a" by (simp add: zero_less_divide_iff)
  note ba = bitlen_pow2 [OF a] and bb = bitlen_pow2 [OF b]
  let ?e = "bitlen a - bitlen b"
  have il: "ilog2 q = (if pow2 ?e \<le> \<bar>q\<bar> then ?e else ?e - 1)"
    by (simp add: ilog2_def ab)
  have B: "(0 :: rat) < of_int b" using b by simp
  have "pow2 (?e - 1) * of_int b \<le> pow2 (?e - 1) * pow2 (bitlen b)"
    using bb(2) by simp
  also have "\<dots> = pow2 (bitlen a - 1)" by (simp add: pow2_add [symmetric])
  also have "\<dots> \<le> of_int a" by (rule ba(1))
  finally have lo: "pow2 (?e - 1) \<le> \<bar>q\<bar>" using B by (simp add: q pos_le_divide_eq)
  have "of_int a < pow2 (bitlen a)" by (rule ba(2))
  also have "\<dots> = pow2 (?e + 1) * pow2 (bitlen b - 1)" by (simp add: pow2_add [symmetric])
  also have "\<dots> \<le> pow2 (?e + 1) * of_int b" using bb(1) by simp
  finally have hi: "\<bar>q\<bar> < pow2 (?e + 1)" using B by (simp add: q pos_divide_less_eq)
  show "pow2 (ilog2 q) \<le> \<bar>q\<bar>" using lo by (simp add: il)
  show "\<bar>q\<bar> < pow2 (ilog2 q + 1)" using hi by (auto simp: il)
qed

lemma round_even_of_int [simp]: "round_even (of_int n) = n"
  by (simp add: round_even_def)

lemma round_even_error: "\<bar>of_int (round_even x) - x\<bar> \<le> 1 / 2"
proof -
  have "of_int \<lfloor>x\<rfloor> \<le> x" "x < of_int \<lfloor>x\<rfloor> + 1" by linarith+
  then show ?thesis by (auto simp: round_even_def Let_def)
qed

lemma round_even_ge: "of_int n \<le> x \<Longrightarrow> n \<le> round_even x"
proof -
  assume "of_int n \<le> x"
  then have "n \<le> \<lfloor>x\<rfloor>" by (simp add: le_floor_iff)
  then show ?thesis by (auto simp: round_even_def Let_def)
qed

lemma round_even_le: "x \<le> of_int n \<Longrightarrow> round_even x \<le> n"
proof (cases "x = of_int n")
  case True
  then show ?thesis by simp
next
  case False
  assume "x \<le> of_int n"
  with False have "x < of_int n" by simp
  then have "\<lfloor>x\<rfloor> < n" by (simp add: floor_less_iff)
  then show ?thesis by (auto simp: round_even_def Let_def)
qed

lemma fround_exact:
  assumes q: "q = of_int m * pow2 k" and m: "\<bar>m\<bar> < 2 ^ p"
    and k: "2 - emax - (int p - 1) \<le> k" and r: "\<bar>q\<bar> < pow2 emax"
  shows "fround p emax q = Fin q"
proof (cases "q = 0")
  case True
  then show ?thesis by (simp add: fround_def)
next
  case False
  define e where "e = max (ilog2 q) (2 - emax)"
  have ke: "e - (int p - 1) \<le> k"
  proof (cases "ilog2 q \<le> 2 - emax")
    case True
    then show ?thesis using k by (simp add: e_def)
  next
    case False
    have "pow2 (ilog2 q) \<le> \<bar>q\<bar>" by (rule ilog2_bounds(1) [OF \<open>q \<noteq> 0\<close>])
    also have "\<bar>q\<bar> = of_int \<bar>m\<bar> * pow2 k" by (simp add: q abs_mult)
    also have "\<dots> < of_int (2 ^ p) * pow2 k"
      using m by (intro mult_strict_right_mono) (simp_all only: of_int_less_iff pow2_pos)
    also have "\<dots> = pow2 (int p + k)" by (simp add: pow2_add pow2_nat)
    finally have "ilog2 q < int p + k" by (rule pow2_less_cancel)
    with False show ?thesis by (simp add: e_def)
  qed
  define j where "j = nat (k - (e - (int p - 1)))"
  have "q / pow2 (e - (int p - 1)) = of_int m * pow2 (k - (e - (int p - 1)))"
    by (simp add: q pow2_diff)
  also have "pow2 (k - (e - (int p - 1))) = 2 ^ j" using ke by (simp add: pow2_def j_def)
  also have "of_int m * 2 ^ j = (of_int (m * 2 ^ j) :: rat)" by simp
  finally have "round_even (q / pow2 (e - (int p - 1))) = m * 2 ^ j"
    by (simp only: round_even_of_int)
  moreover have "(of_int (m * 2 ^ j) :: rat) * pow2 (e - (int p - 1)) = q"
  proof -
    have "(of_int (m * 2 ^ j) :: rat) = of_int m * pow2 (k - (e - (int p - 1)))"
      using ke by (simp add: pow2_def j_def)
    then show ?thesis by (simp add: q pow2_diff)
  qed
  ultimately show ?thesis
    using False r by (simp add: fround_def Let_def e_def [symmetric])
qed


lemma fround_dyadic:
  assumes m: "m < 2 ^ d" and dp: "d \<le> p" and de: "int d \<le> emax - 2 + (int p - 1)"
    and e: "0 \<le> emax"
  shows "fround p emax (of_nat m / 2 ^ d) = Fin (of_nat m / 2 ^ d)"
proof (rule fround_exact [where m = "int m" and k = "- int d"])
  show "(of_nat m / 2 ^ d :: rat) = of_int (int m) * pow2 (- int d)"
    by (simp add: pow2_def)
  have "m < 2 ^ p" using m dp
    by (meson less_le_trans one_le_numeral power_increasing)
  then have "int m < int (2 ^ p)" by (simp only: of_nat_less_iff)
  then show "\<bar>int m\<bar> < 2 ^ p" by simp
  show "2 - emax - (int p - 1) \<le> - int d" using de by simp
  have "(of_nat m :: rat) < of_nat (2 ^ d)" using m by (simp only: of_nat_less_iff)
  then have "(of_nat m / 2 ^ d :: rat) < 1" by (simp add: divide_less_eq)
  also have "(1 :: rat) \<le> pow2 emax" using pow2_mono [OF e] by simp
  finally show "\<bar>of_nat m / 2 ^ d :: rat\<bar> < pow2 emax" by simp
qed

lemma fround_dyadic_int:
  assumes m: "\<bar>m\<bar> < 2 ^ p" and de: "int d \<le> emax - 2 + (int p - 1)" and pe: "int p \<le> emax"
  shows "fround p emax (of_int m / 2 ^ d) = Fin (of_int m / 2 ^ d)"
proof (rule fround_exact [where m = m and k = "- int d"])
  show "(of_int m / 2 ^ d :: rat) = of_int m * pow2 (- int d)"
    by (simp add: pow2_def)
  show "\<bar>m\<bar> < 2 ^ p" by (rule m)
  show "2 - emax - (int p - 1) \<le> - int d" using de by simp
  have "\<bar>of_int m / 2 ^ d :: rat\<bar> = of_int \<bar>m\<bar> / 2 ^ d" by simp
  also have "\<dots> \<le> of_int \<bar>m\<bar>" by (simp add: divide_le_eq mult_le_cancel_left1)
  also have "(of_int \<bar>m\<bar> :: rat) < of_int (2 ^ p)" using m by (simp only: of_int_less_iff)
  also have "(of_int (2 ^ p) :: rat) = pow2 (int p)" by (simp add: pow2_nat)
  also have "\<dots> \<le> pow2 emax" using pe by (rule pow2_mono)
  finally show "\<bar>of_int m / 2 ^ d :: rat\<bar> < pow2 emax" .
qed

lemma round_double_dyadic_int:
  "\<bar>m\<bar> < 2 ^ 53 \<Longrightarrow> d \<le> 1074 \<Longrightarrow> round_double (of_int m / 2 ^ d) = Fin (of_int m / 2 ^ d)"
  unfolding round_double_def by (rule fround_dyadic_int) simp_all

lemma round_float_dyadic_int:
  "\<bar>m\<bar> < 2 ^ 24 \<Longrightarrow> d \<le> 149 \<Longrightarrow> round_float (of_int m / 2 ^ d) = Fin (of_int m / 2 ^ d)"
  unfolding round_float_def by (rule fround_dyadic_int) simp_all

lemma fround_range:
  assumes lo: "pow2 lo \<le> q" and hi: "q < pow2 hi" and el: "2 - emax \<le> lo"
    and eh: "hi < emax" and p: "0 < p"
  shows "\<exists>r. fround p emax q = Fin r \<and> pow2 lo \<le> r \<and> r \<le> pow2 hi
           \<and> \<bar>r - q\<bar> \<le> q / 2 ^ p"
proof -
  from lo have q0: "0 < q" using pow2_pos [of lo] by linarith
  then have qn: "q \<noteq> 0" and qa: "\<bar>q\<bar> = q" by simp_all
  define e where "e = ilog2 q"
  from ilog2_bounds [OF qn] have b1: "pow2 e \<le> q" and b2: "q < pow2 (e + 1)"
    by (simp_all add: e_def qa)
  from lo b2 have "pow2 lo < pow2 (e + 1)" by linarith
  then have le: "lo \<le> e" using pow2_less_cancel [of lo "e + 1"] by simp
  from b1 hi have "pow2 e < pow2 hi" by linarith
  then have eh': "e + 1 \<le> hi" using pow2_less_cancel [of e hi] by simp
  from le el have m: "max e (2 - emax) = e" by simp
  define u where "u = pow2 (e - (int p - 1))"
  define n where "n = round_even (q / u)"
  have u: "0 < u" by (simp add: u_def)
  have r: "fround p emax q
             = (if pow2 emax \<le> \<bar>of_int n * u\<bar> then NonFin else Fin (of_int n * u))"
    using qn by (simp add: fround_def Let_def e_def [symmetric] m u_def n_def)
  have pe: "pow2 e = of_int (2 ^ (p - 1)) * u"
  proof -
    have "pow2 e = pow2 (int (p - 1)) * pow2 (e - (int p - 1))"
      using p by (simp add: pow2_add [symmetric] of_nat_diff)
    then show ?thesis by (simp add: u_def pow2_nat)
  qed
  have pe1: "pow2 (e + 1) = of_int (2 ^ p) * u"
  proof -
    have "pow2 (e + 1) = pow2 (int p) * pow2 (e - (int p - 1))"
      by (simp add: pow2_add [symmetric])
    then show ?thesis by (simp add: u_def pow2_nat)
  qed
  have "of_int (2 ^ (p - 1)) \<le> q / u" using b1 u by (simp add: pe pos_le_divide_eq)
  then have nl: "2 ^ (p - 1) \<le> n" unfolding n_def by (rule round_even_ge)
  have "q / u \<le> of_int (2 ^ p)" using b2 u by (simp add: pe1 pos_divide_le_eq)
  then have nh: "n \<le> 2 ^ p" unfolding n_def by (rule round_even_le)
  have "(of_int (2 ^ (p - 1)) :: rat) \<le> of_int n" using nl by (simp only: of_int_le_iff)
  then have rl: "pow2 e \<le> of_int n * u" using u by (simp add: pe)
  have "(of_int n :: rat) \<le> of_int (2 ^ p)" using nh by (simp only: of_int_le_iff)
  then have rh: "of_int n * u \<le> pow2 (e + 1)" using u by (simp add: pe1)
  from rl have rpos: "0 < of_int n * u" using pow2_pos [of e] by linarith
  have "pow2 (e + 1) \<le> pow2 hi" using eh' by (rule pow2_mono)
  with rh have rh': "of_int n * u \<le> pow2 hi" by linarith
  have "pow2 hi < pow2 emax" using eh by (rule pow2_strict_mono)
  with rh' rpos have fin: "\<not> pow2 emax \<le> \<bar>of_int n * u\<bar>" by simp
  have "pow2 lo \<le> pow2 e" using le by (rule pow2_mono)
  with rl have rl': "pow2 lo \<le> of_int n * u" by linarith
  have "\<bar>of_int n * u - q\<bar> = \<bar>of_int n - q / u\<bar> * u"
  proof -
    have "of_int n * u - q = (of_int n - q / u) * u" using u by (simp add: field_simps)
    then show ?thesis using u by (simp add: abs_mult)
  qed
  also have "\<dots> \<le> (1 / 2) * u"
    using round_even_error [of "q / u"] u unfolding n_def by (intro mult_right_mono) simp_all
  also have "(1 / 2) * u = pow2 e / 2 ^ p"
  proof -
    have "(2 :: rat) ^ p = 2 * 2 ^ (p - 1)" using p by (cases p) simp_all
    then show ?thesis by (simp add: pe)
  qed
  also have "\<dots> \<le> q / 2 ^ p" using b1 by (simp add: divide_right_mono)
  finally have err: "\<bar>of_int n * u - q\<bar> \<le> q / 2 ^ p" .
  from r fin rl' rh' err show ?thesis by simp
qed

lemma round_double_dyadic:
  "m < 2 ^ d \<Longrightarrow> d \<le> 53 \<Longrightarrow> round_double (of_nat m / 2 ^ d) = Fin (of_nat m / 2 ^ d)"
  unfolding round_double_def by (rule fround_dyadic) simp_all

lemma round_float_dyadic:
  "m < 2 ^ d \<Longrightarrow> d \<le> 24 \<Longrightarrow> round_float (of_nat m / 2 ^ d) = Fin (of_nat m / 2 ^ d)"
  unfolding round_float_def by (rule fround_dyadic) simp_all

lemma round_float_int:
  "\<bar>m\<bar> < 2 ^ 24 \<Longrightarrow> round_float (of_int m) = Fin (of_int m)"
  unfolding round_float_def
  by (rule fround_exact [where m = m and k = 0]) (simp_all add: pow2_def)

lemma round_double_int:
  "\<bar>m\<bar> < 2 ^ 53 \<Longrightarrow> round_double (of_int m) = Fin (of_int m)"
  unfolding round_double_def
  by (rule fround_exact [where m = m and k = 0]) (simp_all add: pow2_def)

lemma round_float_inverse_power:
  assumes "d \<le> 126"
  shows "round_float (1 / 2 ^ d) = Fin (1 / 2 ^ d)"
  unfolding round_float_def
proof (rule fround_exact [where m = 1 and k = "- int d"])
  show "(1 / 2 ^ d :: rat) = of_int 1 * pow2 (- int d)" by (simp add: pow2_def)
  show "\<bar>1 :: int\<bar> < 2 ^ 24" by simp
  show "2 - 128 - (int 24 - 1) \<le> - int d" using assms by simp
  have "(1 / 2 ^ d :: rat) \<le> 1" by (simp add: divide_le_eq)
  also have "(1 :: rat) < pow2 128" by (simp add: pow2_def)
  finally show "\<bar>1 / 2 ^ d :: rat\<bar> < pow2 128" by simp
qed

lemma priorityOfDistance_0: "priorityOfDistance 0 = Fin 1000000"
proof -
  have 1: "round_double 1 = Fin 1" using round_double_int [of 1] by simp
  have 2: "round_double 1000000 = Fin 1000000" using round_double_int [of 1000000] by simp
  have 3: "round_float 1000000 = Fin 1000000" using round_float_int [of 1000000] by simp
  show ?thesis
    by (simp add: priorityOfDistance_def double_add_def double_div_def to_float_def 1 2 3)
qed

lemma float_div_100_4: "float_div 100 4 = Fin 25"
  using round_float_int [of 25] by (simp add: float_div_def)

lemma priorityOfDistance_error:
  assumes d0: "0 \<le> d" and d1: "d + 1 < 2 ^ 100"
  shows "\<exists>q. priorityOfDistance d = Fin q
           \<and> \<bar>q - 1000000 / (d + 1)\<bar> \<le> 1000000 / (d + 1) / 2 ^ 23"
proof -
  define a where "a = d + 1"
  have a1: "pow2 0 \<le> a" using d0 by (simp add: a_def)
  have a2: "a < pow2 100" using d1 by (simp add: a_def pow2_def)
  from fround_range [OF a1 a2, of 1024 53] obtain s where
    s: "round_double a = Fin s" and s1: "1 \<le> s" and s2: "s \<le> pow2 100"
    and se: "\<bar>s - a\<bar> \<le> a / 2 ^ 53"
    by (auto simp: round_double_def)
  have apos: "0 < a" using d0 by (simp add: a_def)
  have spos: "0 < s" using s1 by simp
  define x where "x = 1000000 / a"
  define x1 where "x1 = 1000000 / s"
  have xpos: "0 < x" using apos by (simp add: x_def)
  have x1pos: "0 < x1" using spos by (simp add: x1_def)
  have x1lo: "pow2 (- 81) \<le> x1"
  proof -
    have "pow2 (- 81) * s \<le> pow2 (- 81) * pow2 100" using s2 by simp
    also have "\<dots> = pow2 19" by (simp add: pow2_add [symmetric])
    also have "\<dots> \<le> 1000000" by (simp add: pow2_def)
    finally show ?thesis using spos by (simp add: x1_def pos_le_divide_eq)
  qed
  have x1hi: "x1 < pow2 20"
  proof -
    have "x1 \<le> 1000000" using s1 spos by (simp add: x1_def pos_divide_le_eq)
    also have "(1000000 :: rat) < pow2 20" by (simp add: pow2_def)
    finally show ?thesis .
  qed
  from fround_range [OF x1lo x1hi, of 1024 53] obtain q1 where
    q1: "round_double x1 = Fin q1" and q1lo: "pow2 (- 81) \<le> q1" and q1hi: "q1 \<le> pow2 20"
    and q1e: "\<bar>q1 - x1\<bar> \<le> x1 / 2 ^ 53"
    by (auto simp: round_double_def)
  have q1hi': "q1 < pow2 21"
    using q1hi pow2_strict_mono [of 20 21] by simp
  from fround_range [OF q1lo q1hi', of 128 24] obtain q where
    q: "round_float q1 = Fin q" and qe: "\<bar>q - q1\<bar> \<le> q1 / 2 ^ 24"
    by (auto simp: round_float_def)
  have res: "priorityOfDistance d = Fin q"
    using spos
    by (simp add: priorityOfDistance_def double_add_def double_div_def to_float_def
        a_def [symmetric] s x1_def [symmetric] q1 q)
  define eps :: rat where "eps = 1 / 2 ^ 53"
  define del :: rat where "del = 1 / 2 ^ 24"
  have se': "\<bar>s - a\<bar> \<le> a * eps" using se by (simp add: eps_def)
  have q1e': "\<bar>q1 - x1\<bar> \<le> x1 * eps" using q1e by (simp add: eps_def)
  have qe': "\<bar>q - q1\<bar> \<le> q1 * del" using qe by (simp add: del_def)
  have xx1: "\<bar>x1 - x\<bar> \<le> x1 * eps"
  proof -
    have c: "0 \<le> 1000000 / (a * s)" using apos spos by simp
    have "x1 - x = (1000000 / (a * s)) * (a - s)"
      using apos spos by (simp add: x1_def x_def field_simps)
    then have "\<bar>x1 - x\<bar> = (1000000 / (a * s)) * \<bar>s - a\<bar>"
      using c by (simp only: abs_mult abs_of_nonneg abs_minus_commute)
    also have "\<dots> \<le> (1000000 / (a * s)) * (a * eps)"
      using se' c by (rule mult_left_mono)
    also have "\<dots> = x1 * eps" using apos spos by (simp add: x1_def)
    finally show ?thesis .
  qed
  have q1b: "q1 \<le> x1 * (1 + eps)" using q1e' by (simp add: algebra_simps abs_le_iff)
  have "q1 * del \<le> x1 * (1 + eps) * del"
    using q1b by (intro mult_right_mono) (simp_all add: del_def)
  with qe' q1e' xx1 have t: "\<bar>q - x\<bar> \<le> x1 * (1 + eps) * del + x1 * eps + x1 * eps"
    by linarith
  have c: "(1 + eps) * del + eps + eps \<le> (1 - eps) * (2 * del)"
    by (simp add: eps_def del_def)
  have "x1 * (1 + eps) * del + x1 * eps + x1 * eps = x1 * ((1 + eps) * del + eps + eps)"
    by (simp add: algebra_simps)
  also have "\<dots> \<le> x1 * ((1 - eps) * (2 * del))"
    using c x1pos by (intro mult_left_mono) simp_all
  also have "\<dots> = (x1 * (1 - eps)) * (2 * del)" by simp
  also have "\<dots> \<le> x * (2 * del)"
  proof -
    have "x1 * (1 - eps) \<le> x" using xx1 by (simp add: algebra_simps abs_le_iff)
    then show ?thesis by (intro mult_right_mono) (simp_all add: del_def)
  qed
  also have "\<dots> = x / 2 ^ 23" by (simp add: del_def)
  finally have "x1 * (1 + eps) * del + x1 * eps + x1 * eps \<le> x / 2 ^ 23" .
  with t have "\<bar>q - x\<bar> \<le> x / 2 ^ 23" by linarith
  with res show ?thesis by (auto simp: x_def a_def)
qed

lemma float_div_100_error:
  assumes "0 < n" and "n \<le> 255"
  shows "\<exists>q. float_div 100 (of_nat n) = Fin q
           \<and> \<bar>q - 100 / of_nat n\<bar> \<le> 100 / of_nat n / 2 ^ 24"
proof -
  have n: "(0 :: rat) < of_nat n" "(of_nat n :: rat) \<le> 255" using assms by simp_all
  have lo: "pow2 (- 2) \<le> 100 / of_nat n"
    using n by (simp add: pow2_def pos_le_divide_eq)
  have "(1 :: rat) \<le> of_nat n" using assms(1) by simp
  then have "100 / of_nat n \<le> (100 :: rat)" using n by (simp add: pos_divide_le_eq)
  then have hi: "100 / of_nat n < pow2 7" by (simp add: pow2_def)
  from fround_range [OF lo hi, of 128 24] n show ?thesis
    by (auto simp: float_div_def round_float_def)
qed

section \<open>Properties of the mesh upload\<close>

subsection \<open>Lemmas about the index copy\<close>

lemma copy_indices_take:
  "n \<le> length src \<Longrightarrow> copy_indices n src = Some (map ucast (take n src))"
proof (induction n src rule: copy_indices.induct)
  case (1 src)
  show ?case by simp
next
  case (2 n)
  then show ?case by simp
next
  case (3 n i src)
  then show ?case by simp
qed

lemma unat_ucast_32_16: "unat (ucast (i :: 32 word) :: 16 word) = unat i mod 65536"
  by (simp add: unsigned_ucast_eq take_bit_eq_mod)

text \<open>
  C9.  For a mesh spec with \<open>indicesCount > 0\<close> (whose index buffer holds at least
  \<open>indicesCount\<close> indices) \<^verbatim>\<open>Mesh::load\<close> returns normally, and the element buffer it
  uploads under the new \<open>vio\<close> name is the list of 16-bit values \<open>i mod 65536\<close>
  of the first \<open>indicesCount\<close> 32-bit indices \<open>i\<close>.  No index is rejected: an index
  above 65535 is uploaded as a different value.
\<close>

theorem Mesh_load_truncates_indices:
  assumes "indicesCount specp \<noteq> 0"
    and "unat (indicesCount specp) \<le> length (indices specp)"
  shows "\<exists>m gl info' up.
           Mesh_load sizeof_Mesh m0 gl0 info specp dbg = Some (m, gl, info')
         \<and> vio m \<noteq> 0
         \<and> store gl (vio m) = Some (Elements16 up)
         \<and> length up = unat (indicesCount specp)
         \<and> (\<forall>k < unat (indicesCount specp).
               unat (up ! k) = unat (indices specp ! k) mod 65536
             \<and> (65535 < unat (indices specp ! k) \<longrightarrow> unat (up ! k) \<noteq> unat (indices specp ! k)))"
proof -
  let ?n = "unat (indicesCount specp)"
  let ?up = "map ucast (take ?n (indices specp)) :: 16 word list"
  have cp: "copy_indices ?n (indices specp) = Some ?up"
    using assms(2) by (rule copy_indices_take)
  have len: "length ?up = ?n"
    using assms(2) by simp
  have elems: "\<forall>k < ?n. unat (?up ! k) = unat (indices specp ! k) mod 65536
             \<and> (65535 < unat (indices specp ! k) \<longrightarrow> unat (?up ! k) \<noteq> unat (indices specp ! k))"
  proof (intro allI impI)
    fix k assume k: "k < ?n"
    then have "?up ! k = ucast (indices specp ! k)"
      using assms(2) by simp
    then have e: "unat (?up ! k) = unat (indices specp ! k) mod 65536"
      by (simp add: unat_ucast_32_16)
    have "unat (indices specp ! k) mod 65536 < 65536" by simp
    with e show "unat (?up ! k) = unat (indices specp ! k) mod 65536
             \<and> (65535 < unat (indices specp ! k) \<longrightarrow> unat (?up ! k) \<noteq> unat (indices specp ! k))"
      by linarith
  qed
  obtain m1 gl1 where c: "Mesh_clear m0 gl0 = (m1, gl1)"
    by (cases "Mesh_clear m0 gl0")
  show ?thesis
    using assms(1) cp len elems c
    by (auto simp: Mesh_load_def Let_def glGenBuffers_def split: prod.splits)
qed

theorem Mesh_load_truncates_indices_witness:
  "\<exists>m gl info' up.
     Mesh_load 64 \<lparr>spec = \<lparr>vertices = [], indices = [], verticesCount = 0, indicesCount = 0\<rparr>,
                   vbo = 0, vio = 0, debugId = []\<rparr>
       \<lparr>lastName = 0, boundArrayBuffer = 0, boundElementArrayBuffer = 0, store = Map.empty\<rparr>
       \<lparr>ramMemoryCost = 0, gpuMemoryCost = 0\<rparr>
       \<lparr>vertices = [], indices = [1, 65536, 70000], verticesCount = 0, indicesCount = 3\<rparr> ''m''
     = Some (m, gl, info')
   \<and> store gl (vio m) = Some (Elements16 up)
   \<and> length up = 3 \<and> unat (up ! 0) = 1 \<and> unat (up ! 1) = 0 \<and> unat (up ! 2) = 4464"
proof -
  let ?sp = "\<lparr>vertices = [], indices = [1, 65536, 70000 :: 32 word], verticesCount = 0,
              indicesCount = 3\<rparr>"
  have h1: "indicesCount ?sp \<noteq> 0" by simp
  have h2: "unat (indicesCount ?sp) \<le> length (indices ?sp)" by simp
  from Mesh_load_truncates_indices [OF h1 h2, of 64
      "\<lparr>spec = \<lparr>vertices = [], indices = [], verticesCount = 0, indicesCount = 0\<rparr>,
        vbo = 0, vio = 0, debugId = []\<rparr>"
      "\<lparr>lastName = 0, boundArrayBuffer = 0, boundElementArrayBuffer = 0, store = Map.empty\<rparr>"
      "\<lparr>ramMemoryCost = 0, gpuMemoryCost = 0\<rparr>" "''m''"]
  obtain m gl info' up where
    r: "Mesh_load 64 \<lparr>spec = \<lparr>vertices = [], indices = [], verticesCount = 0, indicesCount = 0\<rparr>,
                   vbo = 0, vio = 0, debugId = []\<rparr>
       \<lparr>lastName = 0, boundArrayBuffer = 0, boundElementArrayBuffer = 0, store = Map.empty\<rparr>
       \<lparr>ramMemoryCost = 0, gpuMemoryCost = 0\<rparr> ?sp ''m'' = Some (m, gl, info')"
    and s: "store gl (vio m) = Some (Elements16 up)"
    and l: "length up = unat (indicesCount ?sp)"
    and e: "\<forall>k < unat (indicesCount ?sp). unat (up ! k) = unat (indices ?sp ! k) mod 65536"
    by blast
  have l3: "length up = 3" using l by simp
  have e3: "\<forall>k < (3::nat). unat (up ! k) = unat ([1, 65536, 70000 :: 32 word] ! k) mod 65536"
    using e by simp
  have "unat (up ! 0) = 1" using e3 by simp
  moreover have "unat (up ! 1) = 0" using e3 by simp
  moreover have "unat (up ! 2) = 4464" using e3 by simp
  ultimately show ?thesis using r s l3 by blast
qed


section \<open>Properties of the bound-layer entry\<close>

lemma shr32_Some: "0 \<le> n \<Longrightarrow> n < 32 \<Longrightarrow> shr32 w n = Some (drop_bit (nat n) w)"
  by (simp add: shr32_def)

lemma low_bits: "(w :: 32 word) - push_bit d (drop_bit d w) = take_bit d w"
proof -
  have "push_bit d (drop_bit d w) + take_bit d w = w" by (rule bits_ident)
  then show ?thesis by (simp add: algebra_simps)
qed

lemma unat_low_bits: "unat ((w :: 32 word) - push_bit d (drop_bit d w)) < 2 ^ d"
  by (simp add: low_bits unsigned_take_bit_eq)

lemma uvMatrix_depth0: "depth b = 0 \<Longrightarrow> uvMatrix b = Some identity3"
  by (simp add: uvMatrix_def)

text \<open>
  The operations on \<^verbatim>\<open>double\<close> in \<^verbatim>\<open>uvMatrix\<close> are exact: their results are multiples of
  \<open>1/2^d\<close> between 0 and 1, and \<open>d \<le> 30\<close>.
\<close>

lemma dyadic_one_minus: "(1 - 1 / 2 ^ d :: rat) = of_nat (2 ^ d - 1) / 2 ^ d"
  by (simp add: of_nat_diff field_simps)

lemma dyadic_ty:
  assumes "m < 2 ^ d"
  shows "(1 - 1 / 2 ^ d - of_nat m / 2 ^ d :: rat) = of_nat (2 ^ d - 1 - m) / 2 ^ d"
proof -
  from assms have "m \<le> 2 ^ d - 1" by simp
  then have "(of_nat (2 ^ d - 1 - m) :: rat) = of_nat (2 ^ d - 1) - of_nat m"
    by (rule of_nat_diff)
  also have "(of_nat (2 ^ d - 1) :: rat) = 2 ^ d - 1" by (simp add: of_nat_diff)
  finally have e: "(of_nat (2 ^ d - 1 - m) :: rat) = 2 ^ d - 1 - of_nat m" .
  show ?thesis unfolding e by (simp add: diff_divide_distrib)
qed

lemma round_double_scale:
  assumes "0 < d" "d \<le> 53"
  shows "round_double (1 / 2 ^ d) = Fin (1 / 2 ^ d)"
proof -
  have "(2 :: nat) ^ 1 \<le> 2 ^ d" using assms(1) by (intro power_increasing) simp_all
  then have "(1 :: nat) < 2 ^ d" by simp
  from round_double_dyadic [OF this assms(2)] show ?thesis by simp
qed

lemma round_double_one_minus:
  assumes "d \<le> 53"
  shows "round_double (1 - 1 / 2 ^ d) = Fin (1 - 1 / 2 ^ d)"
  unfolding dyadic_one_minus by (rule round_double_dyadic) (simp_all add: assms)

lemma round_double_ty:
  assumes "m < 2 ^ d" "d \<le> 53"
  shows "round_double (1 - 1 / 2 ^ d - of_nat m / 2 ^ d)
           = Fin (1 - 1 / 2 ^ d - of_nat m / 2 ^ d)"
  unfolding dyadic_ty [OF assms(1)] by (rule round_double_dyadic) (simp_all add: assms)

lemma round_float_ty:
  assumes "m < 2 ^ d" "d \<le> 24"
  shows "round_float (1 - 1 / 2 ^ d - of_nat m / 2 ^ d)
           = Fin (1 - 1 / 2 ^ d - of_nat m / 2 ^ d)"
  unfolding dyadic_ty [OF assms(1)] by (rule round_float_dyadic) (simp_all add: assms)

lemma uvMatrix_pos:
  assumes "0 < depth b" "depth b \<le> 30"
  shows "uvMatrix b =
    Some (let d = nat (depth b); s = 1 / 2 ^ d;
              lx = xidx (localId (orig b)); ly = yidx (localId (orig b));
              tx = s * of_nat (unat (lx - push_bit d (drop_bit d lx)));
              ty = 1 - s - s * of_nat (unat (ly - push_bit d (drop_bit d ly)))
          in ((Fin s, Fin 0, round_float tx),
              (Fin 0, Fin s, round_float ty),
              (Fin 0, Fin 0, Fin 1)))"
proof -
  define d where "d = nat (depth b)"
  define mx where "mx = unat (xidx (localId (orig b)) - push_bit d (drop_bit d (xidx (localId (orig b)))))"
  define my where "my = unat (yidx (localId (orig b)) - push_bit d (drop_bit d (yidx (localId (orig b)))))"
  have d: "0 < d" "d \<le> 53" "d \<le> 126" "depth b = int d" using assms by (simp_all add: d_def)
  have mx: "mx < 2 ^ d" and my: "my < 2 ^ d" by (simp_all add: mx_def my_def unat_low_bits)
  have p: "one_shl (depth b) = Some (2 ^ d)" using assms by (simp add: one_shl_def d_def)
  have sh: "shr32 w (depth b) = Some (drop_bit d w)" "shl32 w (depth b) = Some (push_bit d w)"
    for w using assms by (simp_all add: shr32_def shl32_def d_def)
  have sc: "double_div 1 (2 ^ d) = Fin (1 / 2 ^ d)"
    using round_double_scale [OF d(1,2)] by (simp add: double_div_def)
  have tx: "double_mul (Fin (1 / 2 ^ d)) (Fin (of_nat mx)) = Fin (of_nat mx / 2 ^ d)"
    using round_double_dyadic [OF mx d(2)] by (simp add: double_mul_def)
  have ty0: "double_mul (Fin (1 / 2 ^ d)) (Fin (of_nat my)) = Fin (of_nat my / 2 ^ d)"
    using round_double_dyadic [OF my d(2)] by (simp add: double_mul_def)
  have om: "double_sub (Fin 1) (Fin (1 / 2 ^ d)) = Fin (1 - 1 / 2 ^ d)"
    using round_double_one_minus [OF d(2)] by (simp add: double_sub_def)
  have ty: "double_sub (Fin (1 - 1 / 2 ^ d)) (Fin (of_nat my / 2 ^ d))
              = Fin (1 - 1 / 2 ^ d - of_nat my / 2 ^ d)"
    using round_double_ty [OF my d(2)] by (simp add: double_sub_def)
  have fs: "round_float (1 / 2 ^ d) = Fin (1 / 2 ^ d)"
    by (rule round_float_inverse_power [OF d(3)])
  have "uvMatrix b = Some ((Fin (1 / 2 ^ d), Fin 0, round_float (of_nat mx / 2 ^ d)),
            (Fin 0, Fin (1 / 2 ^ d), round_float (1 - 1 / 2 ^ d - of_nat my / 2 ^ d)),
            (Fin 0, Fin 0, Fin 1))"
    using assms(1)
    by (simp add: uvMatrix_def Let_def p sh mx_def [symmetric] my_def [symmetric]
        sc tx ty0 om ty fs to_float_def del: of_nat_unat)
  then show ?thesis by (simp add: Let_def d_def [symmetric] mx_def my_def del: of_nat_unat)
qed

lemma uvMatrix_exact:
  assumes "0 < depth b" "depth b \<le> 24"
  shows "uvMatrix b =
    Some (let d = nat (depth b); s = 1 / 2 ^ d;
              lx = xidx (localId (orig b)); ly = yidx (localId (orig b));
              tx = s * of_nat (unat (lx - push_bit d (drop_bit d lx)));
              ty = 1 - s - s * of_nat (unat (ly - push_bit d (drop_bit d ly)))
          in ((Fin s, Fin 0, Fin tx),
              (Fin 0, Fin s, Fin ty),
              (Fin 0, Fin 0, Fin 1)))"
proof -
  have d: "nat (depth b) \<le> 24" using assms by simp
  from assms have "depth b \<le> 30" by simp
  from uvMatrix_pos [OF assms(1) this] show ?thesis
    by (simp add: Let_def round_float_dyadic [OF unat_low_bits d]
        round_float_ty [OF unat_low_bits d] del: of_nat_unat)
qed

text \<open>
  With depth 31 the value of \<^verbatim>\<open>1 << dep\<close> is \<open>- 2^31\<close> and the scale is negative; the
  operations on \<^verbatim>\<open>double\<close> are exact here as well.
\<close>

lemma uvMatrix_31:
  assumes "depth b = 31"
  shows "uvMatrix b =
    Some (let s = - (1 / 2 ^ 31);
              lx = xidx (localId (orig b)); ly = yidx (localId (orig b));
              tx = s * of_nat (unat (lx - push_bit 31 (drop_bit 31 lx)));
              ty = 1 - s - s * of_nat (unat (ly - push_bit 31 (drop_bit 31 ly)))
          in ((Fin s, Fin 0, round_float tx),
              (Fin 0, Fin s, round_float ty),
              (Fin 0, Fin 0, Fin 1)))"
proof -
  define d :: nat where "d = 31"
  define mx where "mx = unat (xidx (localId (orig b)) - push_bit d (drop_bit d (xidx (localId (orig b)))))"
  define my where "my = unat (yidx (localId (orig b)) - push_bit d (drop_bit d (yidx (localId (orig b)))))"
  define s :: rat where "s = - (1 / 2 ^ d)"
  have d: "d \<le> 1074" "d \<le> 149" "depth b = int d" using assms by (simp_all add: d_def)
  have mx: "mx < 2 ^ d" and my: "my < 2 ^ d" by (simp_all add: mx_def my_def unat_low_bits)
  have p: "one_shl (depth b) = Some (- (2 ^ d))" using assms by (simp add: one_shl_def d_def)
  have sh: "shr32 w (depth b) = Some (drop_bit d w)" "shl32 w (depth b) = Some (push_bit d w)"
    for w using assms by (simp_all add: shr32_def shl32_def d_def)
  have big: "(2 :: int) ^ d < 2 ^ 53" by (simp add: d_def)
  have "int mx < int (2 ^ d)" using mx by (simp only: of_nat_less_iff)
  then have imx: "int mx < 2 ^ d" by simp
  have "int my < int (2 ^ d)" using my by (simp only: of_nat_less_iff)
  then have imy: "int my < 2 ^ d" by simp
  have amx: "\<bar>- int mx\<bar> < 2 ^ 53" using imx big by linarith
  have amy: "\<bar>- int my\<bar> < 2 ^ 53" using imy big by linarith
  have "(2 :: int) ^ d + 1 + 2 ^ d < 2 ^ 53" by (simp add: d_def)
  with imy have asum: "\<bar>2 ^ d + 1 + int my\<bar> < 2 ^ 53" by linarith
  have e1: "s = of_int (- 1) / 2 ^ d" by (simp add: s_def)
  have e2: "s * of_nat mx = of_int (- int mx) / 2 ^ d" by (simp add: s_def)
  have e2': "s * of_nat my = of_int (- int my) / 2 ^ d" by (simp add: s_def)
  have e3: "1 - s = of_int (2 ^ d + 1) / 2 ^ d" by (simp add: s_def field_simps)
  have e4: "1 - s - s * of_nat my = of_int (2 ^ d + 1 + int my) / 2 ^ d"
    by (simp add: s_def field_simps)
  have r1: "round_double s = Fin s"
    unfolding e1 by (rule round_double_dyadic_int [OF _ d(1)]) simp
  have r2: "round_double (s * of_nat mx) = Fin (s * of_nat mx)"
    unfolding e2 by (rule round_double_dyadic_int [OF amx d(1)])
  have r2': "round_double (s * of_nat my) = Fin (s * of_nat my)"
    unfolding e2' by (rule round_double_dyadic_int [OF amy d(1)])
  have r3: "round_double (1 - s) = Fin (1 - s)"
    unfolding e3 by (rule round_double_dyadic_int [OF _ d(1)]) (simp add: d_def)
  have r4: "round_double (1 - s - s * of_nat my) = Fin (1 - s - s * of_nat my)"
    unfolding e4 by (rule round_double_dyadic_int [OF asum d(1)])
  have r5: "round_float s = Fin s"
    unfolding e1 by (rule round_float_dyadic_int [OF _ d(2)]) simp
  have sc: "double_div 1 (of_int (- (2 ^ d))) = Fin s"
  proof -
    have "(1 :: rat) / of_int (- (2 ^ d)) = s" by (simp add: s_def)
    with r1 show ?thesis by (simp add: double_div_def)
  qed
  have tx: "double_mul (Fin s) (Fin (of_nat mx)) = Fin (s * of_nat mx)"
    using r2 by (simp add: double_mul_def)
  have ty0: "double_mul (Fin s) (Fin (of_nat my)) = Fin (s * of_nat my)"
    using r2' by (simp add: double_mul_def)
  have om: "double_sub (Fin 1) (Fin s) = Fin (1 - s)"
    using r3 by (simp add: double_sub_def)
  have ty: "double_sub (Fin (1 - s)) (Fin (s * of_nat my)) = Fin (1 - s - s * of_nat my)"
    using r4 by (simp add: double_sub_def)
  have nz: "depth b \<noteq> 0" using assms by simp
  have "uvMatrix b = Some ((Fin s, Fin 0, round_float (s * of_nat mx)),
            (Fin 0, Fin s, round_float (1 - s - s * of_nat my)),
            (Fin 0, Fin 0, Fin 1))"
    unfolding uvMatrix_def Let_def p sh
    by (simp only: nz if_False Option.bind.bind_lunit mx_def [symmetric] my_def [symmetric]
        sc tx ty0 om ty to_float_def fnum.case r5)
  then show ?thesis
    unfolding Let_def s_def mx_def my_def d_def .
qed

lemma prepare_past_range_check:
  assumes b: "getBoundInfo impl (id' this) = Some bnd"
    and r: "prepare nodeInfo impl ops subMesh prio this = Some (v, this', ops')"
    and lo: "uint (lmin (lodRange bnd)) \<le> uint (lod (nodeId nodeInfo))"
    and inx: "\<not> (let k = nat (uint (lod (nodeId nodeInfo)) - uint (lmin (lodRange bnd)));
                 sx = drop_bit k (xidx (nodeId nodeInfo));
                 sy = drop_bit k (yidx (nodeId nodeInfo))
             in sx < fst (ll (tileRange bnd)) \<or> fst (ur (tileRange bnd)) < sx
              \<or> sy < snd (ll (tileRange bnd)) \<or> snd (ur (tileRange bnd)) < sy)"
  shows "depth this' = max 0 (uint (lod (nodeId nodeInfo)) - uint (lmax (lodRange bnd)))
       \<and> orig this' = \<lparr>tileId = nodeId nodeInfo, localId = local nodeInfo, subMeshIndex = subMesh\<rparr>"
  using b r lo inx
  by (auto simp: prepare_def Let_def shr32_def max_def
      split: if_splits option.splits Validity.splits bind_splits)

lemma ex_deep_prepare:
  "\<exists>this'. prepare \<lparr>nodeId = \<lparr>lod = 25, xidx = 33554431, yidx = 0\<rparr>,
                     local = \<lparr>lod = 25, xidx = 33554431, yidx = 0\<rparr>\<rparr>
              (ex_impl\<lparr>getBoundInfo := (\<lambda>n. Some (ex_bound\<lparr>lodRange := \<lparr>lmin = 0, lmax = 0\<rparr>\<rparr>))\<rparr>)
              [] 0 1 ex_param = Some (Valid, this', [])
     \<and> depth this' = 25
     \<and> localId (orig this') = \<lparr>lod = 25, xidx = 33554431, yidx = 0\<rparr>"
  by (simp add: prepare_def ex_impl_def ex_bound_def ex_param_def shr32_def shiftVars_def Let_def)

lemma round_float_below_one: "round_float (33554431 / 33554432) = Fin 1"
  by code_simp

text \<open>
  C1, as stated, fails for a depth above 24, where the entries of the matrix, which are
  of type \<^verbatim>\<open>float\<close>, cannot hold the offsets: for the tile \<open>(25, 2^25 - 1, 0)\<close> under
  \<open>lodRange.max = 0\<close> the depth is 25 and \<open>tx = s * (x - ((x >> 25) << 25))\<close> is
  \<open>33554431/33554432\<close>, but the entry of the matrix is 1; likewise \<open>ty\<close> is
  \<open>1 - s = 33554431/33554432\<close> and the entry is 1.
\<close>

theorem uvMatrix_depth25_counterexample:
  "\<exists>this'. prepare \<lparr>nodeId = \<lparr>lod = 25, xidx = 33554431, yidx = 0\<rparr>,
                     local = \<lparr>lod = 25, xidx = 33554431, yidx = 0\<rparr>\<rparr>
              (ex_impl\<lparr>getBoundInfo := (\<lambda>n. Some (ex_bound\<lparr>lodRange := \<lparr>lmin = 0, lmax = 0\<rparr>\<rparr>))\<rparr>)
              [] 0 1 ex_param = Some (Valid, this', [])
     \<and> depth this' = 25
     \<and> uvMatrix this' = Some ((Fin (1 / 2 ^ 25), Fin 0, Fin 1),
                               (Fin 0, Fin (1 / 2 ^ 25), Fin 1),
                               (Fin 0, Fin 0, Fin 1))
     \<and> (1 / 2 ^ 25 :: rat) * of_nat (unat ((33554431 :: 32 word)
            - push_bit 25 (drop_bit 25 (33554431 :: 32 word)))) = 33554431 / 33554432
     \<and> (1 :: rat) - 1 / 2 ^ 25 - 1 / 2 ^ 25 * of_nat (unat ((0 :: 32 word)
            - push_bit 25 (drop_bit 25 (0 :: 32 word)))) = 33554431 / 33554432"
proof -
  from ex_deep_prepare obtain this' where
    r: "prepare \<lparr>nodeId = \<lparr>lod = 25, xidx = 33554431, yidx = 0\<rparr>,
                     local = \<lparr>lod = 25, xidx = 33554431, yidx = 0\<rparr>\<rparr>
              (ex_impl\<lparr>getBoundInfo := (\<lambda>n. Some (ex_bound\<lparr>lodRange := \<lparr>lmin = 0, lmax = 0\<rparr>\<rparr>))\<rparr>)
              [] 0 1 ex_param = Some (Valid, this', [])"
    and d: "depth this' = 25"
    and l: "localId (orig this') = \<lparr>lod = 25, xidx = 33554431, yidx = 0\<rparr>"
    by blast
  have lx: "unat ((33554431 :: 32 word) - push_bit 25 (drop_bit 25 (33554431 :: 32 word)))
              = 33554431"
    by (simp add: low_bits unsigned_take_bit_eq take_bit_eq_mod)
  have ly: "unat ((0 :: 32 word) - push_bit 25 (drop_bit 25 (0 :: 32 word))) = 0"
    by simp
  have h: "0 < depth this'" "depth this' \<le> 30" using d by simp_all
  have m: "uvMatrix this' = Some ((Fin (1 / 2 ^ 25), Fin 0, Fin 1),
                               (Fin 0, Fin (1 / 2 ^ 25), Fin 1),
                               (Fin 0, Fin 0, Fin 1))"
    using uvMatrix_pos [OF h] by (simp add: d l lx Let_def round_float_below_one)
  from r d m lx ly show ?thesis by (intro exI [where x = this'] conjI) simp_all
qed


text \<open>
  C1, amended.  Whenever \<^verbatim>\<open>prepare\<close> finds the bound layer and the tile passes the range
  check, it has set \<open>depth = max(0, lod - lodRange.max)\<close>.  With depth 0 the UV matrix
  of the entry is the identity.  With \<open>0 < depth \<le> 30\<close> (the range in which \<^verbatim>\<open>1 << depth\<close>
  is \<open>2^depth\<close>) it is \<open>[[s,0,tx'],[0,s,ty'],[0,0,1]]\<close>, where \<open>s = 1/2^depth\<close> and
  \<open>tx'\<close>, \<open>ty'\<close> are the values nearest to \<open>tx = s * (x - ((x >> depth) << depth))\<close> and
  \<open>ty = 1 - s - s * (y - ((y >> depth) << depth))\<close> that a \<^verbatim>\<open>float\<close> holds; the
  computation on \<^verbatim>\<open>double\<close> before the conversion is exact.  With \<open>0 < depth \<le> 24\<close> the
  entries are \<open>tx\<close> and \<open>ty\<close> themselves.  With depth 31, where \<^verbatim>\<open>1 << depth\<close> is \<open>- 2^31\<close>,
  the same holds with \<open>s = - 1/2^31\<close>.  \<open>x\<close> and \<open>y\<close> are the coordinates of the
  tile's local identifier (the tile identifier itself when the reference frame has a
  single root).  The witness is the tile \<open>(10, 400, 300)\<close> under \<open>lodRange.max = 8\<close>:
  depth 2, scale 1/4, \<open>tx = 0\<close>, \<open>ty = 3/4\<close>.
\<close>

theorem prepare_depth_uvMatrix:
  assumes b: "getBoundInfo impl (id' this) = Some bnd"
    and r: "prepare nodeInfo impl ops subMesh prio this = Some (v, this', ops')"
    and lo: "uint (lmin (lodRange bnd)) \<le> uint (lod (nodeId nodeInfo))"
    and inx: "\<not> (let k = nat (uint (lod (nodeId nodeInfo)) - uint (lmin (lodRange bnd)));
                 sx = drop_bit k (xidx (nodeId nodeInfo));
                 sy = drop_bit k (yidx (nodeId nodeInfo))
             in sx < fst (ll (tileRange bnd)) \<or> fst (ur (tileRange bnd)) < sx
              \<or> sy < snd (ll (tileRange bnd)) \<or> snd (ur (tileRange bnd)) < sy)"
  shows "depth this' = max 0 (uint (lod (nodeId nodeInfo)) - uint (lmax (lodRange bnd)))
       \<and> (depth this' = 0 \<longrightarrow>
            uvMatrix this' = Some ((Fin 1, Fin 0, Fin 0), (Fin 0, Fin 1, Fin 0), (Fin 0, Fin 0, Fin 1)))
       \<and> (0 < depth this' \<and> depth this' \<le> 30 \<longrightarrow>
            uvMatrix this' =
              Some (let d = nat (depth this'); s = 1 / 2 ^ d;
                        lx = xidx (local nodeInfo); ly = yidx (local nodeInfo);
                        tx = s * of_nat (unat (lx - push_bit d (drop_bit d lx)));
                        ty = 1 - s - s * of_nat (unat (ly - push_bit d (drop_bit d ly)))
                    in ((Fin s, Fin 0, round_float tx),
                        (Fin 0, Fin s, round_float ty),
                        (Fin 0, Fin 0, Fin 1))))
       \<and> (0 < depth this' \<and> depth this' \<le> 24 \<longrightarrow>
            uvMatrix this' =
              Some (let d = nat (depth this'); s = 1 / 2 ^ d;
                        lx = xidx (local nodeInfo); ly = yidx (local nodeInfo);
                        tx = s * of_nat (unat (lx - push_bit d (drop_bit d lx)));
                        ty = 1 - s - s * of_nat (unat (ly - push_bit d (drop_bit d ly)))
                    in ((Fin s, Fin 0, Fin tx),
                        (Fin 0, Fin s, Fin ty),
                        (Fin 0, Fin 0, Fin 1))))
       \<and> (depth this' = 31 \<longrightarrow>
            uvMatrix this' =
              Some (let s = - (1 / 2 ^ 31);
                        lx = xidx (local nodeInfo); ly = yidx (local nodeInfo);
                        tx = s * of_nat (unat (lx - push_bit 31 (drop_bit 31 lx)));
                        ty = 1 - s - s * of_nat (unat (ly - push_bit 31 (drop_bit 31 ly)))
                    in ((Fin s, Fin 0, round_float tx),
                        (Fin 0, Fin s, round_float ty),
                        (Fin 0, Fin 0, Fin 1))))"
proof -
  from prepare_past_range_check [OF b r lo inx]
  have d: "depth this' = max 0 (uint (lod (nodeId nodeInfo)) - uint (lmax (lodRange bnd)))"
    and o: "orig this' = \<lparr>tileId = nodeId nodeInfo, localId = local nodeInfo, subMeshIndex = subMesh\<rparr>"
    by simp_all
  have z: "depth this' = 0 \<longrightarrow>
      uvMatrix this' = Some ((Fin 1, Fin 0, Fin 0), (Fin 0, Fin 1, Fin 0), (Fin 0, Fin 0, Fin 1))"
    using uvMatrix_depth0 [of this'] by (simp add: identity3_def)
  have p: "0 < depth this' \<and> depth this' \<le> 30 \<longrightarrow>
            uvMatrix this' =
              Some (let d = nat (depth this'); s = 1 / 2 ^ d;
                        lx = xidx (local nodeInfo); ly = yidx (local nodeInfo);
                        tx = s * of_nat (unat (lx - push_bit d (drop_bit d lx)));
                        ty = 1 - s - s * of_nat (unat (ly - push_bit d (drop_bit d ly)))
                    in ((Fin s, Fin 0, round_float tx),
                        (Fin 0, Fin s, round_float ty),
                        (Fin 0, Fin 0, Fin 1)))"
    using uvMatrix_pos [of this'] o by simp
  have e: "0 < depth this' \<and> depth this' \<le> 24 \<longrightarrow>
            uvMatrix this' =
              Some (let d = nat (depth this'); s = 1 / 2 ^ d;
                        lx = xidx (local nodeInfo); ly = yidx (local nodeInfo);
                        tx = s * of_nat (unat (lx - push_bit d (drop_bit d lx)));
                        ty = 1 - s - s * of_nat (unat (ly - push_bit d (drop_bit d ly)))
                    in ((Fin s, Fin 0, Fin tx),
                        (Fin 0, Fin s, Fin ty),
                        (Fin 0, Fin 0, Fin 1)))"
    using uvMatrix_exact [of this'] o by simp
  have n: "depth this' = 31 \<longrightarrow>
            uvMatrix this' =
              Some (let s = - (1 / 2 ^ 31);
                        lx = xidx (local nodeInfo); ly = yidx (local nodeInfo);
                        tx = s * of_nat (unat (lx - push_bit 31 (drop_bit 31 lx)));
                        ty = 1 - s - s * of_nat (unat (ly - push_bit 31 (drop_bit 31 ly)))
                    in ((Fin s, Fin 0, round_float tx),
                        (Fin 0, Fin s, round_float ty),
                        (Fin 0, Fin 0, Fin 1)))"
    using uvMatrix_31 [of this'] o by simp
  from d z p e n show ?thesis by blast
qed

lemma round_float_examples:
  "round_float (- (5 / 2147483648)) = Fin (- (5 / 2147483648))"
  "round_float (536870913 / 536870912) = Fin 1"
  by code_simp+

text \<open>
  The witness: the tile \<open>(10, 400, 300)\<close> under \<open>lodRange.max = 8\<close> (depth 2), the tile
  \<open>(8, 100, 50)\<close> under the same layer (depth 0), the tile \<open>(25, 2^25 - 1, 0)\<close> under
  \<open>lodRange.max = 0\<close> (depth 25, both offsets rounded to 1) and the tile \<open>(31, 5, 3)\<close>
  under \<open>lodRange.max = 0\<close> (depth 31).
\<close>

theorem prepare_depth_uvMatrix_witness:
  "(\<exists>this'. prepare \<lparr>nodeId = ex_tile, local = ex_tile\<rparr> ex_impl [] 0 1 ex_param
               = Some (Valid, this', [])
      \<and> depth this' = 2
      \<and> uvMatrix this' = Some ((Fin (1/4), Fin 0, Fin 0), (Fin 0, Fin (1/4), Fin (3/4)),
                                (Fin 0, Fin 0, Fin 1)))
 \<and> (\<exists>this'. prepare \<lparr>nodeId = \<lparr>lod = 8, xidx = 100, yidx = 50\<rparr>,
                      local = \<lparr>lod = 8, xidx = 100, yidx = 50\<rparr>\<rparr> ex_impl [] 0 1 ex_param
               = Some (Valid, this', [])
      \<and> depth this' = 0
      \<and> uvMatrix this' = Some ((Fin 1, Fin 0, Fin 0), (Fin 0, Fin 1, Fin 0), (Fin 0, Fin 0, Fin 1)))
 \<and> (\<exists>this'. prepare \<lparr>nodeId = \<lparr>lod = 25, xidx = 33554431, yidx = 0\<rparr>,
                      local = \<lparr>lod = 25, xidx = 33554431, yidx = 0\<rparr>\<rparr>
               (ex_impl\<lparr>getBoundInfo := (\<lambda>n. Some (ex_bound\<lparr>lodRange := \<lparr>lmin = 0, lmax = 0\<rparr>\<rparr>))\<rparr>)
               [] 0 1 ex_param = Some (Valid, this', [])
      \<and> depth this' = 25
      \<and> uvMatrix this' = Some ((Fin (1 / 2 ^ 25), Fin 0, Fin 1),
                                (Fin 0, Fin (1 / 2 ^ 25), Fin 1),
                                (Fin 0, Fin 0, Fin 1)))
 \<and> (\<exists>this'. prepare \<lparr>nodeId = \<lparr>lod = 31, xidx = 5, yidx = 3\<rparr>,
                      local = \<lparr>lod = 31, xidx = 5, yidx = 3\<rparr>\<rparr>
               (ex_impl\<lparr>getBoundInfo := (\<lambda>n. Some (ex_bound\<lparr>lodRange := \<lparr>lmin = 0, lmax = 0\<rparr>\<rparr>))\<rparr>)
               [] 0 1 ex_param = Some (Valid, this', [])
      \<and> depth this' = 31
      \<and> uvMatrix this' = Some ((Fin (- (1 / 2 ^ 31)), Fin 0, Fin (- (5 / 2 ^ 31))),
                                (Fin 0, Fin (- (1 / 2 ^ 31)), Fin 1),
                                (Fin 0, Fin 0, Fin 1)))"
proof -
  let ?bnd0 = "ex_bound\<lparr>lodRange := \<lparr>lmin = 0, lmax = 0\<rparr>\<rparr>"
  let ?impl0 = "ex_impl\<lparr>getBoundInfo := (\<lambda>n. Some ?bnd0)\<rparr>"
  let ?n2 = "\<lparr>nodeId = ex_tile, local = ex_tile\<rparr>"
  let ?n0 = "\<lparr>nodeId = \<lparr>lod = 8, xidx = 100, yidx = 50\<rparr>, local = \<lparr>lod = 8, xidx = 100, yidx = 50\<rparr>\<rparr>"
  let ?n25 = "\<lparr>nodeId = \<lparr>lod = 25, xidx = 33554431, yidx = 0\<rparr>,
               local = \<lparr>lod = 25, xidx = 33554431, yidx = 0\<rparr>\<rparr>"
  let ?n31 = "\<lparr>nodeId = \<lparr>lod = 31, xidx = 5, yidx = 3\<rparr>, local = \<lparr>lod = 31, xidx = 5, yidx = 3\<rparr>\<rparr>"
  have b: "getBoundInfo ex_impl (id' ex_param) = Some ex_bound"
    and b0: "getBoundInfo ?impl0 (id' ex_param) = Some ?bnd0"
    by (simp_all add: ex_impl_def)
  note run = prepare_def ex_impl_def ex_bound_def ex_tile_def ex_param_def shr32_def
        shiftVars_def Let_def
  obtain t2 where r2: "prepare ?n2 ex_impl [] 0 1 ex_param = Some (Valid, t2, [])"
    by (simp add: run)
  obtain t0 where r0: "prepare ?n0 ex_impl [] 0 1 ex_param = Some (Valid, t0, [])"
    by (simp add: run)
  obtain t25 where r25: "prepare ?n25 ?impl0 [] 0 1 ex_param = Some (Valid, t25, [])"
    by (simp add: run)
  obtain t31 where r31: "prepare ?n31 ?impl0 [] 0 1 ex_param = Some (Valid, t31, [])"
    by (simp add: run)
  have lo: "uint (lmin (lodRange ex_bound)) \<le> uint (lod (nodeId n))"
    and lo0: "uint (lmin (lodRange ?bnd0)) \<le> uint (lod (nodeId n))" for n
    by (simp_all add: ex_bound_def)
  have inx2: "\<not> (let k = nat (uint (lod (nodeId ?n2)) - uint (lmin (lodRange ex_bound)));
                 sx = drop_bit k (xidx (nodeId ?n2));
                 sy = drop_bit k (yidx (nodeId ?n2))
             in sx < fst (ll (tileRange ex_bound)) \<or> fst (ur (tileRange ex_bound)) < sx
              \<or> sy < snd (ll (tileRange ex_bound)) \<or> snd (ur (tileRange ex_bound)) < sy)"
    by (simp add: ex_bound_def ex_tile_def)
  have inx0: "\<not> (let k = nat (uint (lod (nodeId ?n0)) - uint (lmin (lodRange ex_bound)));
                 sx = drop_bit k (xidx (nodeId ?n0));
                 sy = drop_bit k (yidx (nodeId ?n0))
             in sx < fst (ll (tileRange ex_bound)) \<or> fst (ur (tileRange ex_bound)) < sx
              \<or> sy < snd (ll (tileRange ex_bound)) \<or> snd (ur (tileRange ex_bound)) < sy)"
    by (simp add: ex_bound_def)
  have inx25: "\<not> (let k = nat (uint (lod (nodeId ?n25)) - uint (lmin (lodRange ?bnd0)));
                 sx = drop_bit k (xidx (nodeId ?n25));
                 sy = drop_bit k (yidx (nodeId ?n25))
             in sx < fst (ll (tileRange ?bnd0)) \<or> fst (ur (tileRange ?bnd0)) < sx
              \<or> sy < snd (ll (tileRange ?bnd0)) \<or> snd (ur (tileRange ?bnd0)) < sy)"
    by (simp add: ex_bound_def)
  have inx31: "\<not> (let k = nat (uint (lod (nodeId ?n31)) - uint (lmin (lodRange ?bnd0)));
                 sx = drop_bit k (xidx (nodeId ?n31));
                 sy = drop_bit k (yidx (nodeId ?n31))
             in sx < fst (ll (tileRange ?bnd0)) \<or> fst (ur (tileRange ?bnd0)) < sx
              \<or> sy < snd (ll (tileRange ?bnd0)) \<or> snd (ur (tileRange ?bnd0)) < sy)"
    by (simp add: ex_bound_def)
  note c2 = prepare_depth_uvMatrix [OF b r2 lo inx2]
  note c0 = prepare_depth_uvMatrix [OF b r0 lo inx0]
  note c25 = prepare_depth_uvMatrix [OF b0 r25 lo0 inx25]
  note c31 = prepare_depth_uvMatrix [OF b0 r31 lo0 inx31]
  from c2 have "depth t2 = max 0 (uint (lod (nodeId ?n2)) - uint (lmax (lodRange ex_bound)))"
    by blast
  then have d2: "depth t2 = 2" by (simp add: ex_bound_def ex_tile_def)
  from c0 have "depth t0 = max 0 (uint (lod (nodeId ?n0)) - uint (lmax (lodRange ex_bound)))"
    by blast
  then have d0: "depth t0 = 0" by (simp add: ex_bound_def)
  from c25 have "depth t25 = max 0 (uint (lod (nodeId ?n25)) - uint (lmax (lodRange ?bnd0)))"
    by blast
  then have d25: "depth t25 = 25" by simp
  from c31 have "depth t31 = max 0 (uint (lod (nodeId ?n31)) - uint (lmax (lodRange ?bnd0)))"
    by blast
  then have d31: "depth t31 = 31" by simp
  from c2 have "0 < depth t2 \<and> depth t2 \<le> 24 \<longrightarrow>
            uvMatrix t2 =
              Some (let d = nat (depth t2); s = 1 / 2 ^ d;
                        lx = xidx (local ?n2); ly = yidx (local ?n2);
                        tx = s * of_nat (unat (lx - push_bit d (drop_bit d lx)));
                        ty = 1 - s - s * of_nat (unat (ly - push_bit d (drop_bit d ly)))
                    in ((Fin s, Fin 0, Fin tx), (Fin 0, Fin s, Fin ty), (Fin 0, Fin 0, Fin 1)))"
    by blast
  with d2 have m2: "uvMatrix t2 = Some ((Fin (1/4), Fin 0, Fin 0), (Fin 0, Fin (1/4), Fin (3/4)),
                               (Fin 0, Fin 0, Fin 1))"
    by (simp add: ex_tile_def Let_def)
  from c0 have "depth t0 = 0 \<longrightarrow>
      uvMatrix t0 = Some ((Fin 1, Fin 0, Fin 0), (Fin 0, Fin 1, Fin 0), (Fin 0, Fin 0, Fin 1))"
    by blast
  with d0 have m0: "uvMatrix t0
      = Some ((Fin 1, Fin 0, Fin 0), (Fin 0, Fin 1, Fin 0), (Fin 0, Fin 0, Fin 1))"
    by simp
  have lx: "unat ((33554431 :: 32 word) - push_bit 25 (drop_bit 25 (33554431 :: 32 word)))
              = 33554431"
    by (simp add: low_bits unsigned_take_bit_eq take_bit_eq_mod)
  from c25 have "0 < depth t25 \<and> depth t25 \<le> 30 \<longrightarrow>
            uvMatrix t25 =
              Some (let d = nat (depth t25); s = 1 / 2 ^ d;
                        lx = xidx (local ?n25); ly = yidx (local ?n25);
                        tx = s * of_nat (unat (lx - push_bit d (drop_bit d lx)));
                        ty = 1 - s - s * of_nat (unat (ly - push_bit d (drop_bit d ly)))
                    in ((Fin s, Fin 0, round_float tx), (Fin 0, Fin s, round_float ty),
                        (Fin 0, Fin 0, Fin 1)))"
    by blast
  with d25 have m25: "uvMatrix t25 = Some ((Fin (1 / 2 ^ 25), Fin 0, Fin 1),
                                (Fin 0, Fin (1 / 2 ^ 25), Fin 1), (Fin 0, Fin 0, Fin 1))"
    by (simp add: Let_def lx round_float_below_one)
  have l5: "unat ((5 :: 32 word) - push_bit 31 (drop_bit 31 (5 :: 32 word))) = 5"
    and l3: "unat ((3 :: 32 word) - push_bit 31 (drop_bit 31 (3 :: 32 word))) = 3"
    by (simp_all add: low_bits unsigned_take_bit_eq take_bit_eq_mod)
  from c31 have "depth t31 = 31 \<longrightarrow>
            uvMatrix t31 =
              Some (let s = - (1 / 2 ^ 31);
                        lx = xidx (local ?n31); ly = yidx (local ?n31);
                        tx = s * of_nat (unat (lx - push_bit 31 (drop_bit 31 lx)));
                        ty = 1 - s - s * of_nat (unat (ly - push_bit 31 (drop_bit 31 ly)))
                    in ((Fin s, Fin 0, round_float tx), (Fin 0, Fin s, round_float ty),
                        (Fin 0, Fin 0, Fin 1)))"
    by blast
  with d31 have m31: "uvMatrix t31 = Some ((Fin (- (1 / 2 ^ 31)), Fin 0, Fin (- (5 / 2 ^ 31))),
                                (Fin 0, Fin (- (1 / 2 ^ 31)), Fin 1), (Fin 0, Fin 0, Fin 1))"
    by (simp add: Let_def l5 l3 round_float_examples)
  from r2 d2 m2 r0 d0 m0 r25 d25 m25 r31 d31 m31 show ?thesis by blast
qed


text \<open>
  C7.  When the bound layer is known, \<^verbatim>\<open>prepare\<close> returns \<open>Invalid\<close> for every tile with
  \<open>lod < lodRange.min\<close>, and for every tile whose coordinates shifted right by
  \<open>lod - lodRange.min\<close> (a defined shift, below 32) fall outside \<open>tileRange\<close> in
  either axis.  Only the \<open>bound\<close> field of the entry has changed and the log of
  resource operations is the one before the call: no bound metatile has been requested.
\<close>

theorem prepare_rejects_out_of_range:
  assumes b: "getBoundInfo impl (id' this) = Some bnd"
    and out: "uint (lod (nodeId nodeInfo)) < uint (lmin (lodRange bnd))
      \<or> (uint (lod (nodeId nodeInfo)) - uint (lmin (lodRange bnd)) < 32
         \<and> (let k = nat (uint (lod (nodeId nodeInfo)) - uint (lmin (lodRange bnd)));
                 sx = drop_bit k (xidx (nodeId nodeInfo));
                 sy = drop_bit k (yidx (nodeId nodeInfo))
             in sx < fst (ll (tileRange bnd)) \<or> fst (ur (tileRange bnd)) < sx
              \<or> sy < snd (ll (tileRange bnd)) \<or> snd (ur (tileRange bnd)) < sy))"
  shows "prepare nodeInfo impl ops subMesh prio this
           = Some (Invalid, this\<lparr>bound := Some bnd\<rparr>, ops)"
proof (cases "uint (lod (nodeId nodeInfo)) < uint (lmin (lodRange bnd))")
  case True
  then show ?thesis using b by (simp add: prepare_def Let_def)
next
  case False
  with out have sh: "uint (lod (nodeId nodeInfo)) - uint (lmin (lodRange bnd)) < 32"
    and rng: "(let k = nat (uint (lod (nodeId nodeInfo)) - uint (lmin (lodRange bnd)));
                 sx = drop_bit k (xidx (nodeId nodeInfo));
                 sy = drop_bit k (yidx (nodeId nodeInfo))
             in sx < fst (ll (tileRange bnd)) \<or> fst (ur (tileRange bnd)) < sx
              \<or> sy < snd (ll (tileRange bnd)) \<or> snd (ur (tileRange bnd)) < sy)"
    by auto
  from False have nn: "0 \<le> uint (lod (nodeId nodeInfo)) - uint (lmin (lodRange bnd))" by simp
  show ?thesis
    using b False rng
    by (auto simp: prepare_def Let_def shr32_Some [OF nn sh])
qed


theorem prepare_rejects_out_of_range_witness:
  "prepare \<lparr>nodeId = \<lparr>lod = 3, xidx = 2, yidx = 2\<rparr>, local = \<lparr>lod = 3, xidx = 2, yidx = 2\<rparr>\<rparr>
      (ex_impl\<lparr>getBoundInfo := (\<lambda>n. Some (ex_bound\<lparr>lodRange := \<lparr>lmin = 4, lmax = 8\<rparr>\<rparr>))\<rparr>)
      [] 0 1 ex_param
    = Some (Invalid, ex_param\<lparr>bound := Some (ex_bound\<lparr>lodRange := \<lparr>lmin = 4, lmax = 8\<rparr>\<rparr>)\<rparr>, [])
  \<and> prepare \<lparr>nodeId = \<lparr>lod = 10, xidx = 1024, yidx = 300\<rparr>, local = \<lparr>lod = 10, xidx = 1024, yidx = 300\<rparr>\<rparr>
      ex_impl [] 0 1 ex_param
    = Some (Invalid, ex_param\<lparr>bound := Some ex_bound\<rparr>, [])"
proof -
  have 1: "prepare \<lparr>nodeId = \<lparr>lod = 3, xidx = 2, yidx = 2\<rparr>, local = \<lparr>lod = 3, xidx = 2, yidx = 2\<rparr>\<rparr>
      (ex_impl\<lparr>getBoundInfo := (\<lambda>n. Some (ex_bound\<lparr>lodRange := \<lparr>lmin = 4, lmax = 8\<rparr>\<rparr>))\<rparr>)
      [] 0 1 ex_param
    = Some (Invalid, ex_param\<lparr>bound := Some (ex_bound\<lparr>lodRange := \<lparr>lmin = 4, lmax = 8\<rparr>\<rparr>)\<rparr>, [])"
    by (rule prepare_rejects_out_of_range) simp_all
  have 2: "prepare \<lparr>nodeId = \<lparr>lod = 10, xidx = 1024, yidx = 300\<rparr>, local = \<lparr>lod = 10, xidx = 1024, yidx = 300\<rparr>\<rparr>
      ex_impl [] 0 1 ex_param
    = Some (Invalid, ex_param\<lparr>bound := Some ex_bound\<rparr>, [])"
    by (rule prepare_rejects_out_of_range) (simp_all add: ex_impl_def ex_bound_def)
  from 1 2 show ?thesis by blast
qed
section \<open>Properties of the draw determination\<close>

lemma nd_upd [simp]: "nd (upd f trav) = f (nd trav)"
  by (simp add: upd_def)

lemma childs_upd [simp]: "childs (upd f trav) = childs trav"
  by (simp add: upd_def)

lemma rendersEmpty_upd:
  "opaque (f (nd trav)) = opaque (nd trav) \<Longrightarrow> transparent' (f (nd trav)) = transparent' (nd trav)
   \<Longrightarrow> geodata (f (nd trav)) = geodata (nd trav) \<Longrightarrow> colliders (f (nd trav)) = colliders (nd trav)
   \<Longrightarrow> rendersEmpty (upd f trav) = rendersEmpty trav"
  by (simp add: rendersEmpty_def)


text \<open>
  C10.  On a node (with a metanode) that is already determined, or whose surface is
  null, \<^verbatim>\<open>travDetermineDraws\<close> returns the current \<open>determined\<close> flag and leaves the node
  as it is: the only effect is the call of \<^verbatim>\<open>touchDraws\<close>.  Calling it again gives the
  same flag and the same node, so a node without a surface does not become determined.
\<close>

theorem travDetermineDraws_idempotent:
  assumes "meta (nd trav) \<noteq> None"
    and "surface (nd trav) = None \<or> determined (nd trav)"
  shows "travDetermineDraws cam st par trav
           = Some (determined (nd trav), emit [TouchDraws trav] st, trav)
       \<and> (do { (r, st1, trav1) \<leftarrow> travDetermineDraws cam st par trav;
                travDetermineDraws cam st1 par trav1 })
           = Some (determined (nd trav), emit [TouchDraws trav] (emit [TouchDraws trav] st), trav)"
proof -
  have one: "\<And>s. travDetermineDraws cam s par trav
           = Some (determined (nd trav), emit [TouchDraws trav] s, trav)"
    using assms by (auto simp: travDetermineDraws_def assert'_def)
  show ?thesis by (simp add: one)
qed


theorem travDetermineDraws_idempotent_witness:
  "travDetermineDraws ex_cam ex_state None (TraverseNode (ex_data\<lparr>surface := None\<rparr>) [])
     = Some (False, emit [TouchDraws (TraverseNode (ex_data\<lparr>surface := None\<rparr>) [])] ex_state,
             TraverseNode (ex_data\<lparr>surface := None\<rparr>) [])"
proof -
  let ?t = "TraverseNode (ex_data\<lparr>surface := None\<rparr>) []"
  have h1: "meta (nd ?t) \<noteq> None" by (simp add: ex_data_def)
  have h2: "surface (nd ?t) = None \<or> determined (nd ?t)" by simp
  from travDetermineDraws_idempotent [OF h1 h2, of ex_cam ex_state None]
  show ?thesis by (simp add: ex_data_def)
qed

lemma updateNodePriority_meta:
  assumes "meta (nd trav) = Some m"
  shows "updateNodePriority cam par trav
     = Some (upd (\<lambda>n. n\<lparr>priority := priorityOfDistance
          (aabbPointDist cam (focusPosPhys cam) (fst (aabbPhys m)) (snd (aabbPhys m)))\<rparr>) trav)"
  using assms by (simp add: updateNodePriority_def travDistance_def)

lemma surface_invalid:
  assumes m: "meta (nd trav) = Some m" and s: "surface (nd trav) = Some sf"
    and nd: "\<not> determined (nd trav)" and re: "rendersEmpty trav"
    and pin: "\<forall>it \<in> set (resources (nd trav)). getValidity cam it \<noteq> Indeterminate"
    and inv: "getValidity cam (urlMesh sf \<lparr>tileId = trav_id (nd trav), localId = metaLocalId m,
                               subMeshIndex = 0\<rparr>) = Invalid"
  shows "\<exists>st' trav'. travDetermineDrawsSurface cam st trav = Some (False, st', trav')
          \<and> surface (nd trav') = None \<and> resources (nd trav') = [] \<and> meta (nd trav') = Some m
          \<and> rendersEmpty trav'"
  using assms
  by (auto simp: travDetermineDrawsSurface_def assert'_def Let_def rendersEmpty_def)

lemma geodata_invalid:
  assumes m: "meta (nd trav) = Some m" and s: "surface (nd trav) = Some sf"
    and nd: "\<not> determined (nd trav)" and re: "rendersEmpty trav"
    and pin: "resources (nd trav) = []"
    and inv: "(let name = freeLayerName (layer (nd trav));
                   geoName = urlGeodata sf \<lparr>tileId = trav_id (nd trav), localId = metaLocalId m,
                               subMeshIndex = 0\<rparr>
               in fst (actualGeoStyle cam name) = Invalid
                \<or> fst (actualGeoFeatures cam name geoName (priority (nd trav))) = Invalid
                \<or> (fst (actualGeoStyle cam name) = Valid
                    \<and> fst (actualGeoFeatures cam name geoName (priority (nd trav))) = Valid
                    \<and> getValidity cam (geoName @ ''#tile'') = Invalid))"
  shows "\<exists>st' trav'. travDetermineDrawsGeodata cam st trav = Some (False, st', trav')
          \<and> surface (nd trav') = None \<and> meta (nd trav') = Some m
          \<and> rendersEmpty trav'"
  using assms
  by (auto simp: travDetermineDrawsGeodata_def assert'_def Let_def rendersEmpty_def)

text \<open>
  C8.  Take a node with a metanode and a surface, not determined and without draws.
  For a surface node none of whose pinned resources is still loading, when the mesh
  aggregate is \<open>Invalid\<close>; for a geodata node, when the style or the features are
  \<open>Invalid\<close>, or both are \<open>Valid\<close> and the geodata tile is \<open>Invalid\<close>:
  \<^verbatim>\<open>travDetermineDraws\<close> returns false, the node's surface is null afterwards, the node is
  not determined and its draw lists are empty.  Every later call on that node returns
  false and does nothing but \<^verbatim>\<open>touchDraws\<close>: nothing is requested again.
\<close>

theorem travDetermineDraws_invalid_resource:
  assumes m: "meta (nd trav) = Some m" and s: "surface (nd trav) = Some sf"
    and nd: "\<not> determined (nd trav)" and re: "rendersEmpty trav"
    and c: "(\<not> isGeodata (layer (nd trav))
             \<and> (\<forall>it \<in> set (resources (nd trav)). getValidity cam it \<noteq> Indeterminate)
             \<and> getValidity cam (urlMesh sf \<lparr>tileId = trav_id (nd trav), localId = metaLocalId m,
                                  subMeshIndex = 0\<rparr>) = Invalid)
          \<or> (isGeodata (layer (nd trav)) \<and> resources (nd trav) = []
             \<and> (let name = freeLayerName (layer (nd trav));
                     geoName = urlGeodata sf \<lparr>tileId = trav_id (nd trav), localId = metaLocalId m,
                                 subMeshIndex = 0\<rparr>
                 in fst (actualGeoStyle cam name) = Invalid
                  \<or> (\<forall>p. fst (actualGeoFeatures cam name geoName p) = Invalid)
                  \<or> (fst (actualGeoStyle cam name) = Valid
                      \<and> (\<forall>p. fst (actualGeoFeatures cam name geoName p) = Valid)
                      \<and> getValidity cam (geoName @ ''#tile'') = Invalid)))"
  shows "\<exists>st' trav'. travDetermineDraws cam st par trav = Some (False, st', trav')
          \<and> surface (nd trav') = None \<and> \<not> determined (nd trav') \<and> rendersEmpty trav'
          \<and> (\<forall>st2 par2. travDetermineDraws cam st2 par2 trav'
                = Some (False, emit [TouchDraws trav'] st2, trav'))"
proof -
  define trav1 where "trav1 = upd (\<lambda>n. n\<lparr>priority := priorityOfDistance
          (aabbPointDist cam (focusPosPhys cam) (fst (aabbPhys m)) (snd (aabbPhys m)))\<rparr>) trav"
  have up: "updateNodePriority cam par trav = Some trav1"
    unfolding trav1_def by (rule updateNodePriority_meta [OF m])
  have m1: "meta (nd trav1) = Some m" and s1: "surface (nd trav1) = Some sf"
    and nd1: "\<not> determined (nd trav1)" and re1: "rendersEmpty trav1"
    and l1: "layer (nd trav1) = layer (nd trav)" and r1: "resources (nd trav1) = resources (nd trav)"
    and i1: "trav_id (nd trav1) = trav_id (nd trav)"
    using m s nd re by (simp_all add: trav1_def rendersEmpty_def)
  let ?st2 = "(emit [TouchDraws trav] st)\<lparr>statistics := (statistics (emit [TouchDraws trav] st))
                   \<lparr>currentNodeDrawsUpdates :=
                      Suc (currentNodeDrawsUpdates (statistics (emit [TouchDraws trav] st)))\<rparr>\<rparr>"
  have inner: "\<exists>st' t'. (if isGeodata (layer (nd trav1))
           then travDetermineDrawsGeodata cam ?st2 trav1
           else travDetermineDrawsSurface cam ?st2 trav1) = Some (False, st', t')
          \<and> surface (nd t') = None \<and> meta (nd t') = Some m \<and> rendersEmpty t'"
  proof (cases "isGeodata (layer (nd trav))")
    case False
    with c have pin: "\<forall>it \<in> set (resources (nd trav1)). getValidity cam it \<noteq> Indeterminate"
      and inv: "getValidity cam (urlMesh sf \<lparr>tileId = trav_id (nd trav1), localId = metaLocalId m,
                                  subMeshIndex = 0\<rparr>) = Invalid"
      by (auto simp: r1 i1)
    from surface_invalid [OF m1 s1 nd1 re1 pin inv, of ?st2] False l1
    show ?thesis by auto
  next
    case True
    with c have pin: "resources (nd trav1) = []"
      and inv: "(let name = freeLayerName (layer (nd trav1));
                   geoName = urlGeodata sf \<lparr>tileId = trav_id (nd trav1), localId = metaLocalId m,
                               subMeshIndex = 0\<rparr>
               in fst (actualGeoStyle cam name) = Invalid
                \<or> fst (actualGeoFeatures cam name geoName (priority (nd trav1))) = Invalid
                \<or> (fst (actualGeoStyle cam name) = Valid
                    \<and> fst (actualGeoFeatures cam name geoName (priority (nd trav1))) = Valid
                    \<and> getValidity cam (geoName @ ''#tile'') = Invalid))"
      by (auto simp: r1 i1 l1 Let_def)
    from geodata_invalid [OF m1 s1 nd1 re1 pin inv, of ?st2] True l1
    show ?thesis by auto
  qed
  then obtain st' t' where
    run: "(if isGeodata (layer (nd trav1))
           then travDetermineDrawsGeodata cam ?st2 trav1
           else travDetermineDrawsSurface cam ?st2 trav1) = Some (False, st', t')"
    and st: "surface (nd t') = None" and mt: "meta (nd t') = Some m" and rt: "rendersEmpty t'"
    by blast
  let ?t = "upd (\<lambda>n. n\<lparr>determined := False\<rparr>) t'"
  have call: "travDetermineDraws cam st par trav = Some (False, st', ?t)"
    using m s nd re up run by (simp add: travDetermineDraws_def assert'_def Let_def)
  have props: "surface (nd ?t) = None" "\<not> determined (nd ?t)" "rendersEmpty ?t"
    "meta (nd ?t) \<noteq> None"
    using st mt rt by (simp_all add: rendersEmpty_def)
  have again: "\<forall>st2 par2. travDetermineDraws cam st2 par2 ?t
                = Some (False, emit [TouchDraws ?t] st2, ?t)"
    using props by (simp add: travDetermineDraws_def assert'_def)
  from call props again show ?thesis by blast
qed

theorem travDetermineDraws_invalid_resource_witness:
  "(\<exists>st' trav'. travDetermineDraws (ex_cam\<lparr>getValidity := (\<lambda>n. Invalid)\<rparr>) ex_state None
                     (TraverseNode ex_data []) = Some (False, st', trav')
      \<and> surface (nd trav') = None \<and> \<not> determined (nd trav') \<and> rendersEmpty trav')
 \<and> (\<exists>st' trav'. travDetermineDraws (ex_cam\<lparr>actualGeoStyle := (\<lambda>n. (Invalid, []))\<rparr>) ex_state None
                     (TraverseNode (ex_data\<lparr>layer := ex_layer\<lparr>isGeodata := True\<rparr>\<rparr>) [])
                   = Some (False, st', trav')
      \<and> surface (nd trav') = None \<and> \<not> determined (nd trav') \<and> rendersEmpty trav')"
proof -
  let ?t = "TraverseNode ex_data []"
  let ?g = "TraverseNode (ex_data\<lparr>layer := ex_layer\<lparr>isGeodata := True\<rparr>\<rparr>) []"
  have a: "\<exists>st' trav'. travDetermineDraws (ex_cam\<lparr>getValidity := (\<lambda>n. Invalid)\<rparr>) ex_state None ?t
             = Some (False, st', trav')
      \<and> surface (nd trav') = None \<and> \<not> determined (nd trav') \<and> rendersEmpty trav'
      \<and> (\<forall>st2 par2. travDetermineDraws (ex_cam\<lparr>getValidity := (\<lambda>n. Invalid)\<rparr>) st2 par2 trav'
                = Some (False, emit [TouchDraws trav'] st2, trav'))"
    by (rule travDetermineDraws_invalid_resource [where m = ex_meta and sf = ex_surface])
       (simp_all add: ex_data_def ex_layer_def rendersEmpty_def)
  have b: "\<exists>st' trav'. travDetermineDraws (ex_cam\<lparr>actualGeoStyle := (\<lambda>n. (Invalid, []))\<rparr>) ex_state None ?g
             = Some (False, st', trav')
      \<and> surface (nd trav') = None \<and> \<not> determined (nd trav') \<and> rendersEmpty trav'
      \<and> (\<forall>st2 par2. travDetermineDraws (ex_cam\<lparr>actualGeoStyle := (\<lambda>n. (Invalid, []))\<rparr>) st2 par2 trav'
                = Some (False, emit [TouchDraws trav'] st2, trav'))"
    by (rule travDetermineDraws_invalid_resource [where m = ex_meta and sf = ex_surface])
       (simp_all add: ex_data_def ex_layer_def rendersEmpty_def)
  from a b show ?thesis by blast
qed

subsection \<open>The classification of the bound layers of a submesh\<close>

lemma boundLayerTasks_any:
  assumes "\<forall>b \<in> set bls. bound b \<noteq> None"
  shows "boundLayerTasks cam part bls (True, allT, acc)
     = Some (True, allT \<and> (\<forall>b \<in> set bls. transparent b),
         acc\<lparr>newCredits := newCredits acc @ stackCredits cam bls,
             newOpaque := newOpaque acc @ map (boundLayerTask cam part) (filter plainOpaque bls),
             newTransparent := newTransparent acc
               @ map (boundLayerTask cam part) (filter (\<lambda>b. \<not> plainOpaque b) bls)\<rparr>)"
  using assms
proof (induction bls arbitrary: allT acc)
  case Nil
  show ?case by (simp add: stackCredits_def)
next
  case (Cons b bls)
  from Cons.prems obtain l where l: "bound b = Some l" by auto
  from Cons.prems have rest: "\<forall>b \<in> set bls. bound b \<noteq> None" by simp
  show ?case
    using l Cons.IH [OF rest]
    by (auto simp: Let_def plainOpaque_def stackCredits_def)
qed

lemma boundLayerTasks_none:
  assumes "\<forall>b \<in> set bls. bound b \<noteq> None" and "\<forall>b \<in> set bls. \<not> plainOpaque b"
  shows "boundLayerTasks cam part bls (False, allT, acc)
     = Some (\<exists>b \<in> set bls. maskedOpaque b, allT \<and> (\<forall>b \<in> set bls. transparent b),
         acc\<lparr>newCredits := newCredits acc @ stackCredits cam bls,
             newOpaque := newOpaque acc
               @ map (boundLayerTask cam part) (take 1 (filter maskedOpaque bls)),
             newTransparent := newTransparent acc
               @ map (boundLayerTask cam part)
                   (takeWhile (\<lambda>b. \<not> maskedOpaque b) bls
                    @ tl (dropWhile (\<lambda>b. \<not> maskedOpaque b) bls))\<rparr>)"
  using assms
proof (induction bls arbitrary: allT acc)
  case Nil
  show ?case by (simp add: stackCredits_def)
next
  case (Cons b bls)
  from Cons.prems obtain l where l: "bound b = Some l" by auto
  from Cons.prems have rest: "\<forall>b \<in> set bls. bound b \<noteq> None"
    and np: "\<forall>b \<in> set bls. \<not> plainOpaque b" and nb: "\<not> plainOpaque b" by simp_all
  show ?case
  proof (cases "maskedOpaque b")
    case True
    have f1: "filter plainOpaque bls = []" using np by (simp add: filter_empty_conv)
    have f2: "filter (\<lambda>b. \<not> plainOpaque b) bls = bls" using np by (simp add: filter_id_conv)
    show ?thesis
      using True l boundLayerTasks_any [OF rest, of cam part] f1 f2
      by (auto simp: Let_def maskedOpaque_def stackCredits_def)
  next
    case False
    with nb have t: "transparent b" by (auto simp: maskedOpaque_def plainOpaque_def)
    show ?thesis
      using False t l Cons.IH [OF rest np]
      by (auto simp: Let_def maskedOpaque_def stackCredits_def)
  qed
qed

text \<open>
  C3.  One iteration of the submesh loop for a submesh with external UVs whose stack
  \<open>bls\<close> has been resolved (\<^verbatim>\<open>reorderBoundLayers\<close> returned \<open>Valid\<close>, every entry has its
  bound layer).  If the stack holds an opaque layer without a mask, the opaque list
  receives exactly the tasks of such layers and the transparent list those of all the
  others, so every non-transparent layer with a mask is drawn as transparent.  If it
  holds none, the first non-transparent layer with a mask is the one task added to the
  opaque list, and every other layer goes to the transparent list.  The internal
  texture block runs only when every layer of the stack is transparent; otherwise
  the iteration ends with the lists above and no texture has been requested.
\<close>

theorem bound_layer_classification:
  assumes ext: "externalUv part"
    and sf: "surface (nd trav) = Some sf" and m: "meta (nd trav) = Some m"
    and ro: "reorder cam (trav_id (nd trav)) (metaLocalId m) i
               (if textureLayer part \<noteq> 0
                then boundList (layer (nd trav)) sf (surfaceReference part)
                       @ [newBoundParamInfo (textureLayerId cam (textureLayer part))]
                else boundList (layer (nd trav)) sf (surfaceReference part))
               (priority (nd trav)) = (Valid, bls)"
    and bd: "\<forall>b \<in> set bls. bound b \<noteq> None"
  shows "\<exists>acc1 st1 trav1.
      submeshStep cam i part (acc, st, trav)
        = (if \<forall>b \<in> set bls. transparent b
           then internalTextureStep cam i part (acc1, st1, trav1)
           else Some (acc1, st1, trav1))
    \<and> newOpaque acc1 = newOpaque acc @ map (boundLayerTask cam part)
         (if \<exists>b \<in> set bls. plainOpaque b then filter plainOpaque bls
          else take 1 (filter maskedOpaque bls))
    \<and> newTransparent acc1 = newTransparent acc @ map (boundLayerTask cam part)
         (if \<exists>b \<in> set bls. plainOpaque b
          then filter (\<lambda>b. transparent b \<or> maskedOpaque b) bls
          else takeWhile (\<lambda>b. \<not> maskedOpaque b) bls
               @ tl (dropWhile (\<lambda>b. \<not> maskedOpaque b) bls))
    \<and> allDetermined acc1 = allDetermined acc
    \<and> (\<exists>e. events st1 = events st @ [e] \<and> (\<forall>u. e \<noteq> GetTexture u))
    \<and> resources (nd trav1) = resources (nd trav) @ stackResources bls"
proof -
  have eqf: "(\<lambda>b. \<not> plainOpaque b) = (\<lambda>b. transparent b \<or> maskedOpaque b)"
    by (auto simp: plainOpaque_def maskedOpaque_def)
  have a0: "anyOpaqueLayer0 bls \<longleftrightarrow> (\<exists>b \<in> set bls. plainOpaque b)"
    by (simp add: anyOpaqueLayer0_def plainOpaque_def)
  let ?st1 = "emit [ReorderBoundLayers (trav_id (nd trav)) (metaLocalId m) i
               (if textureLayer part \<noteq> 0
                then boundList (layer (nd trav)) sf (surfaceReference part)
                       @ [newBoundParamInfo (textureLayerId cam (textureLayer part))]
                else boundList (layer (nd trav)) sf (surfaceReference part))
               (priority (nd trav))] st"
  let ?trav1 = "upd (\<lambda>n. n\<lparr>resources := resources n @ stackResources bls\<rparr>) trav"
  obtain any1 acc1 where
    run: "boundLayerTasks cam part bls (anyOpaqueLayer0 bls, True, acc)
            = Some (any1, \<forall>b \<in> set bls. transparent b, acc1)"
    and o: "newOpaque acc1 = newOpaque acc @ map (boundLayerTask cam part)
         (if \<exists>b \<in> set bls. plainOpaque b then filter plainOpaque bls
          else take 1 (filter maskedOpaque bls))"
    and t: "newTransparent acc1 = newTransparent acc @ map (boundLayerTask cam part)
         (if \<exists>b \<in> set bls. plainOpaque b
          then filter (\<lambda>b. transparent b \<or> maskedOpaque b) bls
          else takeWhile (\<lambda>b. \<not> maskedOpaque b) bls
               @ tl (dropWhile (\<lambda>b. \<not> maskedOpaque b) bls))"
    and d: "allDetermined acc1 = allDetermined acc"
  proof (cases "\<exists>b \<in> set bls. plainOpaque b")
    case True
    then have a: "anyOpaqueLayer0 bls" by (simp add: a0)
    show ?thesis
      by (rule that [of True "acc\<lparr>newCredits := newCredits acc @ stackCredits cam bls,
             newOpaque := newOpaque acc @ map (boundLayerTask cam part) (filter plainOpaque bls),
             newTransparent := newTransparent acc
               @ map (boundLayerTask cam part) (filter (\<lambda>b. \<not> plainOpaque b) bls)\<rparr>"])
        (simp_all add: a True boundLayerTasks_any [OF bd] eqf)
  next
    case False
    then have a: "\<not> anyOpaqueLayer0 bls" by (simp add: a0)
    from False have np: "\<forall>b \<in> set bls. \<not> plainOpaque b" by simp
    show ?thesis
      by (rule that [of "\<exists>b \<in> set bls. maskedOpaque b"
           "acc\<lparr>newCredits := newCredits acc @ stackCredits cam bls,
             newOpaque := newOpaque acc
               @ map (boundLayerTask cam part) (take 1 (filter maskedOpaque bls)),
             newTransparent := newTransparent acc
               @ map (boundLayerTask cam part)
                   (takeWhile (\<lambda>b. \<not> maskedOpaque b) bls
                    @ tl (dropWhile (\<lambda>b. \<not> maskedOpaque b) bls))\<rparr>"])
        (simp_all add: a False boundLayerTasks_none [OF bd np])
  qed
  have step: "submeshStep cam i part (acc, st, trav)
        = (if \<forall>b \<in> set bls. transparent b
           then internalTextureStep cam i part (acc1, ?st1, ?trav1)
           else Some (acc1, ?st1, ?trav1))"
    using ext sf m ro run by (simp add: submeshStep_def Let_def)
  have ev: "\<exists>e. events ?st1 = events st @ [e] \<and> (\<forall>u. e \<noteq> GetTexture u)"
    by (simp add: emit_def)
  have rs: "resources (nd ?trav1) = resources (nd trav) @ stackResources bls"
    by simp
  from step o t d ev rs show ?thesis by blast
qed

theorem bound_layer_classification_witness:
  "\<exists>acc1 st1 trav1.
      submeshStep (ex_cam\<lparr>reorder := (\<lambda>t l i bls p. (Valid, [ex_masked1, ex_masked2]))\<rparr>) 0 ex_part
        (ex_draws, ex_state, TraverseNode ex_data []) = Some (acc1, st1, trav1)
    \<and> map taskBoundLayerId (newOpaque acc1) = [''a'']
    \<and> map taskBoundLayerId (newTransparent acc1) = [''b'']"
proof -
  let ?cam = "ex_cam\<lparr>reorder := (\<lambda>t l i bls p. (Valid, [ex_masked1, ex_masked2]))\<rparr>"
  let ?t = "TraverseNode ex_data []"
  have mk: "maskedOpaque ex_masked1" "maskedOpaque ex_masked2"
    "\<not> plainOpaque ex_masked1" "\<not> plainOpaque ex_masked2"
    "\<not> transparent ex_masked1" "\<not> transparent ex_masked2"
    by (simp_all add: maskedOpaque_def plainOpaque_def ex_masked1_def ex_masked2_def ex_param_def)
  have ext: "externalUv ex_part" by (simp add: ex_part_def)
  have sf: "surface (nd ?t) = Some ex_surface" by (simp add: ex_data_def)
  have m: "meta (nd ?t) = Some ex_meta" by (simp add: ex_data_def)
  have ro: "reorder ?cam (trav_id (nd ?t)) (metaLocalId ex_meta) 0
               (if textureLayer ex_part \<noteq> 0
                then boundList (layer (nd ?t)) ex_surface (surfaceReference ex_part)
                       @ [newBoundParamInfo (textureLayerId ?cam (textureLayer ex_part))]
                else boundList (layer (nd ?t)) ex_surface (surfaceReference ex_part))
               (priority (nd ?t)) = (Valid, [ex_masked1, ex_masked2])"
    by simp
  have bd: "\<forall>b \<in> set [ex_masked1, ex_masked2]. bound b \<noteq> None"
    by (simp add: ex_masked1_def ex_masked2_def)
  from bound_layer_classification [OF ext sf m ro bd, of ex_draws ex_state]
  obtain acc1 st1 trav1 where
    r: "submeshStep ?cam 0 ex_part (ex_draws, ex_state, ?t) = Some (acc1, st1, trav1)"
    and o: "newOpaque acc1 = newOpaque ex_draws @ map (boundLayerTask ?cam ex_part) [ex_masked1]"
    and t: "newTransparent acc1 = newTransparent ex_draws
              @ map (boundLayerTask ?cam ex_part) [ex_masked2]"
    using mk by auto
  have "map taskBoundLayerId (newOpaque acc1) = [''a'']"
    using o by (simp add: ex_draws_def boundLayerTask_def ex_masked1_def)
  moreover have "map taskBoundLayerId (newTransparent acc1) = [''b'']"
    using t by (simp add: ex_draws_def boundLayerTask_def ex_masked2_def)
  ultimately show ?thesis using r
    by (intro exI [where x = acc1] exI [where x = st1] exI [where x = trav1] conjI)
qed

section \<open>Properties of the metanode determination\<close>

subsection \<open>Requests for the metatiles of a child\<close>

lemma handles_Nil [simp]: "handles [] = []"
  by (simp add: handles_def map_filter_simps)

lemma handles_Cons [simp]:
  "handles (None # ms) = handles ms" "handles (Some m # ms) = m # handles ms"
  by (simp_all add: handles_def map_filter_simps)

lemma metaTilesLoop_result:
  "metaTilesLoop cam par nid v i ss = Some (ms, es) \<Longrightarrow>
     length ms = length ss \<and> es = map GetMetaTile (handles ms)
   \<and> (\<forall>k < length ss. metaTileWanted cam par nid (i + k) = Some (ms ! k \<noteq> None)
        \<and> (ms ! k \<noteq> None \<longrightarrow> ms ! k = Some (surfaceUrlMeta (ss ! k) v)))"
proof (induction ss arbitrary: i ms es)
  case Nil
  then show ?case by simp
next
  case (Cons s ss)
  from Cons.prems obtain w ms' es' where
    w: "metaTileWanted cam par nid i = Some w"
    and rec: "metaTilesLoop cam par nid v (Suc i) ss = Some (ms', es')"
    and res: "ms = (if w then Some (surfaceUrlMeta s v) # ms' else None # ms')"
             "es = (if w then GetMetaTile (surfaceUrlMeta s v) # es' else es')"
    by (auto split: bind_splits if_splits)
  from Cons.IH [OF rec] have
    l: "length ms' = length ss" and e: "es' = map GetMetaTile (handles ms')"
    and a: "\<forall>k < length ss. metaTileWanted cam par nid (Suc i + k) = Some (ms' ! k \<noteq> None)
        \<and> (ms' ! k \<noteq> None \<longrightarrow> ms' ! k = Some (surfaceUrlMeta (ss ! k) v))"
    by simp_all
  have 1: "length ms = length (s # ss)" using res l by simp
  have 2: "es = map GetMetaTile (handles ms)" using res e by simp
  have 3: "\<forall>k < length (s # ss). metaTileWanted cam par nid (i + k) = Some (ms ! k \<noteq> None)
        \<and> (ms ! k \<noteq> None \<longrightarrow> ms ! k = Some (surfaceUrlMeta ((s # ss) ! k) v))"
  proof (intro allI impI)
    fix k assume k: "k < length (s # ss)"
    show "metaTileWanted cam par nid (i + k) = Some (ms ! k \<noteq> None)
        \<and> (ms ! k \<noteq> None \<longrightarrow> ms ! k = Some (surfaceUrlMeta ((s # ss) ! k) v))"
    proof (cases k)
      case 0
      then show ?thesis using w res by simp
    next
      case (Suc k')
      with k have "k' < length ss" by simp
      with a have "metaTileWanted cam par nid (Suc i + k') = Some (ms' ! k' \<noteq> None)
        \<and> (ms' ! k' \<noteq> None \<longrightarrow> ms' ! k' = Some (surfaceUrlMeta (ss ! k') v))" by blast
      then show ?thesis using Suc res by simp
    qed
  qed
  from 1 2 3 show ?case by blast
qed

lemma updateNodePriority_shape:
  "updateNodePriority cam par t = Some t' \<Longrightarrow> \<exists>q. t' = upd (\<lambda>n. n\<lparr>priority := q\<rparr>) t"
  by (auto simp: updateNodePriority_def travDistance_def split: if_splits option.splits bind_splits)

lemma childIndex_bits:
  "childIndex t = unat ((xidx t AND 1) OR push_bit 1 (yidx t AND 1))"
proof -
  have x: "xidx t AND 1 = of_bool (odd (xidx t))" by (simp add: and_one_eq mod_2_eq_odd)
  have y: "yidx t AND 1 = of_bool (odd (yidx t))" by (simp add: and_one_eq mod_2_eq_odd)
  show ?thesis
    unfolding childIndex_def x y
    by (cases "odd (xidx t)"; cases "odd (yidx t)") (simp_all add: mod_2_eq_odd)
qed

lemma travDetermineMeta_tiles:
  assumes r: "travDetermineMeta cam st par trav init = Some (res, st', trav')"
    and ng: "freeLayer (layer (nd trav)) \<noteq> Some Geodata"
    and fresh: "metaTiles (nd trav) = []"
  shows "\<exists>es. metaTilesLoop cam par (trav_id (nd trav))
                (zeroVars\<lparr>tileId := roundId cam (trav_id (nd trav))\<rparr>) 0
                (surfaces (surfaceStack (layer (nd trav)))) = Some (metaTiles (nd trav'), es)
            \<and> events st' = events st @ es
                 @ map (\<lambda>m. UpdateResourcePriority m (ftimes (priority (nd trav)) 2))
                     (handles (metaTiles (nd trav')))"
  using r ng fresh
  by (auto simp: travDetermineMeta_def Let_def emit_def
      split: bind_splits if_splits option.splits prod.splits
      dest!: updateNodePriority_shape)

text \<open>
  C4.  A node below a parent \<open>p\<close>, on its first \<^verbatim>\<open>travDetermineMeta\<close> (no metatile handles
  yet) in a tiled layer.  For every surface index \<open>i\<close> for which the parent holds a
  metatile handle \<open>h\<close>, the node's slot \<open>i\<close> holds the metatile of that surface exactly
  when the metanode of the parent tile in \<open>h\<close> has the bit \<open>ulChild << c\<close> in its flags,
  and is empty otherwise; \<open>c = (x&1) | ((y&1)<<1)\<close> is the index that the code
  computes as \<open>x%2 + (y%2)*2\<close>.  The call issues one \<^verbatim>\<open>getMetaTile\<close> per filled slot and
  nothing for an empty one: the events it adds are these requests followed by the
  priority updates of the same handles.
\<close>

theorem child_metatile_requested_iff_flag:
  assumes r: "travDetermineMeta cam st (Some p) trav init = Some (res, st', trav')"
    and ng: "freeLayer (layer (nd trav)) \<noteq> Some Geodata"
    and fresh: "metaTiles (nd trav) = []"
    and i: "i < length (surfaces (surfaceStack (layer (nd trav))))"
    and h: "metaTiles (nd p) ! i = Some h"
  shows "metaTiles (nd trav') ! i
           = (if flags (metaTileGet cam h (parent_tile (trav_id (nd trav))))
                   AND push_bit (childIndex (trav_id (nd trav))) (ulChild cam) \<noteq> 0
              then Some (surfaceUrlMeta (surfaces (surfaceStack (layer (nd trav))) ! i)
                           (zeroVars\<lparr>tileId := roundId cam (trav_id (nd trav))\<rparr>))
              else None)
       \<and> events st' = events st @ map GetMetaTile (handles (metaTiles (nd trav')))
            @ map (\<lambda>m. UpdateResourcePriority m (ftimes (priority (nd trav)) 2))
                (handles (metaTiles (nd trav')))
       \<and> childIndex (trav_id (nd trav))
           = unat ((xidx (trav_id (nd trav)) AND 1) OR push_bit 1 (yidx (trav_id (nd trav)) AND 1))"
proof -
  let ?v = "zeroVars\<lparr>tileId := roundId cam (trav_id (nd trav))\<rparr>"
  let ?ss = "surfaces (surfaceStack (layer (nd trav)))"
  from travDetermineMeta_tiles [OF r ng fresh] obtain es where
    loop: "metaTilesLoop cam (Some p) (trav_id (nd trav)) ?v 0 ?ss = Some (metaTiles (nd trav'), es)"
    and ev: "events st' = events st @ es
                 @ map (\<lambda>m. UpdateResourcePriority m (ftimes (priority (nd trav)) 2))
                     (handles (metaTiles (nd trav')))"
    by blast
  from metaTilesLoop_result [OF loop] i have
    es: "es = map GetMetaTile (handles (metaTiles (nd trav')))"
    and w: "metaTileWanted cam (Some p) (trav_id (nd trav)) i = Some (metaTiles (nd trav') ! i \<noteq> None)"
    and u: "metaTiles (nd trav') ! i \<noteq> None \<longrightarrow> metaTiles (nd trav') ! i = Some (surfaceUrlMeta (?ss ! i) ?v)"
    by auto
  from w h have b: "(metaTiles (nd trav') ! i \<noteq> None)
       = (flags (metaTileGet cam h (parent_tile (trav_id (nd trav))))
                   AND push_bit (childIndex (trav_id (nd trav))) (ulChild cam) \<noteq> 0)"
    by (auto simp: metaTileWanted_def split: if_splits)
  have 1: "metaTiles (nd trav') ! i
           = (if flags (metaTileGet cam h (parent_tile (trav_id (nd trav))))
                   AND push_bit (childIndex (trav_id (nd trav))) (ulChild cam) \<noteq> 0
              then Some (surfaceUrlMeta (?ss ! i) ?v) else None)"
    using b u by auto
  from 1 ev es childIndex_bits [of "trav_id (nd trav)"] show ?thesis by simp
qed


lemmas ex_meta_run_defs = travDetermineMeta_def ex_child_def newTraverseNode_def assert'_def rendersEmpty_def
     ex_parent_def ex_data_def ex_layer_def Let_def metaTileWanted_def childIndex_def
     ex_cam_def ex_cam16_def zeroVars_def parent_tile_def emit_def ex_surface_def ex_state_def
     updateNodePriority_def travDistance_def upd_def children_tiles_def ex_meta_def

theorem child_metatile_requested_iff_flag_witness:
  "(\<exists>res st' trav'. travDetermineMeta ex_cam16 ex_state (Some ex_parent) (ex_child 0) False
                       = Some (res, st', trav')
      \<and> metaTiles (nd trav') ! 0 = Some ''meta'')
 \<and> (\<exists>res st' trav'. travDetermineMeta ex_cam16 ex_state (Some ex_parent) (ex_child 1) False
                       = Some (res, st', trav')
      \<and> metaTiles (nd trav') ! 0 = None)"
proof -
  have ng: "\<And>k. freeLayer (layer (nd (ex_child k))) \<noteq> Some Geodata"
    and fresh: "\<And>k. metaTiles (nd (ex_child k)) = []"
    and i: "\<And>k. 0 < length (surfaces (surfaceStack (layer (nd (ex_child k)))))"
    and h: "metaTiles (nd ex_parent) ! 0 = Some ''pm''"
    by (simp_all add: ex_child_def newTraverseNode_def ex_layer_def ex_parent_def)
  obtain res0 st0 trav0 where
    r0: "travDetermineMeta ex_cam16 ex_state (Some ex_parent) (ex_child 0) False
           = Some (res0, st0, trav0)"
    by (auto simp: ex_meta_run_defs)
  obtain res1 st1 trav1 where
    r1: "travDetermineMeta ex_cam16 ex_state (Some ex_parent) (ex_child 1) False
           = Some (res1, st1, trav1)"
    by (auto simp: ex_meta_run_defs)
  have "metaTiles (nd trav0) ! 0 = Some ''meta''"
    using child_metatile_requested_iff_flag [OF r0 ng fresh i h]
    by (simp add: ex_cam16_def ex_cam_def ex_child_def newTraverseNode_def childIndex_def
        ex_layer_def ex_surface_def)
  moreover have "metaTiles (nd trav1) ! 0 = None"
    using child_metatile_requested_iff_flag [OF r1 ng fresh i h]
    by (simp add: ex_cam16_def ex_cam_def ex_child_def newTraverseNode_def childIndex_def
        ex_layer_def ex_surface_def)
  ultimately show ?thesis using r0 r1 by blast
qed

subsection \<open>The surface of a node\<close>

lemma findTopmost_keeps:
  "findTopmost cam lay nid i ms (Some t, chosen, av) = Some (tm, ch, av') \<Longrightarrow> tm = Some t"
proof (induction ms arbitrary: i chosen av)
  case Nil
  then show ?case by simp
next
  case (Cons mo ms)
  show ?case
  proof (cases mo)
    case None
    with Cons show ?thesis by simp
  next
    case (Some m)
    with Cons show ?thesis by (simp add: Let_def)
  qed
qed

lemma findTopmost_first:
  assumes "findTopmost cam lay nid i ms (None, chosen, av) = Some (tm, ch, av')"
    and "k < length ms" and "ms ! k = Some m"
    and "alien (metaTileGet cam m nid) = surfaceAlien (surfaces (surfaceStack lay) ! (i + k))"
    and "geometry (metaTileGet cam m nid)"
    and "\<forall>j < k. \<forall>m'. ms ! j = Some m' \<longrightarrow>
           \<not> (alien (metaTileGet cam m' nid) = surfaceAlien (surfaces (surfaceStack lay) ! (i + j))
              \<and> geometry (metaTileGet cam m' nid))"
  shows "(case tilesetStack lay of
            Some ts \<Rightarrow> tm = Some (surfaces ts ! sourceReference (metaTileGet cam m nid))
                     \<and> 0 < sourceReference (metaTileGet cam m nid)
                     \<and> sourceReference (metaTileGet cam m nid) < length (surfaces ts)
          | None \<Rightarrow> tm = Some (surfaces (surfaceStack lay) ! (i + k)))"
  using assms
proof (induction ms arbitrary: i k chosen av)
  case Nil
  then show ?case by simp
next
  case (Cons mo ms)
  show ?case
  proof (cases k)
    case 0
    with Cons.prems have mo: "mo = Some m" by simp
    from Cons.prems(1) Cons.prems(4,5) 0 mo show ?thesis
      by (auto simp: Let_def assert'_def split: if_splits option.splits bind_splits
          dest: findTopmost_keeps)
  next
    case (Suc k')
    from Cons.prems(2) Suc have k': "k' < length ms" by simp
    from Cons.prems(3) Suc have mk: "ms ! k' = Some m" by simp
    from Cons.prems(4) Suc have al: "alien (metaTileGet cam m nid)
        = surfaceAlien (surfaces (surfaceStack lay) ! (Suc i + k'))" by simp
    from Cons.prems(6) Suc have first: "\<forall>j < k'. \<forall>m'. ms ! j = Some m' \<longrightarrow>
           \<not> (alien (metaTileGet cam m' nid) = surfaceAlien (surfaces (surfaceStack lay) ! (Suc i + j))
              \<and> geometry (metaTileGet cam m' nid))"
      by (auto dest: spec [where x = "Suc j" for j])
    from Cons.prems(6) Suc have here: "\<forall>m'. mo = Some m' \<longrightarrow>
           \<not> (alien (metaTileGet cam m' nid) = surfaceAlien (surfaces (surfaceStack lay) ! i)
              \<and> geometry (metaTileGet cam m' nid))"
      by (auto dest: spec [where x = 0])
    obtain chosen' av1 where
      rec: "findTopmost cam lay nid (Suc i) ms (None, chosen', av1) = Some (tm, ch, av')"
      using Cons.prems(1) here
      by (cases mo) (auto simp: Let_def split: if_splits bind_splits)
    from Cons.IH [OF rec k' mk al Cons.prems(5) first] Suc show ?thesis
      by (auto split: option.splits)
  qed
qed

lemma those'_nth:
  "those' xs = Some ys \<Longrightarrow> length ys = length xs \<and> (\<forall>j < length xs. xs ! j = Some (ys ! j))"
proof (induction xs arbitrary: ys)
  case Nil
  then show ?case by simp
next
  case (Cons x xs)
  from Cons.prems obtain y ys' where x: "x = Some y" and r: "those' xs = Some ys'"
    and ys: "ys = y # ys'"
    by (auto split: option.splits)
  from Cons.IH [OF r] have l: "length ys' = length xs"
    and a: "\<forall>j < length xs. xs ! j = Some (ys' ! j)" by simp_all
  show ?case
  proof (intro conjI allI impI)
    show "length ys = length (x # xs)" using l ys by simp
  next
    fix j assume "j < length (x # xs)"
    then show "(x # xs) ! j = Some (ys ! j)"
      using x ys a by (cases j) simp_all
  qed
qed

lemma travDetermineMeta_topmost:
  assumes r: "travDetermineMeta cam st par trav init = Some (True, st', trav')"
    and ng: "freeLayer (layer (nd trav)) \<noteq> Some Geodata"
  shows "\<exists>tm ch av. findTopmost cam (layer (nd trav)) (trav_id (nd trav)) 0 (metaTiles (nd trav'))
                       (None, None, \<lambda>j. False) = Some (tm, ch, av)
           \<and> (tm \<noteq> None \<longrightarrow> surface (nd trav') = tm)"
  using r ng
  by (auto simp: travDetermineMeta_def Let_def
      split: bind_splits if_splits option.splits prod.splits
      dest!: updateNodePriority_shape)

lemmas ex_root_run_defs = travDetermineMeta_def ex_root_def newTraverseNode_def assert'_def
     rendersEmpty_def ex_layer_def Let_def metaTileWanted_def
     ex_cam_def ex_cam_ref2_def zeroVars_def emit_def ex_surface_def ex_state_def
     updateNodePriority_def travDistance_def upd_def ex_meta_def ex_tileset_def ex_tile_def

lemma ex_root_tileset_run:
  "\<exists>st' trav'. travDetermineMeta ex_cam_ref2 ex_state None (ex_root (Some ex_tileset)) False
                  = Some (True, st', trav')
     \<and> metaTiles (nd trav') = [Some ''meta'']
     \<and> surface (nd trav') = Some (ex_named ''B'')"
  by (auto simp: ex_root_run_defs ex_named_def)

lemma ex_named_distinct: "ex_named ''A'' \<noteq> ex_named ''B''"
proof
  assume "ex_named ''A'' = ex_named ''B''"
  then have "surfaceName (ex_named ''A'') = surfaceName (ex_named ''B'')" by simp
  then show False by (simp add: ex_named_def)
qed


text \<open>
  C2, as stated, fails: the index into the tileset stack is \<open>sourceReference\<close>, not
  \<open>sourceReference - 1\<close>.  The layer of the node has the tileset stack with the
  surfaces \<open>[s, A, B]\<close>, and the chosen metanode has geometry and the source reference
  2: the surface of the node is the entry \<open>B\<close> at index 2, not the entry \<open>A\<close> at index 1.
\<close>

theorem travDetermineMeta_sourceReference_counterexample:
  "\<exists>st' trav'. travDetermineMeta ex_cam_ref2 ex_state None (ex_root (Some ex_tileset)) False
                  = Some (True, st', trav')
     \<and> tilesetStack (layer (nd (ex_root (Some ex_tileset)))) = Some ex_tileset
     \<and> metaTiles (nd trav') = [Some ''meta'']
     \<and> geometry (metaTileGet ex_cam_ref2 ''meta'' ex_tile)
     \<and> sourceReference (metaTileGet ex_cam_ref2 ''meta'' ex_tile) = 2
     \<and> surface (nd trav') = Some (surfaces ex_tileset ! 2)
     \<and> surface (nd trav') \<noteq> Some (surfaces ex_tileset ! (2 - 1))"
proof -
  from ex_root_tileset_run obtain st' trav' where
    r: "travDetermineMeta ex_cam_ref2 ex_state None (ex_root (Some ex_tileset)) False
          = Some (True, st', trav')"
    and m: "metaTiles (nd trav') = [Some ''meta'']"
    and s: "surface (nd trav') = Some (ex_named ''B'')"
    by blast
  have t: "tilesetStack (layer (nd (ex_root (Some ex_tileset)))) = Some ex_tileset"
    by (simp add: ex_root_def newTraverseNode_def)
  have n: "geometry (metaTileGet ex_cam_ref2 ''meta'' ex_tile)"
    "sourceReference (metaTileGet ex_cam_ref2 ''meta'' ex_tile) = 2"
    by (simp_all add: ex_cam_ref2_def)
  have e2: "surfaces ex_tileset ! 2 = ex_named ''B''"
    and e1: "surfaces ex_tileset ! (2 - 1) = ex_named ''A''"
    by (simp_all add: ex_tileset_def)
  from s e2 have s2: "surface (nd trav') = Some (surfaces ex_tileset ! 2)" by simp
  from s e1 ex_named_distinct
  have s1: "surface (nd trav') \<noteq> Some (surfaces ex_tileset ! (2 - 1))" by simp
  from r t m n s2 s1 show ?thesis by blast
qed


text \<open>
  C2, amended.  \<^verbatim>\<open>travDetermineMeta\<close> has returned true in a tiled layer, and \<open>k\<close> is the
  first slot whose metanode matches the alien flag of surface \<open>k\<close> and has geometry (the
  chosen metanode).  Without a tileset stack the node's surface is surface \<open>k\<close> of the
  surface stack.  With a tileset stack \<open>ts\<close> the source reference of the metanode is
  above 0 and below the number of surfaces of \<open>ts\<close>, and the node's surface is
  \<open>ts.surfaces[sourceReference]\<close>.  (The assertion of the code admits a source reference
  equal to the number of surfaces; the entry read is then outside the stack and the
  call has no result.)
\<close>

theorem travDetermineMeta_surface:
  assumes r: "travDetermineMeta cam st par trav init = Some (True, st', trav')"
    and ng: "freeLayer (layer (nd trav)) \<noteq> Some Geodata"
    and k: "k < length (metaTiles (nd trav'))"
    and mk: "metaTiles (nd trav') ! k = Some m"
    and al: "alien (metaTileGet cam m (trav_id (nd trav)))
               = surfaceAlien (surfaces (surfaceStack (layer (nd trav))) ! k)"
    and ge: "geometry (metaTileGet cam m (trav_id (nd trav)))"
    and first: "\<forall>j < k. \<forall>m'. metaTiles (nd trav') ! j = Some m' \<longrightarrow>
           \<not> (alien (metaTileGet cam m' (trav_id (nd trav)))
                = surfaceAlien (surfaces (surfaceStack (layer (nd trav))) ! j)
              \<and> geometry (metaTileGet cam m' (trav_id (nd trav))))"
  shows "(tilesetStack (layer (nd trav)) = None \<longrightarrow>
            surface (nd trav') = Some (surfaces (surfaceStack (layer (nd trav))) ! k))
       \<and> (\<forall>ts. tilesetStack (layer (nd trav)) = Some ts \<longrightarrow>
            0 < sourceReference (metaTileGet cam m (trav_id (nd trav)))
            \<and> sourceReference (metaTileGet cam m (trav_id (nd trav))) < length (surfaces ts)
            \<and> surface (nd trav')
                = Some (surfaces ts ! sourceReference (metaTileGet cam m (trav_id (nd trav)))))"
proof -
  let ?n = "metaTileGet cam m (trav_id (nd trav))"
  from travDetermineMeta_topmost [OF r ng] obtain tm ch av where
    ft: "findTopmost cam (layer (nd trav)) (trav_id (nd trav)) 0 (metaTiles (nd trav'))
           (None, None, \<lambda>j. False) = Some (tm, ch, av)"
    and sf: "tm \<noteq> None \<longrightarrow> surface (nd trav') = tm"
    by blast
  from al have al0: "alien ?n = surfaceAlien (surfaces (surfaceStack (layer (nd trav))) ! (0 + k))"
    by simp
  from first have first0: "\<forall>j < k. \<forall>m'. metaTiles (nd trav') ! j = Some m' \<longrightarrow>
           \<not> (alien (metaTileGet cam m' (trav_id (nd trav)))
                = surfaceAlien (surfaces (surfaceStack (layer (nd trav))) ! (0 + j))
              \<and> geometry (metaTileGet cam m' (trav_id (nd trav))))"
    by simp
  note top = findTopmost_first [OF ft k mk al0 ge first0]
  have none: "tilesetStack (layer (nd trav)) = None \<longrightarrow>
            surface (nd trav') = Some (surfaces (surfaceStack (layer (nd trav))) ! k)"
    using top sf by auto
  have some: "\<forall>ts. tilesetStack (layer (nd trav)) = Some ts \<longrightarrow>
            0 < sourceReference ?n
            \<and> sourceReference ?n < length (surfaces ts)
            \<and> surface (nd trav') = Some (surfaces ts ! sourceReference ?n)"
    using top sf by auto
  from none some show ?thesis by blast
qed

theorem travDetermineMeta_surface_witness:
  "(\<exists>st' trav'. travDetermineMeta ex_cam_ref2 ex_state None (ex_root (Some ex_tileset)) False
                   = Some (True, st', trav')
      \<and> surface (nd trav') = Some (ex_named ''B''))
 \<and> (\<exists>st' trav'. travDetermineMeta ex_cam_ref2 ex_state None (ex_root None) False
                   = Some (True, st', trav')
      \<and> surface (nd trav') = Some ex_surface)"
proof -
  let ?n = "metaTileGet ex_cam_ref2 ''meta'' ex_tile"
  have ng: "\<And>ts. freeLayer (layer (nd (ex_root ts))) \<noteq> Some Geodata"
    and lay: "\<And>ts. tilesetStack (layer (nd (ex_root ts))) = ts"
    and tid: "\<And>ts. trav_id (nd (ex_root ts)) = ex_tile"
    and ss: "\<And>ts. surfaces (surfaceStack (layer (nd (ex_root ts)))) = [ex_surface]"
    by (simp_all add: ex_root_def newTraverseNode_def ex_layer_def)
  have n: "alien ?n = False" "geometry ?n" "sourceReference ?n = 2"
    by (simp_all add: ex_cam_ref2_def)
  obtain st1 trav1 where
    r1: "travDetermineMeta ex_cam_ref2 ex_state None (ex_root (Some ex_tileset)) False
           = Some (True, st1, trav1)"
    and m1: "metaTiles (nd trav1) = [Some ''meta'']"
    by (auto simp: ex_root_run_defs)
  obtain st2 trav2 where
    r2: "travDetermineMeta ex_cam_ref2 ex_state None (ex_root None) False
           = Some (True, st2, trav2)"
    and m2: "metaTiles (nd trav2) = [Some ''meta'']"
    by (auto simp: ex_root_run_defs)
  have k1: "0 < length (metaTiles (nd trav1))" and mk1: "metaTiles (nd trav1) ! 0 = Some ''meta''"
    using m1 by simp_all
  have k2: "0 < length (metaTiles (nd trav2))" and mk2: "metaTiles (nd trav2) ! 0 = Some ''meta''"
    using m2 by simp_all
  have al: "\<And>ts. alien (metaTileGet ex_cam_ref2 ''meta'' (trav_id (nd (ex_root ts))))
               = surfaceAlien (surfaces (surfaceStack (layer (nd (ex_root ts)))) ! 0)"
    by (simp add: tid ss n ex_surface_def)
  have ge: "\<And>ts. geometry (metaTileGet ex_cam_ref2 ''meta'' (trav_id (nd (ex_root ts))))"
    by (simp add: tid n)
  from travDetermineMeta_surface [OF r1 ng k1 mk1 al ge] lay
  have "surface (nd trav1) = Some (surfaces ex_tileset ! sourceReference (metaTileGet ex_cam_ref2 ''meta'' (trav_id (nd (ex_root (Some ex_tileset))))))"
    by simp
  then have s1: "surface (nd trav1) = Some (ex_named ''B'')"
    by (simp add: tid n ex_tileset_def)
  from travDetermineMeta_surface [OF r2 ng k2 mk2 al ge] lay
  have s2: "surface (nd trav2) = Some ex_surface"
    by (simp add: ss)
  from r1 s1 r2 s2 show ?thesis by blast
qed


subsection \<open>The tileset mapping\<close>

text \<open>
  The stack that \<^verbatim>\<open>TilesetMapping::update\<close> builds has one item more than the mapping
  has rows: it starts with a default item without a surface, and the item of row \<open>j\<close>
  is at index \<open>j + 1\<close> ("the sourceReference in metanodes is one-based").
\<close>

theorem TilesetMapping_update_one_based:
  assumes "TilesetMapping_update cfg vsId dataRaw = Some stack"
  shows "length stack = Suc (length dataRaw)
       \<and> itemSurface (stack ! 0) = None
       \<and> (\<forall>j < length dataRaw. tilesetItem cfg vsId (dataRaw ! j) = Some (stack ! Suc j))"
proof -
  from assms obtain items where
    it: "those' (map (tilesetItem cfg vsId) dataRaw) = Some items"
    and st: "stack = \<lparr>itemSurface = None\<rparr> # items"
    by (auto simp: TilesetMapping_update_def split: bind_splits)
  from those'_nth [OF it] have l: "length items = length dataRaw"
    and a: "\<forall>j < length dataRaw. tilesetItem cfg vsId (dataRaw ! j) = Some (items ! j)"
    by simp_all
  from st l a show ?thesis by simp
qed

theorem TilesetMapping_update_one_based_witness:
  "TilesetMapping_update ex_cfg [''A'', ''B''] [[0], [1]]
     = Some [\<lparr>itemSurface = None\<rparr>, \<lparr>itemSurface = Some (ex_named ''A'')\<rparr>,
             \<lparr>itemSurface = Some (ex_named ''B'')\<rparr>]
   \<and> tilesetItem ex_cfg [''A'', ''B''] ([[0], [1]] ! 1) = Some \<lparr>itemSurface = Some (ex_named ''B'')\<rparr>"
proof -
  have up: "TilesetMapping_update ex_cfg [''A'', ''B''] [[0], [1]]
     = Some [\<lparr>itemSurface = None\<rparr>, \<lparr>itemSurface = Some (ex_named ''A'')\<rparr>,
             \<lparr>itemSurface = Some (ex_named ''B'')\<rparr>]"
    by (simp add: TilesetMapping_update_def tilesetItem_def vsIdAt_def ex_cfg_def ex_named_def)
  from TilesetMapping_update_one_based [OF up]
  have a: "\<forall>j < length [[0], [1 :: nat]]. tilesetItem ex_cfg [''A'', ''B''] ([[0], [1]] ! j)
          = Some ([\<lparr>itemSurface = None\<rparr>, \<lparr>itemSurface = Some (ex_named ''A'')\<rparr>,
             \<lparr>itemSurface = Some (ex_named ''B'')\<rparr>] ! Suc j)"
    by blast
  from a [rule_format, of 1]
  have "tilesetItem ex_cfg [''A'', ''B''] ([[0], [1]] ! 1)
          = Some \<lparr>itemSurface = Some (ex_named ''B'')\<rparr>"
    by simp
  with up show ?thesis by simp
qed
section \<open>Properties of the priorities\<close>

lemma round_double_3: "round_double 3 = Fin 3"
  using round_double_int [of 3] by simp

lemma round_double_third: "round_double (1000000 / 3) = Fin (5726623061333333 / 17179869184)"
  by code_simp

lemma round_float_third: "round_float (5726623061333333 / 17179869184) = Fin (10666667 / 32)"
  by code_simp

lemma priorityOfDistance_2: "priorityOfDistance 2 = Fin (10666667 / 32)"
  by (simp add: priorityOfDistance_def double_add_def double_div_def to_float_def
      round_double_3 round_double_third round_float_third)

lemma float_div_100_3: "float_div 100 3 = Fin (8738133 / 262144)"
proof -
  have "round_float (100 / 3) = Fin (8738133 / 262144)" by code_simp
  then show ?thesis by (simp add: float_div_def)
qed


text \<open>
  C6, as stated, fails in the hierarchical traverse mode: for a node of lod 4 at
  distance 0 from the focus, \<^verbatim>\<open>computeResourcePriority\<close> returns \<open>100 / 4 = 25\<close>, not
  \<open>1e6 / (0 + 1)\<close>.
\<close>

theorem computeResourcePriority_hierarchical_counterexample:
  "MapImpl_travDistance ex_nav ex_libnode (rendererFocusPosPhys ex_nav) = Some 0
   \<and> computeResourcePriority ex_nav ex_libnode = Some (Fin 25)
   \<and> computeResourcePriority ex_nav ex_libnode \<noteq> Some (Fin (1000000 / (0 + 1)))
   \<and> computeResourcePriority ex_nav ex_libnode \<noteq> Some (priorityOfDistance 0)"
  by (simp add: MapImpl_travDistance_def computeResourcePriority_def ex_nav_def ex_libnode_def
      float_div_100_4 priorityOfDistance_0)


text \<open>
  C6, amended.  For a node with a metanode, \<^verbatim>\<open>CameraImpl::updateNodePriority\<close> sets the
  priority to \<^verbatim>\<open>(float)(1e6 / (d + 1))\<close>, \<open>d\<close> being the distance of the focus point from
  the node's bounding box in the physical SRS: the sum and the quotient are rounded to
  \<^verbatim>\<open>double\<close>, the result is rounded to \<^verbatim>\<open>float\<close>.  \<^verbatim>\<open>MapImpl::computeResourcePriority\<close>
  returns \<^verbatim>\<open>(float)(1e6 / (d' + 1))\<close>, \<open>d'\<close> being measured in the node's SRS against the
  node's extents and the z range of the geometric extents when these are not empty, the
  node has an SRS and \<open>debugDisableMeta5\<close> is false, and in the physical SRS otherwise;
  in the hierarchical traverse mode it returns the \<^verbatim>\<open>float\<close> quotient \<^verbatim>\<open>100.f / lod\<close>
  instead.  For a distance \<open>0 \<le> d\<close> with \<open>d + 1 < 2^100\<close> the priority is finite and
  differs from \<open>1e6 / (d + 1)\<close> by at most the fraction \<open>1/2^23\<close> of it; for a level above
  0 the priority of the hierarchical mode is finite and differs from \<open>100 / lod\<close> by at
  most the fraction \<open>1/2^24\<close> of it.
\<close>

theorem priority_formulas:
  "(meta (nd trav) = Some m \<longrightarrow>
      (let d = aabbPointDist cam (focusPosPhys cam) (fst (aabbPhys m)) (snd (aabbPhys m))
       in \<exists>trav'. updateNodePriority cam par trav = Some trav'
            \<and> priority (nd trav')
                = (case double_add (Fin d) (Fin 1) of
                     NonFin \<Rightarrow> Fin 0
                   | Fin s \<Rightarrow> to_float (double_div 1000000 s))
            \<and> (0 \<le> d \<and> d + 1 < 2 ^ 100 \<longrightarrow>
                 (\<exists>q. priority (nd trav') = Fin q
                    \<and> \<bar>q - 1000000 / (d + 1)\<bar> \<le> 1000000 / (d + 1) / 2 ^ 23))))
 \<and> (libMeta node = Some mi \<longrightarrow>
      (let d = (if geomExtentsZ mi \<noteq> None \<and> nodeSrs node \<noteq> [] \<and> \<not> debugDisableMeta5 impl
                then mapAabbPointDist impl
                       (convert impl (rendererFocusPosPhys impl) (physicalSrs impl) (nodeSrs node))
                       (vec2to3 (fst (nodeExtents node)) (fst (the (geomExtentsZ mi))))
                       (vec2to3 (snd (nodeExtents node)) (snd (the (geomExtentsZ mi))))
                else mapAabbPointDist impl (rendererFocusPosPhys impl)
                       (fst (metaAabbPhys mi)) (snd (metaAabbPhys mi)));
           l = of_nat (unat (lod (libNodeId node)))
       in MapImpl_travDistance impl node (rendererFocusPosPhys impl) = Some d
        \<and> computeResourcePriority impl node
            = Some (if traverseMode impl = Hierarchical
                    then float_div 100 l
                    else (case double_add (Fin d) (Fin 1) of
                            NonFin \<Rightarrow> Fin 0
                          | Fin s \<Rightarrow> to_float (double_div 1000000 s)))
        \<and> (traverseMode impl \<noteq> Hierarchical \<and> 0 \<le> d \<and> d + 1 < 2 ^ 100 \<longrightarrow>
             (\<exists>q. computeResourcePriority impl node = Some (Fin q)
                \<and> \<bar>q - 1000000 / (d + 1)\<bar> \<le> 1000000 / (d + 1) / 2 ^ 23))
        \<and> (traverseMode impl = Hierarchical \<and> lod (libNodeId node) \<noteq> 0 \<longrightarrow>
             (\<exists>q. computeResourcePriority impl node = Some (Fin q)
                \<and> \<bar>q - 100 / l\<bar> \<le> 100 / l / 2 ^ 24))))"
proof (intro conjI impI)
  assume m: "meta (nd trav) = Some m"
  define d where "d = aabbPointDist cam (focusPosPhys cam) (fst (aabbPhys m)) (snd (aabbPhys m))"
  have u: "updateNodePriority cam par trav
          = Some (upd (\<lambda>n. n\<lparr>priority := priorityOfDistance d\<rparr>) trav)"
    using m by (simp add: updateNodePriority_def travDistance_def d_def)
  have p: "priority (nd (upd (\<lambda>n. n\<lparr>priority := priorityOfDistance d\<rparr>) trav))
      = priorityOfDistance d"
    by (simp add: upd_def)
  have e: "0 \<le> d \<and> d + 1 < 2 ^ 100 \<longrightarrow>
      (\<exists>q. priorityOfDistance d = Fin q
         \<and> \<bar>q - 1000000 / (d + 1)\<bar> \<le> 1000000 / (d + 1) / 2 ^ 23)"
    using priorityOfDistance_error [of d] by blast
  from u p e have "\<exists>trav'. updateNodePriority cam par trav = Some trav'
            \<and> priority (nd trav')
                = (case double_add (Fin d) (Fin 1) of
                     NonFin \<Rightarrow> Fin 0
                   | Fin s \<Rightarrow> to_float (double_div 1000000 s))
            \<and> (0 \<le> d \<and> d + 1 < 2 ^ 100 \<longrightarrow>
                 (\<exists>q. priority (nd trav') = Fin q
                    \<and> \<bar>q - 1000000 / (d + 1)\<bar> \<le> 1000000 / (d + 1) / 2 ^ 23))"
    by (simp add: priorityOfDistance_def)
  then show "let d = aabbPointDist cam (focusPosPhys cam) (fst (aabbPhys m)) (snd (aabbPhys m))
       in \<exists>trav'. updateNodePriority cam par trav = Some trav'
            \<and> priority (nd trav')
                = (case double_add (Fin d) (Fin 1) of
                     NonFin \<Rightarrow> Fin 0
                   | Fin s \<Rightarrow> to_float (double_div 1000000 s))
            \<and> (0 \<le> d \<and> d + 1 < 2 ^ 100 \<longrightarrow>
                 (\<exists>q. priority (nd trav') = Fin q
                    \<and> \<bar>q - 1000000 / (d + 1)\<bar> \<le> 1000000 / (d + 1) / 2 ^ 23))"
    unfolding Let_def d_def .
next
  assume mi: "libMeta node = Some mi"
  define d where "d = (if geomExtentsZ mi \<noteq> None \<and> nodeSrs node \<noteq> [] \<and> \<not> debugDisableMeta5 impl
                then mapAabbPointDist impl
                       (convert impl (rendererFocusPosPhys impl) (physicalSrs impl) (nodeSrs node))
                       (vec2to3 (fst (nodeExtents node)) (fst (the (geomExtentsZ mi))))
                       (vec2to3 (snd (nodeExtents node)) (snd (the (geomExtentsZ mi))))
                else mapAabbPointDist impl (rendererFocusPosPhys impl)
                       (fst (metaAabbPhys mi)) (snd (metaAabbPhys mi)))"
  define l :: rat where "l = of_nat (unat (lod (libNodeId node)))"
  have t: "MapImpl_travDistance impl node (rendererFocusPosPhys impl) = Some d"
    using mi by (auto simp: MapImpl_travDistance_def d_def)
  have c: "computeResourcePriority impl node
            = Some (if traverseMode impl = Hierarchical then float_div 100 l
                    else priorityOfDistance d)"
    by (simp add: computeResourcePriority_def t l_def)
  have e: "traverseMode impl \<noteq> Hierarchical \<and> 0 \<le> d \<and> d + 1 < 2 ^ 100 \<longrightarrow>
             (\<exists>q. computeResourcePriority impl node = Some (Fin q)
                \<and> \<bar>q - 1000000 / (d + 1)\<bar> \<le> 1000000 / (d + 1) / 2 ^ 23)"
    using priorityOfDistance_error [of d] by (auto simp: c)
  have h: "traverseMode impl = Hierarchical \<and> lod (libNodeId node) \<noteq> 0 \<longrightarrow>
             (\<exists>q. computeResourcePriority impl node = Some (Fin q)
                \<and> \<bar>q - 100 / l\<bar> \<le> 100 / l / 2 ^ 24)"
  proof
    assume a: "traverseMode impl = Hierarchical \<and> lod (libNodeId node) \<noteq> 0"
    then have "unat (lod (libNodeId node)) \<noteq> 0" by (simp add: unat_eq_0)
    then have n0: "0 < unat (lod (libNodeId node))" by simp
    have "unat (lod (libNodeId node)) < 2 ^ 8"
      using unsigned_less [of "lod (libNodeId node)", where 'a = nat] by simp
    then have n1: "unat (lod (libNodeId node)) \<le> 255" by simp
    from float_div_100_error [OF n0 n1] a show "\<exists>q. computeResourcePriority impl node = Some (Fin q)
                \<and> \<bar>q - 100 / l\<bar> \<le> 100 / l / 2 ^ 24"
      by (simp add: c l_def)
  qed
  from t c e h have "MapImpl_travDistance impl node (rendererFocusPosPhys impl) = Some d
        \<and> computeResourcePriority impl node
            = Some (if traverseMode impl = Hierarchical
                    then float_div 100 l
                    else (case double_add (Fin d) (Fin 1) of
                            NonFin \<Rightarrow> Fin 0
                          | Fin s \<Rightarrow> to_float (double_div 1000000 s)))
        \<and> (traverseMode impl \<noteq> Hierarchical \<and> 0 \<le> d \<and> d + 1 < 2 ^ 100 \<longrightarrow>
             (\<exists>q. computeResourcePriority impl node = Some (Fin q)
                \<and> \<bar>q - 1000000 / (d + 1)\<bar> \<le> 1000000 / (d + 1) / 2 ^ 23))
        \<and> (traverseMode impl = Hierarchical \<and> lod (libNodeId node) \<noteq> 0 \<longrightarrow>
             (\<exists>q. computeResourcePriority impl node = Some (Fin q)
                \<and> \<bar>q - 100 / l\<bar> \<le> 100 / l / 2 ^ 24))"
    by (simp add: priorityOfDistance_def)
  then show "let d = (if geomExtentsZ mi \<noteq> None \<and> nodeSrs node \<noteq> [] \<and> \<not> debugDisableMeta5 impl
                then mapAabbPointDist impl
                       (convert impl (rendererFocusPosPhys impl) (physicalSrs impl) (nodeSrs node))
                       (vec2to3 (fst (nodeExtents node)) (fst (the (geomExtentsZ mi))))
                       (vec2to3 (snd (nodeExtents node)) (snd (the (geomExtentsZ mi))))
                else mapAabbPointDist impl (rendererFocusPosPhys impl)
                       (fst (metaAabbPhys mi)) (snd (metaAabbPhys mi)));
           l = of_nat (unat (lod (libNodeId node)))
       in MapImpl_travDistance impl node (rendererFocusPosPhys impl) = Some d
        \<and> computeResourcePriority impl node
            = Some (if traverseMode impl = Hierarchical
                    then float_div 100 l
                    else (case double_add (Fin d) (Fin 1) of
                            NonFin \<Rightarrow> Fin 0
                          | Fin s \<Rightarrow> to_float (double_div 1000000 s)))
        \<and> (traverseMode impl \<noteq> Hierarchical \<and> 0 \<le> d \<and> d + 1 < 2 ^ 100 \<longrightarrow>
             (\<exists>q. computeResourcePriority impl node = Some (Fin q)
                \<and> \<bar>q - 1000000 / (d + 1)\<bar> \<le> 1000000 / (d + 1) / 2 ^ 23))
        \<and> (traverseMode impl = Hierarchical \<and> lod (libNodeId node) \<noteq> 0 \<longrightarrow>
             (\<exists>q. computeResourcePriority impl node = Some (Fin q)
                \<and> \<bar>q - 100 / l\<bar> \<le> 100 / l / 2 ^ 24))"
    unfolding Let_def d_def l_def .
qed

text \<open>
  The witness: at distance 2 the priority is the \<^verbatim>\<open>float\<close> 333333.34375 (the quotient
  \<open>1e6 / 3\<close> is not a \<^verbatim>\<open>float\<close>), in both functions; in the hierarchical mode a node of
  lod 3 has the priority 8738133/262144 (about 33.333332), a node of lod 4 the
  priority 25.
\<close>

theorem priority_formulas_witness:
  "(\<exists>trav'. updateNodePriority (ex_cam\<lparr>aabbPointDist := (\<lambda>p l u. 2)\<rparr>) None
               (TraverseNode ex_data []) = Some trav'
      \<and> priority (nd trav') = Fin (10666667 / 32)
      \<and> \<bar>10666667 / 32 - 1000000 / (2 + 1) :: rat\<bar> \<le> 1000000 / (2 + 1) / 2 ^ 23)
 \<and> computeResourcePriority (ex_nav\<lparr>traverseMode := Balanced, mapAabbPointDist := (\<lambda>p l u. 2)\<rparr>)
      ex_libnode = Some (Fin (10666667 / 32))
 \<and> computeResourcePriority ex_nav (ex_libnode\<lparr>libNodeId := \<lparr>lod = 3, xidx = 3, yidx = 5\<rparr>\<rparr>)
      = Some (Fin (8738133 / 262144))
 \<and> computeResourcePriority ex_nav ex_libnode = Some (Fin 25)"
proof -
  let ?mi = "\<lparr>geomExtentsZ = Some (0, 1), metaAabbPhys = ((0, 0, 0), (1, 1, 1))\<rparr>"
  let ?cam = "ex_cam\<lparr>aabbPointDist := (\<lambda>p l u. 2)\<rparr>"
  let ?nav = "ex_nav\<lparr>traverseMode := Balanced, mapAabbPointDist := (\<lambda>p l u. 2)\<rparr>"
  let ?node3 = "ex_libnode\<lparr>libNodeId := \<lparr>lod = 3, xidx = 3, yidx = 5\<rparr>\<rparr>"
  have m: "meta (nd (TraverseNode ex_data [])) = Some ex_meta" by (simp add: ex_data_def)
  have mi: "libMeta ex_libnode = Some ?mi" "libMeta ?node3 = Some ?mi"
    by (simp_all add: ex_libnode_def)
  have p2: "(case double_add (Fin 2) (Fin 1) of NonFin \<Rightarrow> Fin 0
             | Fin s \<Rightarrow> to_float (double_div 1000000 s)) = Fin (10666667 / 32)"
    using priorityOfDistance_2 by (simp add: priorityOfDistance_def)
  note a = priority_formulas [of "TraverseNode ex_data []" ex_meta ?cam None ex_libnode ?mi ?nav]
  note b = priority_formulas [of "TraverseNode ex_data []" ex_meta ?cam None ?node3 ?mi ex_nav]
  note c = priority_formulas [of "TraverseNode ex_data []" ex_meta ?cam None ex_libnode ?mi ex_nav]
  from a m have 1: "\<exists>trav'. updateNodePriority ?cam None (TraverseNode ex_data []) = Some trav'
      \<and> priority (nd trav') = Fin (10666667 / 32)
      \<and> \<bar>10666667 / 32 - 1000000 / (2 + 1) :: rat\<bar> \<le> 1000000 / (2 + 1) / 2 ^ 23"
    by (auto simp: ex_cam_def Let_def p2)
  from a mi(1) have 2: "computeResourcePriority ?nav ex_libnode = Some (Fin (10666667 / 32))"
    by (simp add: ex_nav_def ex_libnode_def Let_def p2)
  from b mi(2) have 3: "computeResourcePriority ex_nav ?node3 = Some (Fin (8738133 / 262144))"
    by (simp add: ex_nav_def ex_libnode_def Let_def float_div_100_3)
  from c mi(1) have 4: "computeResourcePriority ex_nav ex_libnode = Some (Fin 25)"
    by (simp add: ex_nav_def ex_libnode_def Let_def float_div_100_4)
  from 1 2 3 4 show ?thesis by blast
qed
section \<open>Properties of the traversal strategies\<close>

subsection \<open>What the operations on one node add to the events\<close>

lemma appended_refl: "appended P st st"
  by (simp add: appended_def)

lemma appended_same_events: "events st' = events st \<Longrightarrow> appended P st st'"
  by (simp add: appended_def)

lemma appended_trans: "appended P st st1 \<Longrightarrow> appended P st1 st2 \<Longrightarrow> appended P st st2"
  by (fastforce simp: appended_def)

lemma appended_mono: "appended P st st' \<Longrightarrow> (\<And>t. P t \<Longrightarrow> Q t) \<Longrightarrow> appended Q st st'"
  by (auto simp: appended_def)

lemma appended_emit: "(\<And>t. RenderNode t \<in> set es \<Longrightarrow> P t) \<Longrightarrow> appended P st (emit es st)"
  by (auto simp: appended_def emit_def)

lemma appended_emit_after:
  "appended P st st1 \<Longrightarrow> (\<And>t. RenderNode t \<in> set es \<Longrightarrow> P t) \<Longrightarrow> appended P st (emit es st1)"
  by (rule appended_trans [OF _ appended_emit])

lemma sameNode_refl: "sameNode t t"
  by (simp add: sameNode_def)

lemma sameNode_trans: "sameNode a b \<Longrightarrow> sameNode b c \<Longrightarrow> sameNode a c"
  by (simp add: sameNode_def)

lemma sameNode_upd:
  "trav_id (f (nd t)) = trav_id (nd t) \<Longrightarrow> meta (f (nd t)) = meta (nd t) \<Longrightarrow> sameNode t (upd f t)"
  by (simp add: sameNode_def upd_def)

lemma updateNodePriority_same:
  "updateNodePriority cam par t = Some t' \<Longrightarrow>
     sameNode t t' \<and> determined (nd t') = determined (nd t) \<and> surface (nd t') = surface (nd t)"
  by (auto simp: updateNodePriority_def travDistance_def sameNode_def upd_def
      split: if_splits option.splits bind_splits)

lemma travInternalTexture_quiet:
  "travInternalTexture cam st trav i = Some (tex, st1) \<Longrightarrow> appended (\<lambda>t. False) st st1"
  by (auto simp: travInternalTexture_def Let_def intro!: appended_emit split: bind_splits)

lemma internalTextureStep_quiet:
  "internalTextureStep cam i part (acc, st, trav) = Some (acc', st', trav') \<Longrightarrow>
     appended (\<lambda>t. False) st st' \<and> sameNode trav trav'"
  by (auto simp: internalTextureStep_def Let_def sameNode_def upd_def appended_refl
      dest: travInternalTexture_quiet split: if_splits bind_splits Validity.splits)

lemma submeshStep_quiet:
  "submeshStep cam i part (acc, st, trav) = Some (acc', st', trav') \<Longrightarrow>
     appended (\<lambda>t. False) st st' \<and> sameNode trav trav'"
proof -
  assume r: "submeshStep cam i part (acc, st, trav) = Some (acc', st', trav')"
  show ?thesis
  proof (cases "externalUv part")
    case False
    with r show ?thesis by (simp add: submeshStep_def internalTextureStep_quiet)
  next
    case True
    from r True obtain sf m where sf: "surface (nd trav) = Some sf" and m: "meta (nd trav) = Some m"
      by (auto simp: submeshStep_def split: bind_splits)
    let ?bls1 = "(if textureLayer part \<noteq> 0
                      then boundList (layer (nd trav)) sf (surfaceReference part)
                             @ [newBoundParamInfo (textureLayerId cam (textureLayer part))]
                      else boundList (layer (nd trav)) sf (surfaceReference part))"
    obtain validity bls where ro: "reorder cam (trav_id (nd trav)) (metaLocalId m) i ?bls1
        (priority (nd trav)) = (validity, bls)"
      by (cases "reorder cam (trav_id (nd trav)) (metaLocalId m) i ?bls1 (priority (nd trav))")
    let ?st1 = "emit [ReorderBoundLayers (trav_id (nd trav)) (metaLocalId m) i ?bls1
                            (priority (nd trav))] st"
    let ?trav1 = "upd (\<lambda>n. n\<lparr>resources := resources n @ stackResources bls\<rparr>) trav"
    have q1: "appended (\<lambda>t. False) st ?st1" by (rule appended_emit) simp
    have s1: "sameNode trav ?trav1" by (rule sameNode_upd) simp_all
    from r True sf m ro
    have "(st' = ?st1 \<and> trav' = ?trav1)
        \<or> (\<exists>acc1. internalTextureStep cam i part (acc1, ?st1, ?trav1) = Some (acc', st', trav'))"
      by (auto simp: submeshStep_def Let_def split: bind_splits Validity.splits if_splits)
    then show ?thesis
    proof
      assume "st' = ?st1 \<and> trav' = ?trav1"
      with q1 s1 show ?thesis by simp
    next
      assume "\<exists>acc1. internalTextureStep cam i part (acc1, ?st1, ?trav1) = Some (acc', st', trav')"
      then obtain acc1 where "internalTextureStep cam i part (acc1, ?st1, ?trav1) = Some (acc', st', trav')"
        by blast
      from internalTextureStep_quiet [OF this] q1 s1 show ?thesis
        by (blast intro: appended_trans sameNode_trans)
    qed
  qed
qed

lemma submeshLoop_quiet:
  "submeshLoop cam i ps (acc, st, trav) = Some (acc', st', trav') \<Longrightarrow>
     appended (\<lambda>t. False) st st' \<and> sameNode trav trav'"
proof (induction ps arbitrary: i acc st trav)
  case Nil
  then show ?case by (simp add: appended_refl sameNode_refl)
next
  case (Cons p ps)
  from Cons.prems obtain acc1 st1 trav1 where
    s: "submeshStep cam i p (acc, st, trav) = Some (acc1, st1, trav1)"
    and l: "submeshLoop cam (Suc i) ps (acc1, st1, trav1) = Some (acc', st', trav')"
    by (auto split: option.splits)
  from submeshStep_quiet [OF s] Cons.IH [OF l] show ?case
    by (blast intro: appended_trans sameNode_trans)
qed

lemma travDetermineDrawsSurface_quiet:
  assumes "travDetermineDrawsSurface cam st trav = Some (r, st', trav')"
  shows "appended (\<lambda>t. False) st st' \<and> sameNode trav trav'"
proof -
  let ?st1 = "emit (map TouchResource (resources (nd trav))) st"
  have q1: "appended (\<lambda>t. False) st ?st1" by (rule appended_emit) auto
  show ?thesis
  proof (cases "\<exists>it \<in> set (resources (nd trav)). getValidity cam it = Indeterminate")
    case True
    with assms have "st' = ?st1" "trav' = trav"
      by (auto simp: travDetermineDrawsSurface_def Let_def split: bind_splits)
    with q1 show ?thesis by (simp add: sameNode_refl)
  next
    case False
    from assms False obtain sf m where sf: "surface (nd trav) = Some sf" and m: "meta (nd trav) = Some m"
      by (auto simp: travDetermineDrawsSurface_def Let_def split: bind_splits if_splits)
    let ?name = "urlMesh sf \<lparr>tileId = trav_id (nd trav), localId = metaLocalId m, subMeshIndex = 0\<rparr>"
    let ?trav1 = "upd (\<lambda>n. n\<lparr>resources := [?name]\<rparr>) trav"
    let ?st2 = "emit [GetMeshAggregate ?name, UpdateResourcePriority ?name (priority (nd trav))] ?st1"
    have q2: "appended (\<lambda>t. False) st ?st2"
      by (rule appended_emit_after [OF q1]) auto
    have s1: "sameNode trav ?trav1" by (rule sameNode_upd) simp_all
    show ?thesis
    proof (cases "getValidity cam ?name")
      case Indeterminate
      with assms False sf m have "st' = ?st2" "trav' = ?trav1"
        by (auto simp: travDetermineDrawsSurface_def Let_def split: bind_splits)
      with q2 s1 show ?thesis by simp
    next
      case Invalid
      with assms False sf m have "st' = ?st2"
        "trav' = upd (\<lambda>n. n\<lparr>surface := None, resources := []\<rparr>) ?trav1"
        by (auto simp: travDetermineDrawsSurface_def Let_def split: bind_splits)
      with q2 show ?thesis by (simp add: sameNode_def upd_def)
    next
      case Valid
      with assms False sf m obtain acc st3 trav3 where
        l: "submeshLoop cam 0 (submeshes cam ?name)
                (\<lparr>allDetermined = True, newOpaque = [], newTransparent = [], newCredits = []\<rparr>,
                 ?st2, ?trav1) = Some (acc, st3, trav3)"
        and res: "st' = st3" "sameNode trav3 trav'"
        by (auto simp: travDetermineDrawsSurface_def Let_def sameNode_def upd_def
            split: bind_splits if_splits)
      from submeshLoop_quiet [OF l] q2 s1 res show ?thesis
        by (blast intro: appended_trans sameNode_trans)
    qed
  qed
qed

lemma travDetermineDrawsGeodata_quiet:
  assumes "travDetermineDrawsGeodata cam st trav = Some (r, st', trav')"
  shows "appended (\<lambda>t. False) st st' \<and> sameNode trav trav'"
  using assms
  by (auto simp: travDetermineDrawsGeodata_def Let_def sameNode_def upd_def
      intro!: appended_emit appended_emit_after
      split: bind_splits if_splits Validity.splits)

lemma travDetermineDraws_quiet:
  assumes "travDetermineDraws cam st par trav = Some (r, st', trav')"
  shows "appended (\<lambda>t. False) st st' \<and> sameNode trav trav' \<and> r = determined (nd trav')"
proof -
  let ?st1 = "emit [TouchDraws trav] st"
  have q1: "appended (\<lambda>t. False) st ?st1" by (rule appended_emit) simp
  show ?thesis
  proof (cases "surface (nd trav) = None \<or> determined (nd trav)")
    case True
    with assms have "st' = ?st1" "trav' = trav" "r = determined (nd trav)"
      by (auto simp: travDetermineDraws_def Let_def split: bind_splits)
    with q1 show ?thesis by (simp add: sameNode_refl)
  next
    case False
    let ?st2 = "?st1\<lparr>statistics := (statistics ?st1)
                   \<lparr>currentNodeDrawsUpdates := Suc (currentNodeDrawsUpdates (statistics ?st1))\<rparr>\<rparr>"
    have q2: "appended (\<lambda>t. False) st ?st2"
      by (rule appended_trans [OF q1]) (simp add: appended_same_events)
    from assms False obtain trav1 r3 st3 trav3 where
      u: "updateNodePriority cam par trav = Some trav1"
      and d: "(if isGeodata (layer (nd trav1))
           then travDetermineDrawsGeodata cam ?st2 trav1
           else travDetermineDrawsSurface cam ?st2 trav1) = Some (r3, st3, trav3)"
      and res: "r = r3" "st' = st3" "trav' = upd (\<lambda>n. n\<lparr>determined := r3\<rparr>) trav3"
      by (auto simp: travDetermineDraws_def Let_def split: bind_splits if_splits)
    from d have "appended (\<lambda>t. False) ?st2 st3 \<and> sameNode trav1 trav3"
      by (auto dest: travDetermineDrawsGeodata_quiet travDetermineDrawsSurface_quiet
          split: if_splits)
    with q2 updateNodePriority_same [OF u] res show ?thesis
      by (auto simp: sameNode_def upd_def intro: appended_trans)
  qed
qed

lemma handles_no_render: "RenderNode t \<notin> set (map GetMetaTile xs)"
  by auto

lemma metaTilesLoop_quiet:
  "metaTilesLoop cam par nid v i ss = Some (ms, es) \<Longrightarrow> RenderNode t \<notin> set es"
proof (induction ss arbitrary: i ms es)
  case Nil
  then show ?case by simp
next
  case (Cons s ss)
  then show ?case by (auto split: bind_splits if_splits)
qed

lemma travDetermineMeta_quiet:
  assumes "travDetermineMeta cam st par trav init = Some (r, st', trav')"
  shows "appended (\<lambda>t. False) st st'"
proof -
  let ?st1 = "st\<lparr>statistics := (statistics st)
                  \<lparr>currentNodeMetaUpdates := Suc (currentNodeMetaUpdates (statistics st))\<rparr>\<rparr>"
  have q1: "appended (\<lambda>t. False) st ?st1" by (simp add: appended_same_events)
  show ?thesis
  proof (cases "freeLayer (layer (nd trav)) = Some Geodata")
    case True
    with assms have "st' = ?st1"
      by (auto simp: travDetermineMeta_def generateMonolithicGeodataTrav_def Let_def
          split: bind_splits)
    with q1 show ?thesis by simp
  next
    case False
    from assms False obtain mts es where
      l: "(if metaTiles (nd trav) = []
          then metaTilesLoop cam par (trav_id (nd trav))
                 (zeroVars\<lparr>tileId := roundId cam (trav_id (nd trav))\<rparr>) 0
                 (surfaces (surfaceStack (layer (nd trav))))
          else Some (metaTiles (nd trav), [])) = Some (mts, es)"
      and res: "st' = emit (es @ map (\<lambda>m. UpdateResourcePriority m (ftimes (priority (nd trav)) 2))
                             (handles mts)) ?st1"
      by (auto simp: travDetermineMeta_def Let_def
          split: bind_splits if_splits option.splits prod.splits)
    from l have "\<And>t. RenderNode t \<notin> set es"
      by (auto dest: metaTilesLoop_quiet split: if_splits)
    then have "appended (\<lambda>t. False) ?st1 st'"
      unfolding res by (intro appended_emit) auto
    with q1 show ?thesis by (rule appended_trans)
  qed
qed

lemma travInit_quiet:
  assumes "travInit cam st par trav init = Some (r, st', trav')"
  shows "appended (\<lambda>t. False) st st'"
proof -
  let ?k = "min (unat (lod (trav_id (nd trav)))) (maxLods cam - 1)"
  let ?st1 = "st\<lparr>statistics := (statistics st)
                  \<lparr>metaNodesTraversedTotal := Suc (metaNodesTraversedTotal (statistics st)),
                   metaNodesTraversedPerLod := (metaNodesTraversedPerLod (statistics st))
                     (?k := Suc (metaNodesTraversedPerLod (statistics st) ?k))\<rparr>\<rparr>"
  have q1: "appended (\<lambda>t. False) st ?st1" by (simp add: appended_same_events)
  from assms obtain trav1 where
    u: "updateNodePriority cam par (upd (\<lambda>n. n\<lparr>lastAccessTime := renderTickIndex cam\<rparr>) trav)
          = Some trav1"
    by (auto simp: travInit_def Let_def split: bind_splits)
  show ?thesis
  proof (cases "meta (nd trav1) = None")
    case False
    with assms u have "st' = ?st1"
      by (auto simp: travInit_def Let_def split: bind_splits)
    with q1 show ?thesis by simp
  next
    case True
    let ?st2 = "emit (map TouchResource (handles (metaTiles (nd trav1)))) ?st1"
    have q2: "appended (\<lambda>t. False) st ?st2"
      by (rule appended_emit_after [OF q1]) auto
    from assms u True have "travDetermineMeta cam ?st2 par trav1 init = Some (r, st', trav')"
      by (auto simp: travInit_def Let_def split: bind_splits)
    from travDetermineMeta_quiet [OF this] q2 show ?thesis
      by (blast intro: appended_trans)
  qed
qed

subsection \<open>The nodes that a strategy renders\<close>

declare travModeFlat.simps [simp del]


lemma forChilds_appended:
  assumes f: "\<And>s c s' c'. f s c = Some (s', c') \<Longrightarrow> appended P s s'"
    and r: "forChilds f st cs = Some (st', cs')"
  shows "appended P st st'"
  using r
proof (induction cs arbitrary: st cs')
  case Nil
  then show ?case by (simp add: appended_refl)
next
  case (Cons c cs)
  from Cons.prems obtain st1 c1 cs1 where
    a: "f st c = Some (st1, c1)" and b: "forChilds f st1 cs = Some (st', cs1)"
    by (auto split: option.splits)
  from f [OF a] Cons.IH [OF b] show ?case by (rule appended_trans)
qed

lemma forChildsOk_appended:
  assumes f: "\<And>s c ok s' c'. f s c = Some (ok, s', c') \<Longrightarrow> appended P s s'"
    and r: "forChildsOk f st cs = Some (oks, st', cs')"
  shows "appended P st st'"
  using r
proof (induction cs arbitrary: st oks cs')
  case Nil
  then show ?case by (simp add: appended_refl)
next
  case (Cons c cs)
  from Cons.prems obtain ok st1 c1 oks1 cs1 where
    a: "f st c = Some (ok, st1, c1)" and b: "forChildsOk f st1 cs = Some (oks1, st', cs1)"
    by (auto split: option.splits)
  from f [OF a] Cons.IH [OF b] show ?case by (rule appended_trans)
qed

lemma dropOk_Some: "dropOk r = Some (s, c) \<Longrightarrow> \<exists>ok. r = Some (ok, s, c)"
  by (auto simp: dropOk_def split: option.splits)

lemma appended_quiet: "appended (\<lambda>t. False) st st' \<Longrightarrow> appended P st st'"
  by (erule appended_mono) simp

lemma travModeFlat_renders:
  "travModeFlat n cam st par trav = Some (st', trav') \<Longrightarrow>
     appended (\<lambda>t. visibilityTest cam t \<and> (coarsenessTest cam t \<or> childs t = [])
                 \<and> determined (nd t)) st st'"
proof (induction n arbitrary: st par trav st' trav')
  case 0
  then show ?case by (simp add: travModeFlat.simps)
next
  case (Suc n)
  let ?P = "\<lambda>t. visibilityTest cam t \<and> (coarsenessTest cam t \<or> childs t = []) \<and> determined (nd t)"
  note run = Suc.prems [unfolded travModeFlat.simps]
  obtain ok st1 trav1 where
    i: "travInit cam st par trav False = Some (ok, st1, trav1)"
  proof (cases "travInit cam st par trav False")
    case None
    with run show ?thesis by simp
  next
    case (Some a)
    then show ?thesis by (cases a) (auto intro: that)
  qed
  from travInit_quiet [OF i] have q1: "appended ?P st st1" by (rule appended_quiet)
  show ?case
  proof (cases "ok \<and> visibilityTest cam trav1")
    case False
    with run i have "st' = st1" by (simp split: if_splits)
    with q1 show ?thesis by simp
  next
    case True
    show ?thesis
    proof (cases "coarsenessTest cam trav1 \<or> childs trav1 = []")
      case c: True
      from run i True c have run2: "(case travDetermineDraws cam st1 par trav1 of
                  None \<Rightarrow> None
                | Some (d, st2, trav2) \<Rightarrow>
                    Some (if d then emit [RenderNode trav2] st2 else st2, trav2)) = Some (st', trav')"
        by simp
      obtain d st2 trav2 where
        dd: "travDetermineDraws cam st1 par trav1 = Some (d, st2, trav2)"
      proof (cases "travDetermineDraws cam st1 par trav1")
        case None
        with run2 show ?thesis by simp
      next
        case (Some a)
        then show ?thesis by (cases a) (auto intro: that)
      qed
      from run2 dd have res: "st' = (if d then emit [RenderNode trav2] st2 else st2)"
        by simp
      from travDetermineDraws_quiet [OF dd] have q2: "appended ?P st1 st2"
        and same: "sameNode trav1 trav2" and d: "d = determined (nd trav2)"
        by (simp_all add: appended_quiet)
      from same have v: "visibilityTest cam trav2 = visibilityTest cam trav1"
        and co: "coarsenessTest cam trav2 = coarsenessTest cam trav1"
        and ch: "childs trav2 = childs trav1"
        by (simp_all add: sameNode_def visibilityTest_def coarsenessTest_def)
      from True c have p: "d \<Longrightarrow> ?P trav2"
        unfolding v co ch using d by simp
      have "appended ?P st2 st'"
      proof (cases d)
        case True
        with res p show ?thesis by (auto intro!: appended_emit)
      next
        case False
        with res show ?thesis by (simp add: appended_refl)
      qed
      with q1 q2 show ?thesis by (blast intro: appended_trans)
    next
      case c: False
      from run i True c have run2:
        "(case forChilds (\<lambda>s c. travModeFlat n cam s (Some trav1) c) st1 (childs trav1) of
                  None \<Rightarrow> None
                | Some (st2, cs) \<Rightarrow> Some (st2, TraverseNode (nd trav1) cs)) = Some (st', trav')"
        by simp
      obtain cs where
        l: "forChilds (\<lambda>s c. travModeFlat n cam s (Some trav1) c) st1 (childs trav1) = Some (st', cs)"
      proof (cases "forChilds (\<lambda>s c. travModeFlat n cam s (Some trav1) c) st1 (childs trav1)")
        case None
        with run2 show ?thesis by simp
      next
        case (Some a)
        with run2 show ?thesis by (cases a) (auto intro: that)
      qed
      have "appended ?P st1 st'"
        by (rule forChilds_appended [OF _ l]) (rule Suc.IH)
      with q1 show ?thesis by (rule appended_trans)
    qed
  qed
qed

declare travModeStable.simps [simp del]

lemma option_triple_cases:
  obtains (None) "r = None" | (Some) a b c where "r = Some (a, b, c)"
  by (cases r) auto

lemma option_pair_cases:
  obtains (None) "r = None" | (Some) a b where "r = Some (a, b)"
  by (cases r) auto

lemma travModeStable_renders:
  "travModeStable n cam st par trav mode = Some (r, st', trav') \<Longrightarrow>
     appended (\<lambda>t. visibilityTest cam t \<and> determined (nd t)) st st'"
proof (induction n arbitrary: st par trav mode r st' trav')
  case 0
  then show ?case by (simp add: travModeStable.simps)
next
  case (Suc n)
  let ?P = "\<lambda>t. visibilityTest cam t \<and> determined (nd t)"
  let ?entry = "(if mode = 2
            then (if meta (nd trav) = None then Some (False, st, trav)
                  else Some (True, st, upd (\<lambda>d. d\<lparr>lastAccessTime := renderTickIndex cam\<rparr>) trav))
            else travInit cam st par trav False)"
  note run = Suc.prems [unfolded travModeStable.simps]
  have ih: "\<And>s par c m ok s' c'. travModeStable n cam s par c m = Some (ok, s', c') \<Longrightarrow> appended ?P s s'"
    by (rule Suc.IH)
  have ih2: "\<And>s par c s' c'. dropOk (travModeStable n cam s par c 2) = Some (s', c') \<Longrightarrow> appended ?P s s'"
    by (auto dest!: dropOk_Some intro: ih)
  obtain ok st1 trav1 where e: "?entry = Some (ok, st1, trav1)"
  proof (cases ?entry rule: option_triple_cases)
    case None
    with run show ?thesis by simp
  next
    case (Some a b c)
    then show ?thesis by (rule that)
  qed
  have q1: "appended ?P st st1"
  proof (cases "mode = 2")
    case True
    with e have "st1 = st" by (auto split: if_splits)
    then show ?thesis by (simp add: appended_refl)
  next
    case False
    with e have "travInit cam st par trav False = Some (ok, st1, trav1)" by simp
    from travInit_quiet [OF this] show ?thesis by (rule appended_quiet)
  qed
  show ?case
  proof (cases "ok \<and> visibilityTest cam trav1")
    case False
    with run e have "st' = st1" by (auto split: if_splits)
    with q1 show ?thesis by simp
  next
    case vis: True
    show ?thesis
    proof (cases "mode = 2")
      case m2: True
      show ?thesis
      proof (cases "determined (nd trav1)")
        case True
        with run e vis m2 have "st' = emit [TouchDraws trav1, RenderNode trav1] st1" by auto
        moreover have "appended ?P st1 (emit [TouchDraws trav1, RenderNode trav1] st1)"
          using vis True by (intro appended_emit) auto
        ultimately show ?thesis using q1 by (auto intro: appended_trans)
      next
        case False
        let ?loop = "forChilds (\<lambda>s c. dropOk (travModeStable n cam s (Some trav1) c 2))
                             st1 (childs trav1)"
        from run e vis m2 False have run2:
          "(case ?loop of None \<Rightarrow> None
            | Some (st2, cs) \<Rightarrow> Some (True, st2, TraverseNode (nd trav1) cs)) = Some (r, st', trav')"
          by simp
        obtain cs where l: "?loop = Some (st', cs)"
        proof (cases ?loop rule: option_pair_cases)
          case None
          with run2 show ?thesis by simp
        next
          case (Some a b)
          with run2 show ?thesis by (auto intro: that)
        qed
        have "appended ?P st1 st'"
          by (rule forChilds_appended [OF _ l]) (rule ih2)
        with q1 show ?thesis by (rule appended_trans)
      qed
    next
      case m2: False
      show ?thesis
      proof (cases "coarsenessTest cam trav1 \<or> childs trav1 = []")
        case c: True
        let ?dd = "travDetermineDraws cam st1 par trav1"
        obtain d st2 trav2 where dd: "?dd = Some (d, st2, trav2)"
        proof (cases ?dd rule: option_triple_cases)
          case None
          with run e vis m2 c show ?thesis by simp
        next
          case (Some a b c)
          then show ?thesis by (rule that)
        qed
        from travDetermineDraws_quiet [OF dd] have q2: "appended ?P st1 st2"
          and same: "sameNode trav1 trav2"
          by (simp_all add: appended_quiet)
        from same have v: "visibilityTest cam trav2 = visibilityTest cam trav1"
          by (simp add: sameNode_def visibilityTest_def)
        from q1 q2 have q12: "appended ?P st st2" by (rule appended_trans)
        show ?thesis
        proof (cases "mode = 1")
          case True
          with run e vis m2 c dd have "st' = st2" by auto
          with q12 show ?thesis by simp
        next
          case m1: False
          show ?thesis
          proof (cases "determined (nd trav2)")
            case True
            with run e vis m2 c dd m1 have "st' = emit [RenderNode trav2] st2" by auto
            moreover have "appended ?P st2 (emit [RenderNode trav2] st2)"
              using vis True v by (intro appended_emit) auto
            ultimately show ?thesis using q12 by (auto intro: appended_trans)
          next
            case False
            let ?loop = "forChilds (\<lambda>s c. dropOk (travModeStable n cam s (Some trav2) c 2))
                                 st2 (childs trav2)"
            from run e vis m2 c dd m1 False have run2:
              "(case ?loop of None \<Rightarrow> None
                | Some (st3, cs) \<Rightarrow> Some (True, st3, TraverseNode (nd trav2) cs)) = Some (r, st', trav')"
              by simp
            obtain cs where l: "?loop = Some (st', cs)"
            proof (cases ?loop rule: option_pair_cases)
              case None
              with run2 show ?thesis by simp
            next
              case (Some a b)
              with run2 show ?thesis by (auto intro: that)
            qed
            have "appended ?P st2 st'"
              by (rule forChilds_appended [OF _ l]) (rule ih2)
            with q12 show ?thesis by (rule appended_trans)
          qed
        qed
      next
        case c: False
        let ?pre = "(if mode = 0 \<and> determined (nd trav1)
                      then (case forChildsOk (\<lambda>s c. travModeStable n cam s (Some trav1) c 1)
                                   st1 (childs trav1) of
                              None \<Rightarrow> None
                            | Some (oks, st2, cs) \<Rightarrow>
                                Some (list_all (\<lambda>b. b) oks, st2, TraverseNode (nd trav1) cs))
                      else Some (True, st1, trav1))"
        obtain loaded st2 trav2 where p: "?pre = Some (loaded, st2, trav2)"
        proof (cases ?pre rule: option_triple_cases)
          case None
          with run e vis m2 c show ?thesis by simp
        next
          case (Some a b c)
          then show ?thesis by (rule that)
        qed
        have q2: "appended ?P st1 st2" and n2: "nd trav2 = nd trav1"
          and det: "\<not> loaded \<longrightarrow> determined (nd trav1)"
        proof -
          show "appended ?P st1 st2"
          proof (cases "mode = 0 \<and> determined (nd trav1)")
            case False
            with p have "st2 = st1" by auto
            then show ?thesis by (simp add: appended_refl)
          next
            case True
            let ?l1 = "forChildsOk (\<lambda>s c. travModeStable n cam s (Some trav1) c 1) st1 (childs trav1)"
            from p True obtain oks cs where l: "?l1 = Some (oks, st2, cs)"
              by (cases ?l1 rule: option_triple_cases) auto
            show ?thesis by (rule forChildsOk_appended [OF _ l]) (rule ih)
          qed
          show "nd trav2 = nd trav1" using p by (auto split: if_splits option.splits)
          show "\<not> loaded \<longrightarrow> determined (nd trav1)" using p by (auto split: if_splits)
        qed
        from q1 q2 have q12: "appended ?P st st2" by (rule appended_trans)
        show ?thesis
        proof (cases loaded)
          case False
          with run e vis m2 c p have "st' = emit [TouchDraws trav2, RenderNode trav2] st2" by auto
          moreover have "appended ?P st2 (emit [TouchDraws trav2, RenderNode trav2] st2)"
            using vis False det n2 by (intro appended_emit) (auto simp: visibilityTest_def)
          ultimately show ?thesis using q12 by (auto intro: appended_trans)
        next
          case True
          let ?loop = "forChildsOk (\<lambda>s c. travModeStable n cam s (Some trav2) c mode)
                                 st2 (childs trav2)"
          from run e vis m2 c p True have run2:
            "(case ?loop of None \<Rightarrow> None
              | Some (oks, st3, cs) \<Rightarrow>
                  Some (list_all (\<lambda>b. b) oks, st3, TraverseNode (nd trav2) cs)) = Some (r, st', trav')"
            by simp
          obtain oks cs where l: "?loop = Some (oks, st', cs)"
          proof (cases ?loop rule: option_triple_cases)
            case None
            with run2 show ?thesis by simp
          next
            case (Some a b c)
            with run2 show ?thesis by (auto intro: that)
          qed
          have "appended ?P st2 st'"
            by (rule forChildsOk_appended [OF _ l]) (rule ih)
          with q12 show ?thesis by (rule appended_trans)
        qed
      qed
    qed
  qed
qed

declare travModeBalanced.simps [simp del]

lemma option_quad_cases:
  obtains (None) "r = None" | (Some) a b c d where "r = Some (a, b, c, d)"
  by (cases r) auto

lemma coarserCalls_no_render: "RenderNode t \<notin> set (coarserCalls oks cs)"
  by (auto simp: coarserCalls_def)

lemma travModeBalanced_renders:
  "travModeBalanced n cam st par trav renderOnly = Some (r, st', trav') \<Longrightarrow>
     appended (\<lambda>t. visibilityTest cam t \<and> determined (nd t)) st st'"
proof (induction n arbitrary: st par trav renderOnly r st' trav')
  case 0
  then show ?case by (simp add: travModeBalanced.simps)
next
  case (Suc n)
  let ?P = "\<lambda>t. visibilityTest cam t \<and> determined (nd t)"
  let ?entry = "(if renderOnly
            then (if meta (nd trav) = None then Some (False, st, trav)
                  else Some (True, st, upd (\<lambda>d. d\<lparr>lastAccessTime := renderTickIndex cam\<rparr>) trav))
            else travInit cam st par trav False)"
  note run = Suc.prems [unfolded travModeBalanced.simps]
  have ih: "\<And>s par c m ok s' c'. travModeBalanced n cam s par c m = Some (ok, s', c') \<Longrightarrow> appended ?P s s'"
    by (rule Suc.IH)
  obtain ok st1 trav1 where e: "?entry = Some (ok, st1, trav1)"
  proof (cases ?entry rule: option_triple_cases)
    case None
    with run show ?thesis by simp
  next
    case (Some a b c)
    then show ?thesis by (rule that)
  qed
  have q1: "appended ?P st st1"
  proof (cases renderOnly)
    case True
    with e have "st1 = st" by (auto split: if_splits)
    then show ?thesis by (simp add: appended_refl)
  next
    case False
    with e have "travInit cam st par trav False = Some (ok, st1, trav1)" by simp
    from travInit_quiet [OF this] show ?thesis by (rule appended_quiet)
  qed
  show ?case
  proof (cases "ok \<and> visibilityTest cam trav1")
    case False
    with run e have "st' = st1" by (auto split: if_splits)
    with q1 show ?thesis by simp
  next
    case vis: True
    let ?mid = "(if renderOnly
                   then (if determined (nd trav1)
                         then Some (True, True, emit [TouchDraws trav1, RenderNode trav1] st1, trav1)
                         else Some (False, True, st1, trav1))
                   else if coarsenessTest cam trav1 \<or> childs trav1 = []
                   then (case travDetermineDraws cam (emit [GridPreloadRequest trav1] st1) par trav1 of
                           None \<Rightarrow> None
                         | Some (d, st2, trav2) \<Rightarrow>
                             if d then Some (True, False, emit [RenderNode trav2] st2, trav2)
                             else Some (False, True, st2, trav2))
                   else Some (False, False, st1, trav1))"
    obtain fin ro1 st2 trav2 where mid: "?mid = Some (fin, ro1, st2, trav2)"
    proof (cases ?mid rule: option_quad_cases)
      case None
      with run e vis show ?thesis by simp
    next
      case (Some a b c d)
      then show ?thesis by (rule that)
    qed
    have q2: "appended ?P st1 st2"
    proof (cases renderOnly)
      case True
      show ?thesis
      proof (cases "determined (nd trav1)")
        case d: True
        with mid True have "st2 = emit [TouchDraws trav1, RenderNode trav1] st1" by auto
        moreover have "appended ?P st1 (emit [TouchDraws trav1, RenderNode trav1] st1)"
          using vis d by (intro appended_emit) auto
        ultimately show ?thesis by simp
      next
        case False
        with mid True have "st2 = st1" by auto
        then show ?thesis by (simp add: appended_refl)
      qed
    next
      case ro: False
      show ?thesis
      proof (cases "coarsenessTest cam trav1 \<or> childs trav1 = []")
        case False
        with mid ro have "st2 = st1" by auto
        then show ?thesis by (simp add: appended_refl)
      next
        case c: True
        let ?st0 = "emit [GridPreloadRequest trav1] st1"
        let ?dd = "travDetermineDraws cam ?st0 par trav1"
        have q0: "appended ?P st1 ?st0" by (rule appended_emit) simp
        obtain d sd travd where dd: "?dd = Some (d, sd, travd)"
        proof (cases ?dd rule: option_triple_cases)
          case None
          with mid ro c show ?thesis by simp
        next
          case (Some a b c)
          then show ?thesis by (rule that)
        qed
        from travDetermineDraws_quiet [OF dd] have qd: "appended ?P ?st0 sd"
          and same: "sameNode trav1 travd" and dv: "d = determined (nd travd)"
          by (simp_all add: appended_quiet)
        from same have v: "visibilityTest cam travd = visibilityTest cam trav1"
          by (simp add: sameNode_def visibilityTest_def)
        from q0 qd have q0d: "appended ?P st1 sd" by (rule appended_trans)
        show ?thesis
        proof (cases d)
          case True
          with mid ro c dd have "st2 = emit [RenderNode travd] sd" by auto
          moreover have "appended ?P sd (emit [RenderNode travd] sd)"
            using vis True v dv by (intro appended_emit) auto
          ultimately show ?thesis using q0d by (auto intro: appended_trans)
        next
          case False
          with mid ro c dd have "st2 = sd" by auto
          with q0d show ?thesis by simp
        qed
      qed
    qed
    from q1 q2 have q12: "appended ?P st st2" by (rule appended_trans)
    show ?thesis
    proof (cases fin)
      case True
      with run e vis mid have "st' = st2" by auto
      with q12 show ?thesis by simp
    next
      case False
      let ?loop = "forChildsOk (\<lambda>s c. travModeBalanced n cam s (Some trav2) c ro1)
                              st2 (childs trav2)"
      from run e vis mid False have run2:
        "(case ?loop of None \<Rightarrow> None
          | Some (oks, st3, cs) \<Rightarrow>
              if \<not> list_ex (\<lambda>b. b) oks \<and> ro1
              then Some (False, st3, TraverseNode (nd trav2) cs)
              else Some (True, emit (coarserCalls oks cs) st3, TraverseNode (nd trav2) cs))
         = Some (r, st', trav')"
        by simp
      obtain oks st3 cs where l: "?loop = Some (oks, st3, cs)"
      proof (cases ?loop rule: option_triple_cases)
        case None
        with run2 show ?thesis by simp
      next
        case (Some a b c)
        then show ?thesis by (rule that)
      qed
      have q3: "appended ?P st2 st3"
        by (rule forChildsOk_appended [OF _ l]) (rule ih)
      from run2 l have "st' = st3 \<or> st' = emit (coarserCalls oks cs) st3"
        by (auto split: if_splits)
      moreover have "appended ?P st3 (emit (coarserCalls oks cs) st3)"
        by (rule appended_emit) (simp add: coarserCalls_no_render)
      ultimately have "appended ?P st3 st'" by (auto simp: appended_refl)
      with q12 q3 show ?thesis by (blast intro: appended_trans)
    qed
  qed
qed

lemmas ex_leaf_run_defs = travInit_def travDetermineDraws_def travDetermineDrawsSurface_def
  updateNodePriority_def travDistance_def assert'_def rendersEmpty_def upd_def emit_def Let_def
  priorityOfDistance_0 visibilityTest_def coarsenessTest_def rendered_def
  ex_cam_def ex_data_def ex_state_def ex_layer_def ex_surface_def ex_meta_def ex_rendered_def
  ex_tile_def

lemma set_renderedNodes: "set (renderedNodes es) = {t. RenderNode t \<in> set es}"
  by (induction es rule: renderedNodes.induct) auto

lemma ex_flat_run:
  "map_option (rendered \<circ> fst)
       (travModeFlat (Suc 0) ex_cam ex_state None (TraverseNode ex_data []))
     = Some [ex_rendered]"
  by (simp add: travModeFlat.simps ex_leaf_run_defs)

lemma ex_balanced_run:
  "map_option (rendered \<circ> fst \<circ> snd)
       (travModeBalanced (Suc 0) ex_cam ex_state None (TraverseNode ex_data []) False)
     = Some [ex_rendered]"
  by (simp add: travModeBalanced.simps ex_leaf_run_defs)

lemma ex_stable_run:
  "map_option (rendered \<circ> fst \<circ> snd)
       (travModeStable (Suc 0) ex_cam ex_state None (TraverseNode ex_data []) 0)
     = Some [ex_rendered]"
  by (simp add: travModeStable.simps ex_leaf_run_defs)


text \<open>
  C5, as stated, fails: \<^verbatim>\<open>travModeFlat\<close> renders a visible node without children whose
  draws are determined although the node fails the coarseness test.  (The branch
  \<^verbatim>\<open>coarsenessTest(trav) || trav->childs.empty()\<close> is the same in the balanced and in the
  stable strategy.)
\<close>

theorem travModeFlat_uncoarse_leaf_counterexample:
  "map_option (rendered \<circ> fst)
       (travModeFlat (Suc 0) ex_cam ex_state None (TraverseNode ex_data []))
     = Some [ex_rendered]
   \<and> visibilityTest ex_cam ex_rendered \<and> \<not> coarsenessTest ex_cam ex_rendered"
  using ex_flat_run
  by (simp add: visibilityTest_def coarsenessTest_def ex_cam_def ex_rendered_def)


text \<open>
  C5, amended.  Every node on which a strategy calls \<^verbatim>\<open>renderNode\<close> passed the visibility
  test and is determined when it is rendered.  In the flat strategy it also passes the
  coarseness test or has no children.  In the balanced and the stable strategy (in
  each of their modes) the coarseness test is not a condition of rendering: they also
  render determined nodes as a fall-back (render-only calls; in the stable strategy a
  determined node whose children are not all loaded).  The nodes that
  \<^verbatim>\<open>renderNodeCoarser\<close> emits are not part of this statement.  The statement is about
  the calls that return, with whatever number of nested calls they needed.
\<close>

theorem rendered_nodes_visible:
  "(travModeFlat n cam st par trav = Some (st', trav') \<longrightarrow>
      (\<exists>es. events st' = events st @ es
         \<and> (\<forall>t. RenderNode t \<in> set es \<longrightarrow>
               visibilityTest cam t \<and> (coarsenessTest cam t \<or> childs t = [])
               \<and> determined (nd t))))
 \<and> (travModeBalanced n cam st par trav renderOnly = Some (r, st', trav') \<longrightarrow>
      (\<exists>es. events st' = events st @ es
         \<and> (\<forall>t. RenderNode t \<in> set es \<longrightarrow> visibilityTest cam t \<and> determined (nd t))))
 \<and> (travModeStable n cam st par trav mode = Some (r, st', trav') \<longrightarrow>
      (\<exists>es. events st' = events st @ es
         \<and> (\<forall>t. RenderNode t \<in> set es \<longrightarrow> visibilityTest cam t \<and> determined (nd t))))"
  using travModeFlat_renders [of n cam st par trav st' trav']
    travModeBalanced_renders [of n cam st par trav renderOnly r st' trav']
    travModeStable_renders [of n cam st par trav mode r st' trav']
  unfolding appended_def by blast

theorem rendered_nodes_visible_witness:
  "map_option (rendered \<circ> fst)
       (travModeFlat (Suc 0) ex_cam ex_state None (TraverseNode ex_data [])) = Some [ex_rendered]
   \<and> map_option (rendered \<circ> fst \<circ> snd)
       (travModeBalanced (Suc 0) ex_cam ex_state None (TraverseNode ex_data []) False)
       = Some [ex_rendered]
   \<and> map_option (rendered \<circ> fst \<circ> snd)
       (travModeStable (Suc 0) ex_cam ex_state None (TraverseNode ex_data []) 0)
       = Some [ex_rendered]
   \<and> visibilityTest ex_cam ex_rendered
   \<and> (coarsenessTest ex_cam ex_rendered \<or> childs ex_rendered = [])
   \<and> determined (nd ex_rendered)"
proof -
  have e0: "events ex_state = []" by (simp add: ex_state_def)
  obtain st1 trav1 where
    r1: "travModeFlat (Suc 0) ex_cam ex_state None (TraverseNode ex_data []) = Some (st1, trav1)"
    and n1: "rendered st1 = [ex_rendered]"
    using ex_flat_run by (auto simp: map_option_case split: option.splits)
  obtain ok2 st2 trav2 where
    r2: "travModeBalanced (Suc 0) ex_cam ex_state None (TraverseNode ex_data []) False
           = Some (ok2, st2, trav2)"
    using ex_balanced_run by (auto simp: map_option_case split: option.splits)
  obtain ok3 st3 trav3 where
    r3: "travModeStable (Suc 0) ex_cam ex_state None (TraverseNode ex_data []) 0
           = Some (ok3, st3, trav3)"
    using ex_stable_run by (auto simp: map_option_case split: option.splits)
  from rendered_nodes_visible [of "Suc 0" ex_cam ex_state None "TraverseNode ex_data []" st1 trav1
      False ok2 0] r1
  obtain es where es: "events st1 = events ex_state @ es"
    and p: "\<forall>t. RenderNode t \<in> set es \<longrightarrow>
               visibilityTest ex_cam t \<and> (coarsenessTest ex_cam t \<or> childs t = [])
               \<and> determined (nd t)"
    by blast
  from rendered_nodes_visible [of "Suc 0" ex_cam ex_state None "TraverseNode ex_data []" st2 trav2
      False ok2 0] r2
  have "\<exists>es. events st2 = events ex_state @ es
         \<and> (\<forall>t. RenderNode t \<in> set es \<longrightarrow> visibilityTest ex_cam t \<and> determined (nd t))"
    by blast
  from rendered_nodes_visible [of "Suc 0" ex_cam ex_state None "TraverseNode ex_data []" st3 trav3
      False ok3 0] r3
  have "\<exists>es. events st3 = events ex_state @ es
         \<and> (\<forall>t. RenderNode t \<in> set es \<longrightarrow> visibilityTest ex_cam t \<and> determined (nd t))"
    by blast
  from es e0 n1 have "ex_rendered \<in> set (renderedNodes es)" by (simp add: rendered_def)
  then have "RenderNode ex_rendered \<in> set es" by (simp add: set_renderedNodes)
  with p have "visibilityTest ex_cam ex_rendered
      \<and> (coarsenessTest ex_cam ex_rendered \<or> childs ex_rendered = [])
      \<and> determined (nd ex_rendered)" by blast
  with ex_flat_run ex_balanced_run ex_stable_run show ?thesis by simp
qed
section \<open>Further properties of the bound-layer entry\<close>

text \<open>
  The UV matrix of an entry with \<open>0 < depth \<le> 24\<close> places the tile in one cell of the
  \<open>2^depth\<close> by \<open>2^depth\<close> grid of its ancestor: the scale is \<open>1/2^depth\<close>, the offsets
  are the low \<open>depth\<close> bits of the local coordinates times the scale (the vertical one
  counted from the top), and the image of the unit square stays within the unit square.
\<close>

theorem uvMatrix_within_unit_square:
  assumes "0 < depth b" and "depth b \<le> 24"
  shows "\<exists>s tx ty. uvMatrix b = Some ((Fin s, Fin 0, Fin tx), (Fin 0, Fin s, Fin ty),
                                          (Fin 0, Fin 0, Fin 1))
           \<and> s = 1 / 2 ^ nat (depth b)
           \<and> tx = s * of_nat (unat (take_bit (nat (depth b)) (xidx (localId (orig b)))))
           \<and> ty = 1 - s - s * of_nat (unat (take_bit (nat (depth b)) (yidx (localId (orig b)))))
           \<and> 0 \<le> tx \<and> tx + s \<le> 1 \<and> 0 \<le> ty \<and> ty + s \<le> 1"
proof -
  let ?d = "nat (depth b)"
  let ?s = "1 / 2 ^ ?d :: rat"
  let ?kx = "unat (take_bit ?d (xidx (localId (orig b))))"
  let ?ky = "unat (take_bit ?d (yidx (localId (orig b))))"
  have m: "uvMatrix b = Some ((Fin ?s, Fin 0, Fin (?s * of_nat ?kx)),
                              (Fin 0, Fin ?s, Fin (1 - ?s - ?s * of_nat ?ky)),
                              (Fin 0, Fin 0, Fin 1))"
    using uvMatrix_exact [OF assms] by (simp add: Let_def low_bits)
  have kx: "?kx < 2 ^ ?d" and ky: "?ky < 2 ^ ?d"
    by (simp_all add: unsigned_take_bit_eq)
  have bound: "\<And>k :: nat. k < 2 ^ ?d \<Longrightarrow> 0 \<le> ?s * of_nat k \<and> ?s * of_nat k + ?s \<le> 1"
  proof -
    fix k :: nat assume k: "k < 2 ^ ?d"
    then have "k + 1 \<le> 2 ^ ?d" by simp
    then have "(of_nat (k + 1) :: rat) \<le> of_nat (2 ^ ?d)" by (rule of_nat_mono)
    then have le: "(of_nat k + 1 :: rat) \<le> 2 ^ ?d" by simp
    have pos: "(0 :: rat) < 2 ^ ?d" by simp
    have "?s * of_nat k + ?s = (of_nat k + 1) / 2 ^ ?d" by (simp add: field_simps)
    also have "\<dots> \<le> 1" using le pos by (simp add: divide_le_eq)
    finally have "?s * of_nat k + ?s \<le> 1" .
    moreover have "0 \<le> ?s * of_nat k" by simp
    ultimately show "0 \<le> ?s * of_nat k \<and> ?s * of_nat k + ?s \<le> 1" by simp
  qed
  from bound [OF kx] have x: "0 \<le> ?s * of_nat ?kx" "?s * of_nat ?kx + ?s \<le> 1" by simp_all
  from bound [OF ky] have y: "0 \<le> 1 - ?s - ?s * of_nat ?ky" "1 - ?s - ?s * of_nat ?ky + ?s \<le> 1"
    by simp_all
  from m x y show ?thesis by blast
qed

theorem uvMatrix_within_unit_square_witness:
  "uvMatrix (ex_param\<lparr>depth := 2, orig := ex_vars\<lparr>localId := \<lparr>lod = 10, xidx = 401, yidx = 302\<rparr>\<rparr>\<rparr>)
     = Some ((Fin (1/4), Fin 0, Fin (1/4)), (Fin 0, Fin (1/4), Fin (1/4)), (Fin 0, Fin 0, Fin 1))"
proof -
  let ?b = "ex_param\<lparr>depth := 2, orig := ex_vars\<lparr>localId := \<lparr>lod = 10, xidx = 401, yidx = 302\<rparr>\<rparr>\<rparr>"
  have h: "0 < depth ?b" "depth ?b \<le> 24" by simp_all
  from uvMatrix_within_unit_square [OF h] show ?thesis
    by (auto simp: ex_vars_def unsigned_take_bit_eq take_bit_eq_mod)
qed

text \<open>
  A layer that \<^verbatim>\<open>prepare\<close> accepts is a known layer, the tile is not below its
  \<open>lodRange.min\<close> and the shifted coordinates lie within its \<open>tileRange\<close>; the entry is
  transparent exactly when the layer is, or when its alpha is set and below 1.
\<close>

theorem prepare_valid_in_range:
  assumes "prepare nodeInfo impl ops subMesh prio this = Some (Valid, this', ops')"
  shows "\<exists>bnd. getBoundInfo impl (id' this) = Some bnd \<and> bound this' = Some bnd
     \<and> uint (lmin (lodRange bnd)) \<le> uint (lod (nodeId nodeInfo))
     \<and> (let k = nat (uint (lod (nodeId nodeInfo)) - uint (lmin (lodRange bnd)));
             sx = drop_bit k (xidx (nodeId nodeInfo));
             sy = drop_bit k (yidx (nodeId nodeInfo))
         in fst (ll (tileRange bnd)) \<le> sx \<and> sx \<le> fst (ur (tileRange bnd))
          \<and> snd (ll (tileRange bnd)) \<le> sy \<and> sy \<le> snd (ur (tileRange bnd)))
     \<and> transparent this' = (isTransparent bnd \<or> (case alpha this of None \<Rightarrow> False | Some a \<Rightarrow> a < 1))"
  using assms
  by (auto simp: prepare_def Let_def shr32_def
      split: if_splits option.splits Validity.splits bind_splits)

theorem prepare_valid_in_range_witness:
  "\<exists>this'. prepare \<lparr>nodeId = ex_tile, local = ex_tile\<rparr> ex_impl [] 0 1 ex_param
             = Some (Valid, this', [])
     \<and> bound this' = Some ex_bound \<and> \<not> transparent this'"
proof -
  obtain this' where
    r: "prepare \<lparr>nodeId = ex_tile, local = ex_tile\<rparr> ex_impl [] 0 1 ex_param
          = Some (Valid, this', [])"
    by (simp add: prepare_def ex_impl_def ex_bound_def ex_tile_def ex_param_def shr32_def
        shiftVars_def Let_def)
  from prepare_valid_in_range [OF r]
  have "bound this' = Some ex_bound \<and> \<not> transparent this'"
    by (auto simp: ex_impl_def ex_bound_def ex_param_def)
  with r show ?thesis by blast
qed

end
